(* ===== verification/FabricPrelude.thy ===== *)
theory FabricPrelude
  imports Main "HOL-Library.Word" "HOL-Library.AList" "HOL-Library.List_Lexorder"
    "HOL-Library.Char_ord" "HOL-Library.Sublist"
begin

unbundle bit_operations_syntax

text \<open>
  Shared vocabulary of the development: machine integers at the width the Rust
  code gives them, the \<open>Result\<close> type and its \<open>?\<close> operator, the operations of
  \<open>str\<close> that the code uses, and the two collections whose observable behaviour
  matters, \<open>HashMap\<close> (an association list: iteration order is the list's, and
  no theorem depends on it) and \<open>BTreeSet\<close> (a sorted list without duplicates).
  A \<open>String\<close> is the list of its UTF-8 bytes (\<^typ>\<open>string\<close>); a \<open>Vec<u8>\<close>
  is a list of \<open>u8\<close>. Values of type \<open>i32\<close> and \<open>i64\<close> are integers, because the code
  only compares them and masks them.
\<close>

named_theorems result_simps \<open>unfolding the Result operators\<close>
named_theorems collection_simps \<open>lookup after an update of a collection\<close>
named_theorems string_simps \<open>the str operations of the code\<close>

section \<open>Machine integers\<close>

type_synonym u8 = "8 word"
type_synonym u32 = "32 word"
type_synonym u64 = "64 word"
type_synonym i32 = int
type_synonym i64 = int
type_synonym bytes = "u8 list"

definition saturating_add :: "u64 \<Rightarrow> u64 \<Rightarrow> u64" where
  "saturating_add a b = (if unat a + unat b < 2 ^ 64 then a + b else - 1)"

definition checked_add :: "u64 \<Rightarrow> u64 \<Rightarrow> u64 option" where
  "checked_add a b = (if unat a + unat b < 2 ^ 64 then Some (a + b) else None)"

definition saturating_sub :: "u64 \<Rightarrow> u64 \<Rightarrow> u64" where
  "saturating_sub a b = (if a < b then 0 else a - b)"

lemma unat_max_word: "unat (- 1 :: u64) = 2 ^ 64 - 1"
  by (simp add: unsigned_minus_1_eq_mask mask_eq_exp_minus_1)

lemma unat_u64_bound: "unat (a :: u64) < 2 ^ 64"
  using unsigned_less [of a] by simp

lemma unat_saturating_add:
  "unat (saturating_add a b) = min (unat a + unat b) (2 ^ 64 - 1)"
proof (cases "unat a + unat b < 2 ^ 64")
  case True
  then have "unat (a + b) = unat a + unat b"
    by (simp add: unat_word_ariths)
  with True show ?thesis by (simp add: saturating_add_def)
next
  case False
  then show ?thesis by (simp add: saturating_add_def unat_max_word)
qed

lemma saturating_add_ge1: "a \<le> saturating_add a b"
  unfolding word_le_nat_alt unat_saturating_add
  using unat_u64_bound [of a] by auto

lemma saturating_add_nonzero: "b \<noteq> 0 \<Longrightarrow> saturating_add a b \<noteq> 0"
proof -
  assume "b \<noteq> 0"
  then have "0 < unat b" by (simp add: unat_gt_0)
  then have "0 < unat (saturating_add a b)" by (simp add: unat_saturating_add)
  then show ?thesis by auto
qed

lemma unat_Suc_word: "a \<noteq> - 1 \<Longrightarrow> unat (a + 1 :: u64) = Suc (unat a)"
proof -
  assume "a \<noteq> - 1"
  then have "unat a \<noteq> 2 ^ 64 - 1"
    by (metis unat_max_word word_unat_eq_iff)
  with unat_u64_bound [of a] have "unat a + 1 < 2 ^ 64" by simp
  then show ?thesis by (simp add: unat_word_ariths)
qed

section \<open>Results\<close>

abbreviation Ok :: "'a \<Rightarrow> 'e + 'a" where "Ok \<equiv> Inr"
abbreviation Err :: "'e \<Rightarrow> 'e + 'a" where "Err \<equiv> Inl"

definition try_bind :: "'e + 'a \<Rightarrow> ('a \<Rightarrow> 'e + 'b) \<Rightarrow> 'e + 'b" where
  "try_bind m f = (case m of Inl e \<Rightarrow> Inl e | Inr a \<Rightarrow> f a)"

definition try_seq :: "'e + unit \<Rightarrow> 'e + 'b \<Rightarrow> 'e + 'b" where
  "try_seq m n = try_bind m (\<lambda>_. n)"

definition map_err :: "('e \<Rightarrow> 'f) \<Rightarrow> 'e + 'a \<Rightarrow> 'f + 'a" where
  "map_err f m = (case m of Inl e \<Rightarrow> Inl (f e) | Inr a \<Rightarrow> Inr a)"

definition map_ok :: "('a \<Rightarrow> 'b) \<Rightarrow> 'e + 'a \<Rightarrow> 'e + 'b" where
  "map_ok f m = (case m of Inl e \<Rightarrow> Inl e | Inr a \<Rightarrow> Inr (f a))"

definition ok_or :: "'e \<Rightarrow> 'a option \<Rightarrow> 'e + 'a" where
  "ok_or e x = (case x of None \<Rightarrow> Inl e | Some a \<Rightarrow> Inr a)"

fun try_each :: "('a \<Rightarrow> 'e + unit) \<Rightarrow> 'a list \<Rightarrow> 'e + unit" where
  "try_each f [] = Inr ()"
| "try_each f (x # xs) = try_seq (f x) (try_each f xs)"

lemma try_bind_Ok [simp, result_simps]: "try_bind (Inr a) f = f a"
  by (simp add: try_bind_def)

lemma try_bind_Err [simp, result_simps]: "try_bind (Inl e) f = Inl e"
  by (simp add: try_bind_def)

lemma try_seq_Ok [simp, result_simps]: "try_seq (Inr u) n = n"
  by (simp add: try_seq_def)

lemma try_seq_Err [simp, result_simps]: "try_seq (Inl e) n = Inl e"
  by (simp add: try_seq_def)

lemma map_err_simps [simp, result_simps]:
  "map_err f (Inr a) = Inr a" "map_err f (Inl e) = Inl (f e)"
  by (simp_all add: map_err_def)

lemma map_ok_simps [simp, result_simps]:
  "map_ok f (Inr a) = Inr (f a)" "map_ok f (Inl e) = Inl e"
  by (simp_all add: map_ok_def)

lemma ok_or_simps [simp, result_simps]:
  "ok_or e (Some a) = Inr a" "ok_or e None = Inl e"
  by (simp_all add: ok_or_def)

lemma try_bind_eq_Ok_iff: "try_bind m f = Inr b \<longleftrightarrow> (\<exists>a. m = Inr a \<and> f a = Inr b)"
  by (cases m) auto

lemma try_seq_eq_Ok_iff: "try_seq m n = Inr b \<longleftrightarrow> m = Inr () \<and> n = Inr b"
  by (cases m) auto

lemma map_err_eq_Ok_iff: "map_err f m = Inr b \<longleftrightarrow> m = Inr b"
  by (cases m) auto

lemma map_ok_eq_Ok_iff: "map_ok f m = Inr b \<longleftrightarrow> (\<exists>a. m = Inr a \<and> b = f a)"
  by (cases m) auto

lemma ok_or_eq_Ok_iff: "ok_or e x = Inr a \<longleftrightarrow> x = Some a"
  by (cases x) auto

lemma try_each_eq_Ok_iff: "try_each f xs = Inr u \<longleftrightarrow> (\<forall>x \<in> set xs. f x = Inr ())"
  by (induction xs) (auto simp: try_seq_eq_Ok_iff)

lemmas ok_iffs = try_bind_eq_Ok_iff try_seq_eq_Ok_iff map_err_eq_Ok_iff map_ok_eq_Ok_iff
  ok_or_eq_Ok_iff try_each_eq_Ok_iff

section \<open>Strings\<close>

text \<open>\<open>str::split\<close> at a character: always at least one piece.\<close>

fun split_char :: "char \<Rightarrow> string \<Rightarrow> string list" where
  "split_char c [] = [[]]"
| "split_char c (x # xs) =
     (if x = c then [] # split_char c xs
      else (case split_char c xs of [] \<Rightarrow> [[x]] | w # ws \<Rightarrow> (x # w) # ws))"

fun join_char :: "char \<Rightarrow> string list \<Rightarrow> string" where
  "join_char c [] = []"
| "join_char c [w] = w"
| "join_char c (w # v # ws) = w @ c # join_char c (v # ws)"

text \<open>\<open>str::strip_prefix\<close>: the rest after a prefix, if it is one.\<close>

fun str_strip_prefix :: "string \<Rightarrow> string \<Rightarrow> string option" where
  "str_strip_prefix s [] = Some s"
| "str_strip_prefix [] (p # ps) = None"
| "str_strip_prefix (x # xs) (p # ps) = (if x = p then str_strip_prefix xs ps else None)"

definition starts_with_char :: "char \<Rightarrow> string \<Rightarrow> bool" where
  "starts_with_char c s = (case s of [] \<Rightarrow> False | x # _ \<Rightarrow> x = c)"

definition contains_nul :: "string \<Rightarrow> bool" where
  "contains_nul s = list_ex (\<lambda>c. c = CHR 0x00) s"

text \<open>\<open>str::rsplit_once\<close> at a character: what is before and after its last occurrence.\<close>

fun rsplit_once :: "char \<Rightarrow> string \<Rightarrow> (string \<times> string) option" where
  "rsplit_once c [] = None"
| "rsplit_once c (x # xs) =
     (case rsplit_once c xs of
        Some (a, b) \<Rightarrow> Some (x # a, b)
      | None \<Rightarrow> if x = c then Some ([], xs) else None)"

text \<open>Decimal rendering, the \<open>Display\<close> of the integer types.\<close>

definition digit_char :: "nat \<Rightarrow> char" where
  "digit_char d = char_of (48 + d)"

fun show_nat :: "nat \<Rightarrow> string" where
  "show_nat n = (if n < 10 then [digit_char n] else show_nat (n div 10) @ [digit_char (n mod 10)])"

declare show_nat.simps [simp del]

definition show_int :: "int \<Rightarrow> string" where
  "show_int i = (if i < 0 then CHR ''-'' # show_nat (nat (- i)) else show_nat (nat i))"

lemma split_char_nonempty [simp]: "split_char c s \<noteq> []"
  by (induction s) (auto split: list.splits)

lemma split_char_no_sep: "c \<notin> set w \<Longrightarrow> split_char c w = [w]"
  by (induction w) auto

lemma split_char_append_sep:
  "c \<notin> set w \<Longrightarrow> split_char c (w @ c # s) = w # split_char c s"
  by (induction w) (auto split: list.splits)

lemma split_char_pieces: "w \<in> set (split_char c s) \<Longrightarrow> c \<notin> set w"
  by (induction s arbitrary: w) (fastforce split: if_splits list.splits)+

lemma join_char_Cons: "ws \<noteq> [] \<Longrightarrow> join_char c (w # ws) = w @ c # join_char c ws"
  by (cases ws) auto

lemma join_split_char [string_simps]: "join_char c (split_char c s) = s"
proof (induction s)
  case Nil
  then show ?case by simp
next
  case (Cons x xs)
  show ?case
  proof (cases "x = c")
    case True
    with Cons show ?thesis by (simp add: join_char_Cons)
  next
    case False
    obtain w ws where "split_char c xs = w # ws"
      by (meson split_char_nonempty neq_Nil_conv)
    with False Cons show ?thesis by (cases ws) auto
  qed
qed

lemma split_join_char [string_simps]:
  "ws \<noteq> [] \<Longrightarrow> \<forall>w \<in> set ws. c \<notin> set w \<Longrightarrow> split_char c (join_char c ws) = ws"
proof (induction ws)
  case Nil
  then show ?case by simp
next
  case (Cons w ws)
  show ?case
  proof (cases "ws = []")
    case True
    with Cons show ?thesis by (simp add: split_char_no_sep)
  next
    case False
    with Cons show ?thesis by (simp add: join_char_Cons split_char_append_sep)
  qed
qed

lemma split_char_append:
  "split_char c (s @ c # t) = split_char c s @ split_char c t"
  by (induction s) (auto split: list.splits)

lemma split_char_inject: "split_char c s = split_char c t \<longleftrightarrow> s = t"
  by (metis join_split_char)

lemma str_strip_prefix_iff [string_simps]: "str_strip_prefix s p = Some t \<longleftrightarrow> s = p @ t"
  by (induction s p rule: str_strip_prefix.induct) auto

lemma str_strip_prefix_append [simp]: "str_strip_prefix (p @ t) p = Some t"
  by (simp add: str_strip_prefix_iff)

lemma str_strip_prefix_None: "str_strip_prefix s p = None \<longleftrightarrow> (\<forall>t. s \<noteq> p @ t)"
  by (metis not_None_eq str_strip_prefix_iff)

lemma starts_with_char_simps [simp, string_simps]:
  "starts_with_char c [] = False" "starts_with_char c (x # xs) = (x = c)"
  by (simp_all add: starts_with_char_def)

lemma starts_with_char_iff: "starts_with_char c s \<longleftrightarrow> (\<exists>t. s = c # t)"
  by (cases s) auto

lemma contains_nul_iff: "contains_nul s \<longleftrightarrow> CHR 0x00 \<in> set s"
  by (auto simp: contains_nul_def list_ex_iff)

lemma contains_nul_append [simp]: "contains_nul (s @ t) \<longleftrightarrow> contains_nul s \<or> contains_nul t"
  by (simp add: contains_nul_def)

lemma rsplit_once_None: "rsplit_once c s = None \<longleftrightarrow> c \<notin> set s"
  by (induction s) (auto split: option.splits)

lemma rsplit_once_SomeD: "rsplit_once c s = Some (a, b) \<Longrightarrow> s = a @ c # b \<and> c \<notin> set b"
proof (induction s arbitrary: a)
  case Nil
  then show ?case by simp
next
  case (Cons x xs)
  show ?case
  proof (cases "rsplit_once c xs")
    case None
    with Cons.prems show ?thesis by (auto simp: rsplit_once_None split: if_splits)
  next
    case (Some p)
    with Cons.prems obtain a' where "rsplit_once c xs = Some (a', b)" "a = x # a'"
      by (cases p) auto
    with Cons.IH [of a'] show ?thesis by simp
  qed
qed

lemma rsplit_once_append: "c \<notin> set b \<Longrightarrow> rsplit_once c (a @ c # b) = Some (a, b)"
proof (induction a)
  case Nil
  then show ?case using rsplit_once_None [of c b] by simp
qed simp

lemma rsplit_once_Some: "rsplit_once c s = Some (a, b) \<longleftrightarrow> s = a @ c # b \<and> c \<notin> set b"
  using rsplit_once_SomeD rsplit_once_append by blast

section \<open>HashMap\<close>

type_synonym ('k, 'v) hash_map = "('k \<times> 'v) list"

abbreviation hm_get :: "('k, 'v) hash_map \<Rightarrow> 'k \<Rightarrow> 'v option" where
  "hm_get \<equiv> map_of"

definition hm_insert :: "'k \<Rightarrow> 'v \<Rightarrow> ('k, 'v) hash_map \<Rightarrow> ('k, 'v) hash_map" where
  "hm_insert k v m = AList.update k v m"

definition hm_remove :: "'k \<Rightarrow> ('k, 'v) hash_map \<Rightarrow> ('k, 'v) hash_map" where
  "hm_remove k m = AList.delete k m"

definition hm_retain :: "('k \<Rightarrow> 'v \<Rightarrow> bool) \<Rightarrow> ('k, 'v) hash_map \<Rightarrow> ('k, 'v) hash_map" where
  "hm_retain P m = filter (\<lambda>(k, v). P k v) m"

definition hm_keys :: "('k, 'v) hash_map \<Rightarrow> 'k list" where
  "hm_keys m = map fst m"

definition hm_wf :: "('k, 'v) hash_map \<Rightarrow> bool" where
  "hm_wf m \<longleftrightarrow> distinct (map fst m)"

text \<open>
  The map interface the components program against: a lookup after an insertion
  or a removal, and an enumeration of the entries that lists each key once.
\<close>

locale map_store =
  fixes get :: "'m \<Rightarrow> 'k \<Rightarrow> 'v option"
    and ins :: "'k \<Rightarrow> 'v \<Rightarrow> 'm \<Rightarrow> 'm"
    and rem :: "'k \<Rightarrow> 'm \<Rightarrow> 'm"
    and wf :: "'m \<Rightarrow> bool"
  assumes get_ins: "get (ins k v m) = (get m)(k \<mapsto> v)"
    and get_rem: "get (rem k m) = (get m)(k := None)"
    and wf_ins: "wf m \<Longrightarrow> wf (ins k v m)"
    and wf_rem: "wf m \<Longrightarrow> wf (rem k m)"
begin

lemma get_fold_rem:
  "get (fold rem ks m) k = (if k \<in> set ks then None else get m k)"
  by (induction ks arbitrary: m) (auto simp: get_rem)

lemma wf_fold_rem: "wf m \<Longrightarrow> wf (fold rem ks m)"
  by (induction ks arbitrary: m) (auto simp: wf_rem)

lemma dom_get_ins: "dom (get (ins k v m)) = insert k (dom (get m))"
  by (simp add: get_ins)

lemma dom_get_rem: "dom (get (rem k m)) = dom (get m) - {k}"
  by (simp add: get_rem)

end

lemma hm_get_insert [simp, collection_simps]:
  "hm_get (hm_insert k v m) = (hm_get m)(k \<mapsto> v)"
  by (simp add: hm_insert_def update_conv')

lemma hm_get_remove [simp, collection_simps]:
  "hm_get (hm_remove k m) = (hm_get m)(k := None)"
  by (simp add: hm_remove_def delete_conv')

lemma hm_wf_insert [simp]: "hm_wf m \<Longrightarrow> hm_wf (hm_insert k v m)"
  by (simp add: hm_wf_def hm_insert_def distinct_update)

lemma hm_wf_remove [simp]: "hm_wf m \<Longrightarrow> hm_wf (hm_remove k m)"
  by (simp add: hm_wf_def hm_remove_def distinct_delete)

lemma hm_wf_Nil [simp]: "hm_wf []"
  by (simp add: hm_wf_def)

interpretation hm: map_store "hm_get" "hm_insert" "hm_remove" "hm_wf"
  by unfold_locales simp_all

lemma hm_get_iff: "hm_wf m \<Longrightarrow> hm_get m k = Some v \<longleftrightarrow> (k, v) \<in> set m"
  by (auto simp: hm_wf_def dest: map_of_SomeD)

lemma hm_get_None_iff: "hm_get m k = None \<longleftrightarrow> k \<notin> fst ` set m"
  by (simp add: map_of_eq_None_iff)

lemma hm_wf_retain [simp]: "hm_wf m \<Longrightarrow> hm_wf (hm_retain P m)"
  unfolding hm_wf_def hm_retain_def by (rule distinct_map_filter)

lemma hm_get_retain [collection_simps]:
  assumes "hm_wf m"
  shows "hm_get (hm_retain P m) k =
    (case hm_get m k of None \<Rightarrow> None | Some v \<Rightarrow> if P k v then Some v else None)"
proof -
  have *: "hm_get (hm_retain P m) k = Some v \<longleftrightarrow> hm_get m k = Some v \<and> P k v" for v
    using assms hm_wf_retain [OF assms] by (simp add: hm_get_iff) (auto simp: hm_retain_def)
  show ?thesis
  proof (cases "hm_get (hm_retain P m) k")
    case None
    with * show ?thesis by (auto split: option.splits)
  next
    case (Some v)
    with * have "hm_get m k = Some v" "P k v" by blast+
    with Some show ?thesis by simp
  qed
qed

lemma hm_length_1_iff:
  assumes "hm_wf m"
  shows "length m = 1 \<and> hm_get m k = Some v \<longleftrightarrow> m = [(k, v)]"
  by (cases m; cases "tl m") (auto split: if_splits)

section \<open>BTreeSet\<close>

type_synonym 'a btree_set = "'a list"

definition bts_insert :: "'a::linorder \<Rightarrow> 'a btree_set \<Rightarrow> 'a btree_set" where
  "bts_insert x s = (if x \<in> set s then s else insort x s)"

definition bts_remove :: "'a::linorder \<Rightarrow> 'a btree_set \<Rightarrow> 'a btree_set" where
  "bts_remove x s = remove1 x s"

definition bts_first :: "'a btree_set \<Rightarrow> 'a option" where
  "bts_first s = (case s of [] \<Rightarrow> None | x # _ \<Rightarrow> Some x)"

definition bts_wf :: "'a::linorder btree_set \<Rightarrow> bool" where
  "bts_wf s \<longleftrightarrow> sorted s \<and> distinct s"

text \<open>The ordered-set interface: membership after an update, and the least element.\<close>

locale ordered_set =
  fixes elems :: "'s \<Rightarrow> 'a::linorder set"
    and ins :: "'a \<Rightarrow> 's \<Rightarrow> 's"
    and rem :: "'a \<Rightarrow> 's \<Rightarrow> 's"
    and first :: "'s \<Rightarrow> 'a option"
    and wf :: "'s \<Rightarrow> bool"
  assumes elems_ins: "elems (ins x s) = insert x (elems s)"
    and elems_rem: "wf s \<Longrightarrow> elems (rem x s) = elems s - {x}"
    and first_Some: "wf s \<Longrightarrow> first s = Some x \<Longrightarrow> x \<in> elems s \<and> (\<forall>y \<in> elems s. x \<le> y)"
    and first_None: "first s = None \<longleftrightarrow> elems s = {}"
    and wf_ins: "wf s \<Longrightarrow> wf (ins x s)"
    and wf_rem: "wf s \<Longrightarrow> wf (rem x s)"
begin

lemma first_ex: "elems s \<noteq> {} \<Longrightarrow> \<exists>x. first s = Some x"
  using first_None [of s] by auto

lemma first_unique:
  assumes "wf s" and "x \<in> elems s" and "\<forall>y \<in> elems s. x \<le> y"
  shows "first s = Some x"
proof -
  obtain z where z: "first s = Some z" using first_ex assms(2) by blast
  with first_Some [OF assms(1) z] assms(2,3) have "z = x" by (meson order_antisym)
  with z show ?thesis by simp
qed

end

lemma bts_insert_set [simp, collection_simps]: "set (bts_insert x s) = insert x (set s)"
  by (auto simp: bts_insert_def set_insort_key)

lemma bts_insert_wf [simp]: "bts_wf s \<Longrightarrow> bts_wf (bts_insert x s)"
  by (simp add: bts_wf_def bts_insert_def sorted_insort distinct_insort)

lemma bts_remove_set [simp, collection_simps]: "bts_wf s \<Longrightarrow> set (bts_remove x s) = set s - {x}"
  by (simp add: bts_wf_def bts_remove_def set_remove1_eq)

lemma bts_remove_wf [simp]: "bts_wf s \<Longrightarrow> bts_wf (bts_remove x s)"
  by (simp add: bts_wf_def bts_remove_def sorted_remove1 distinct_remove1)

lemma bts_wf_Nil [simp]: "bts_wf []"
  by (simp add: bts_wf_def)

interpretation bts: ordered_set "set" "bts_insert" "bts_remove" "bts_first" "bts_wf"
proof unfold_locales
  show "x \<in> set s \<and> (\<forall>y \<in> set s. x \<le> y)" if "bts_wf s" "bts_first s = Some x"
    for s :: "'a::linorder list" and x
    using that by (auto simp: bts_first_def bts_wf_def split: list.splits)
  show "bts_first s = None \<longleftrightarrow> set s = {}" for s :: "'a list"
    by (auto simp: bts_first_def split: list.splits)
qed simp_all

lemma bts_first_mem: "bts_first s = Some x \<Longrightarrow> x \<in> set s"
  by (auto simp: bts_first_def split: list.splits)

end
