(* ===== verification/FsOperation.thy ===== *)
theory FsOperation
  imports FabricPrelude
begin

text \<open>
  The operation vocabulary of the wire protocol: \<open>fs-protocol/src/operation.rs\<close>
  (the operations and their conversions), \<open>operation_spec.rs\<close> (the table of facts
  about each operation), \<open>error.rs\<close> and \<open>errno.rs\<close>. The lemmas show that the
  table is indexed consistently and that its wire values and subject tokens
  identify operations.
\<close>

section \<open>Operations and their facts\<close>

datatype Operation =
  Op_Lookup | Op_Getattr | Op_Readdir | Op_Open | Op_Read | Op_Write | Op_Create
  | Op_Rename | Op_Unlink | Op_Mkdir | Op_Rmdir | Op_Statfs | Op_Getxattr | Op_Setxattr
  | Op_Listxattr | Op_Removexattr | Op_Release | Op_Readlink | Op_Symlink | Op_Hardlink
  | Op_Setattr | Op_Flush | Op_Fsync | Op_Fsyncdir | Op_Getlk | Op_Setlk | Op_Flock
  | Op_CopyFileRange | Op_Fallocate | Op_Lseek

text \<open>The \<open>repr(i32)\<close> discriminants.\<close>

fun discriminant :: "Operation \<Rightarrow> nat" where
  "discriminant Op_Lookup = 1"
| "discriminant Op_Getattr = 2"
| "discriminant Op_Readdir = 3"
| "discriminant Op_Open = 4"
| "discriminant Op_Read = 5"
| "discriminant Op_Write = 6"
| "discriminant Op_Create = 7"
| "discriminant Op_Rename = 8"
| "discriminant Op_Unlink = 9"
| "discriminant Op_Mkdir = 10"
| "discriminant Op_Rmdir = 11"
| "discriminant Op_Statfs = 12"
| "discriminant Op_Getxattr = 13"
| "discriminant Op_Setxattr = 14"
| "discriminant Op_Listxattr = 15"
| "discriminant Op_Removexattr = 16"
| "discriminant Op_Release = 17"
| "discriminant Op_Readlink = 18"
| "discriminant Op_Symlink = 19"
| "discriminant Op_Hardlink = 20"
| "discriminant Op_Setattr = 21"
| "discriminant Op_Flush = 22"
| "discriminant Op_Fsync = 23"
| "discriminant Op_Fsyncdir = 24"
| "discriminant Op_Getlk = 25"
| "discriminant Op_Setlk = 26"
| "discriminant Op_Flock = 27"
| "discriminant Op_CopyFileRange = 28"
| "discriminant Op_Fallocate = 29"
| "discriminant Op_Lseek = 30"

definition Operation_ALL :: "Operation list" where
  "Operation_ALL =
    [Op_Lookup , Op_Getattr , Op_Readdir , Op_Open , Op_Read , Op_Write , Op_Create
     , Op_Rename , Op_Unlink , Op_Mkdir , Op_Rmdir , Op_Statfs , Op_Getxattr
     , Op_Setxattr , Op_Listxattr , Op_Removexattr , Op_Release , Op_Readlink
     , Op_Symlink , Op_Hardlink , Op_Setattr , Op_Flush , Op_Fsync , Op_Fsyncdir
     , Op_Getlk , Op_Setlk , Op_Flock , Op_CopyFileRange , Op_Fallocate , Op_Lseek]"

datatype MessageShape =
  Shape_LookupRequest | Shape_LookupResponse | Shape_GetattrRequest
  | Shape_GetattrResponse | Shape_ReaddirRequest | Shape_ReaddirResponse
  | Shape_OpenRequest | Shape_OpenResponse | Shape_ReadRequest | Shape_ReadResponse
  | Shape_WriteRequest | Shape_WriteResponse | Shape_CreateRequest
  | Shape_CreateResponse | Shape_RenameRequest | Shape_UnlinkRequest
  | Shape_MkdirRequest | Shape_RmdirRequest | Shape_StatfsRequest
  | Shape_StatfsResponse | Shape_GetxattrRequest | Shape_GetxattrResponse
  | Shape_SetxattrRequest | Shape_ListxattrRequest | Shape_ListxattrResponse
  | Shape_RemovexattrRequest | Shape_ReleaseRequest | Shape_ReadlinkRequest
  | Shape_ReadlinkResponse | Shape_SymlinkRequest | Shape_SymlinkResponse
  | Shape_HardlinkRequest | Shape_HardlinkResponse | Shape_SetattrRequest
  | Shape_SetattrResponse | Shape_FlushRequest | Shape_FsyncRequest
  | Shape_FsyncdirRequest | Shape_GetlkRequest | Shape_GetlkResponse
  | Shape_SetlkRequest | Shape_FlockRequest | Shape_CopyFileRangeRequest
  | Shape_CopyFileRangeResponse | Shape_FallocateRequest | Shape_LseekRequest
  | Shape_LseekResponse | Shape_EmptyResponse

datatype OperationEffect =
  Eff_ReadOnly | Eff_HandleLifecycle | Eff_ContentMutation | Eff_CreateNode | Eff_DeleteNode
  | Eff_RenameNode | Eff_MetadataMutation | Eff_XattrMutation | Eff_Durability
  | Eff_LockState | Eff_SeekState

fun effect_is_mutation :: "OperationEffect \<Rightarrow> bool" where
  "effect_is_mutation Eff_ContentMutation = True"
| "effect_is_mutation Eff_CreateNode = True"
| "effect_is_mutation Eff_DeleteNode = True"
| "effect_is_mutation Eff_RenameNode = True"
| "effect_is_mutation Eff_MetadataMutation = True"
| "effect_is_mutation Eff_XattrMutation = True"
| "effect_is_mutation Eff_Durability = True"
| "effect_is_mutation Eff_LockState = True"
| "effect_is_mutation _ = False"

fun requires_path_invalidation :: "OperationEffect \<Rightarrow> bool" where
  "requires_path_invalidation Eff_ContentMutation = True"
| "requires_path_invalidation Eff_CreateNode = True"
| "requires_path_invalidation Eff_DeleteNode = True"
| "requires_path_invalidation Eff_RenameNode = True"
| "requires_path_invalidation Eff_MetadataMutation = True"
| "requires_path_invalidation Eff_XattrMutation = True"
| "requires_path_invalidation _ = False"

datatype PathRole = Role_Target | Role_Source

datatype PathRootPolicy = Root_Any | Root_NonRoot

record PathRoleSpec =
  prs_role :: PathRole
  prs_field :: string
  prs_root :: PathRootPolicy

datatype ResponseLimit =
  Limit_None | Limit_RequestedDirectoryEntries | Limit_RequestedReadBytes
  | Limit_RequestWriteBytes | Limit_RequestedXattrBytes | Limit_RequestedListxattrBytes
  | Limit_RequestedCopyLength

datatype ResponseHandle = Handle_None | Handle_OpenedObject

record OperationSpec =
  os_operation :: Operation
  os_wire_value :: i32
  os_subject_token :: string
  os_request_shape :: MessageShape
  os_response_shape :: MessageShape
  os_path_roles :: "PathRoleSpec list"
  os_effect :: OperationEffect
  os_response_limit :: ResponseLimit
  os_response_handle :: ResponseHandle

definition primary_path_role :: "OperationSpec \<Rightarrow> PathRole option" where
  "primary_path_role s = (case os_path_roles s of [] \<Rightarrow> None | p # _ \<Rightarrow> Some (prs_role p))"

definition PathRoleSpec_new :: "PathRole \<Rightarrow> string \<Rightarrow> PathRootPolicy \<Rightarrow> PathRoleSpec" where
  "PathRoleSpec_new role field root = \<lparr>prs_role = role, prs_field = field, prs_root = root\<rparr>"

definition TARGET_ANY :: "PathRoleSpec list" where
  "TARGET_ANY = [PathRoleSpec_new Role_Target ''path'' Root_Any]"

definition TARGET_NON_ROOT :: "PathRoleSpec list" where
  "TARGET_NON_ROOT = [PathRoleSpec_new Role_Target ''path'' Root_NonRoot]"

definition RENAME_PATHS :: "PathRoleSpec list" where
  "RENAME_PATHS =
    [PathRoleSpec_new Role_Source ''old_path'' Root_NonRoot,
     PathRoleSpec_new Role_Target ''new_path'' Root_NonRoot]"

definition HARDLINK_PATHS :: "PathRoleSpec list" where
  "HARDLINK_PATHS =
    [PathRoleSpec_new Role_Target ''new_path'' Root_NonRoot,
     PathRoleSpec_new Role_Source ''existing_path'' Root_NonRoot]"

definition COPY_FILE_RANGE_PATHS :: "PathRoleSpec list" where
  "COPY_FILE_RANGE_PATHS =
    [PathRoleSpec_new Role_Target ''output_path'' Root_Any,
     PathRoleSpec_new Role_Source ''input_path'' Root_Any]"

definition OPERATION_SPECS :: "OperationSpec list" where
  "OPERATION_SPECS = [
    \<lparr>os_operation = Op_Lookup, os_wire_value = 1, os_subject_token = ''lookup'',
     os_request_shape = Shape_LookupRequest, os_response_shape = Shape_LookupResponse,
     os_path_roles = TARGET_ANY, os_effect = Eff_ReadOnly,
     os_response_limit = Limit_None, os_response_handle = Handle_None\<rparr>,
    \<lparr>os_operation = Op_Getattr, os_wire_value = 2, os_subject_token = ''getattr'',
     os_request_shape = Shape_GetattrRequest, os_response_shape = Shape_GetattrResponse,
     os_path_roles = TARGET_ANY, os_effect = Eff_ReadOnly,
     os_response_limit = Limit_None, os_response_handle = Handle_None\<rparr>,
    \<lparr>os_operation = Op_Readdir, os_wire_value = 3, os_subject_token = ''readdir'',
     os_request_shape = Shape_ReaddirRequest, os_response_shape = Shape_ReaddirResponse,
     os_path_roles = TARGET_ANY, os_effect = Eff_ReadOnly,
     os_response_limit = Limit_RequestedDirectoryEntries, os_response_handle = Handle_None\<rparr>,
    \<lparr>os_operation = Op_Open, os_wire_value = 4, os_subject_token = ''open'',
     os_request_shape = Shape_OpenRequest, os_response_shape = Shape_OpenResponse,
     os_path_roles = TARGET_ANY, os_effect = Eff_HandleLifecycle,
     os_response_limit = Limit_None, os_response_handle = Handle_OpenedObject\<rparr>,
    \<lparr>os_operation = Op_Read, os_wire_value = 5, os_subject_token = ''read'',
     os_request_shape = Shape_ReadRequest, os_response_shape = Shape_ReadResponse,
     os_path_roles = TARGET_ANY, os_effect = Eff_ReadOnly,
     os_response_limit = Limit_RequestedReadBytes, os_response_handle = Handle_None\<rparr>,
    \<lparr>os_operation = Op_Write, os_wire_value = 6, os_subject_token = ''write'',
     os_request_shape = Shape_WriteRequest, os_response_shape = Shape_WriteResponse,
     os_path_roles = TARGET_ANY, os_effect = Eff_ContentMutation,
     os_response_limit = Limit_RequestWriteBytes, os_response_handle = Handle_None\<rparr>,
    \<lparr>os_operation = Op_Create, os_wire_value = 7, os_subject_token = ''create'',
     os_request_shape = Shape_CreateRequest, os_response_shape = Shape_CreateResponse,
     os_path_roles = TARGET_NON_ROOT, os_effect = Eff_CreateNode,
     os_response_limit = Limit_None, os_response_handle = Handle_OpenedObject\<rparr>,
    \<lparr>os_operation = Op_Rename, os_wire_value = 8, os_subject_token = ''rename'',
     os_request_shape = Shape_RenameRequest, os_response_shape = Shape_EmptyResponse,
     os_path_roles = RENAME_PATHS, os_effect = Eff_RenameNode,
     os_response_limit = Limit_None, os_response_handle = Handle_None\<rparr>,
    \<lparr>os_operation = Op_Unlink, os_wire_value = 9, os_subject_token = ''unlink'',
     os_request_shape = Shape_UnlinkRequest, os_response_shape = Shape_EmptyResponse,
     os_path_roles = TARGET_NON_ROOT, os_effect = Eff_DeleteNode,
     os_response_limit = Limit_None, os_response_handle = Handle_None\<rparr>,
    \<lparr>os_operation = Op_Mkdir, os_wire_value = 10, os_subject_token = ''mkdir'',
     os_request_shape = Shape_MkdirRequest, os_response_shape = Shape_LookupResponse,
     os_path_roles = TARGET_NON_ROOT, os_effect = Eff_CreateNode,
     os_response_limit = Limit_None, os_response_handle = Handle_None\<rparr>,
    \<lparr>os_operation = Op_Rmdir, os_wire_value = 11, os_subject_token = ''rmdir'',
     os_request_shape = Shape_RmdirRequest, os_response_shape = Shape_EmptyResponse,
     os_path_roles = TARGET_NON_ROOT, os_effect = Eff_DeleteNode,
     os_response_limit = Limit_None, os_response_handle = Handle_None\<rparr>,
    \<lparr>os_operation = Op_Statfs, os_wire_value = 12, os_subject_token = ''statfs'',
     os_request_shape = Shape_StatfsRequest, os_response_shape = Shape_StatfsResponse,
     os_path_roles = TARGET_ANY, os_effect = Eff_ReadOnly,
     os_response_limit = Limit_None, os_response_handle = Handle_None\<rparr>,
    \<lparr>os_operation = Op_Getxattr, os_wire_value = 13, os_subject_token = ''getxattr'',
     os_request_shape = Shape_GetxattrRequest, os_response_shape = Shape_GetxattrResponse,
     os_path_roles = TARGET_ANY, os_effect = Eff_ReadOnly,
     os_response_limit = Limit_RequestedXattrBytes, os_response_handle = Handle_None\<rparr>,
    \<lparr>os_operation = Op_Setxattr, os_wire_value = 14, os_subject_token = ''setxattr'',
     os_request_shape = Shape_SetxattrRequest, os_response_shape = Shape_EmptyResponse,
     os_path_roles = TARGET_ANY, os_effect = Eff_XattrMutation,
     os_response_limit = Limit_None, os_response_handle = Handle_None\<rparr>,
    \<lparr>os_operation = Op_Listxattr, os_wire_value = 15, os_subject_token = ''listxattr'',
     os_request_shape = Shape_ListxattrRequest, os_response_shape = Shape_ListxattrResponse,
     os_path_roles = TARGET_ANY, os_effect = Eff_ReadOnly,
     os_response_limit = Limit_RequestedListxattrBytes, os_response_handle = Handle_None\<rparr>,
    \<lparr>os_operation = Op_Removexattr, os_wire_value = 16, os_subject_token = ''removexattr'',
     os_request_shape = Shape_RemovexattrRequest, os_response_shape = Shape_EmptyResponse,
     os_path_roles = TARGET_ANY, os_effect = Eff_XattrMutation,
     os_response_limit = Limit_None, os_response_handle = Handle_None\<rparr>,
    \<lparr>os_operation = Op_Release, os_wire_value = 17, os_subject_token = ''release'',
     os_request_shape = Shape_ReleaseRequest, os_response_shape = Shape_EmptyResponse,
     os_path_roles = TARGET_ANY, os_effect = Eff_HandleLifecycle,
     os_response_limit = Limit_None, os_response_handle = Handle_None\<rparr>,
    \<lparr>os_operation = Op_Readlink, os_wire_value = 18, os_subject_token = ''readlink'',
     os_request_shape = Shape_ReadlinkRequest, os_response_shape = Shape_ReadlinkResponse,
     os_path_roles = TARGET_ANY, os_effect = Eff_ReadOnly,
     os_response_limit = Limit_None, os_response_handle = Handle_None\<rparr>,
    \<lparr>os_operation = Op_Symlink, os_wire_value = 19, os_subject_token = ''symlink'',
     os_request_shape = Shape_SymlinkRequest, os_response_shape = Shape_SymlinkResponse,
     os_path_roles = TARGET_NON_ROOT, os_effect = Eff_CreateNode,
     os_response_limit = Limit_None, os_response_handle = Handle_None\<rparr>,
    \<lparr>os_operation = Op_Hardlink, os_wire_value = 20, os_subject_token = ''hardlink'',
     os_request_shape = Shape_HardlinkRequest, os_response_shape = Shape_HardlinkResponse,
     os_path_roles = HARDLINK_PATHS, os_effect = Eff_CreateNode,
     os_response_limit = Limit_None, os_response_handle = Handle_None\<rparr>,
    \<lparr>os_operation = Op_Setattr, os_wire_value = 21, os_subject_token = ''setattr'',
     os_request_shape = Shape_SetattrRequest, os_response_shape = Shape_SetattrResponse,
     os_path_roles = TARGET_ANY, os_effect = Eff_MetadataMutation,
     os_response_limit = Limit_None, os_response_handle = Handle_None\<rparr>,
    \<lparr>os_operation = Op_Flush, os_wire_value = 22, os_subject_token = ''flush'',
     os_request_shape = Shape_FlushRequest, os_response_shape = Shape_EmptyResponse,
     os_path_roles = TARGET_ANY, os_effect = Eff_Durability,
     os_response_limit = Limit_None, os_response_handle = Handle_None\<rparr>,
    \<lparr>os_operation = Op_Fsync, os_wire_value = 23, os_subject_token = ''fsync'',
     os_request_shape = Shape_FsyncRequest, os_response_shape = Shape_EmptyResponse,
     os_path_roles = TARGET_ANY, os_effect = Eff_Durability,
     os_response_limit = Limit_None, os_response_handle = Handle_None\<rparr>,
    \<lparr>os_operation = Op_Fsyncdir, os_wire_value = 24, os_subject_token = ''fsyncdir'',
     os_request_shape = Shape_FsyncdirRequest, os_response_shape = Shape_EmptyResponse,
     os_path_roles = TARGET_ANY, os_effect = Eff_Durability,
     os_response_limit = Limit_None, os_response_handle = Handle_None\<rparr>,
    \<lparr>os_operation = Op_Getlk, os_wire_value = 25, os_subject_token = ''getlk'',
     os_request_shape = Shape_GetlkRequest, os_response_shape = Shape_GetlkResponse,
     os_path_roles = TARGET_ANY, os_effect = Eff_ReadOnly,
     os_response_limit = Limit_None, os_response_handle = Handle_None\<rparr>,
    \<lparr>os_operation = Op_Setlk, os_wire_value = 26, os_subject_token = ''setlk'',
     os_request_shape = Shape_SetlkRequest, os_response_shape = Shape_EmptyResponse,
     os_path_roles = TARGET_ANY, os_effect = Eff_LockState,
     os_response_limit = Limit_None, os_response_handle = Handle_None\<rparr>,
    \<lparr>os_operation = Op_Flock, os_wire_value = 27, os_subject_token = ''flock'',
     os_request_shape = Shape_FlockRequest, os_response_shape = Shape_EmptyResponse,
     os_path_roles = TARGET_ANY, os_effect = Eff_LockState,
     os_response_limit = Limit_None, os_response_handle = Handle_None\<rparr>,
    \<lparr>os_operation = Op_CopyFileRange, os_wire_value = 28, os_subject_token = ''copy_file_range'',
     os_request_shape = Shape_CopyFileRangeRequest, os_response_shape = Shape_CopyFileRangeResponse,
     os_path_roles = COPY_FILE_RANGE_PATHS, os_effect = Eff_ContentMutation,
     os_response_limit = Limit_RequestedCopyLength, os_response_handle = Handle_None\<rparr>,
    \<lparr>os_operation = Op_Fallocate, os_wire_value = 29, os_subject_token = ''fallocate'',
     os_request_shape = Shape_FallocateRequest, os_response_shape = Shape_EmptyResponse,
     os_path_roles = TARGET_ANY, os_effect = Eff_ContentMutation,
     os_response_limit = Limit_None, os_response_handle = Handle_None\<rparr>,
    \<lparr>os_operation = Op_Lseek, os_wire_value = 30, os_subject_token = ''lseek'',
     os_request_shape = Shape_LseekRequest, os_response_shape = Shape_LseekResponse,
     os_path_roles = TARGET_ANY, os_effect = Eff_SeekState,
     os_response_limit = Limit_None, os_response_handle = Handle_None\<rparr>]"

definition spec_for :: "Operation \<Rightarrow> OperationSpec" where
  "spec_for op = OPERATION_SPECS ! (discriminant op - 1)"

definition operation_for_wire_value :: "i32 \<Rightarrow> Operation option" where
  "operation_for_wire_value value =
    map_option os_operation (find (\<lambda>spec. os_wire_value spec = value) OPERATION_SPECS)"

definition operation_for_subject_token :: "string \<Rightarrow> Operation option" where
  "operation_for_subject_token token =
    map_option os_operation (find (\<lambda>spec. os_subject_token spec = token) OPERATION_SPECS)"

definition wire_value :: "Operation \<Rightarrow> i32" where
  "wire_value op = os_wire_value (spec_for op)"

definition is_mutation :: "Operation \<Rightarrow> bool" where
  "is_mutation op = effect_is_mutation (os_effect (spec_for op))"

definition as_str :: "Operation \<Rightarrow> string" where
  "as_str op = os_subject_token (spec_for op)"

definition from_subject_token :: "string \<Rightarrow> Operation option" where
  "from_subject_token token = operation_for_subject_token token"

text \<open>The derived \<open>Debug\<close> rendering of an operation.\<close>

fun operation_debug :: "Operation \<Rightarrow> string" where
  "operation_debug Op_Lookup = ''Lookup''"
| "operation_debug Op_Getattr = ''Getattr''"
| "operation_debug Op_Readdir = ''Readdir''"
| "operation_debug Op_Open = ''Open''"
| "operation_debug Op_Read = ''Read''"
| "operation_debug Op_Write = ''Write''"
| "operation_debug Op_Create = ''Create''"
| "operation_debug Op_Rename = ''Rename''"
| "operation_debug Op_Unlink = ''Unlink''"
| "operation_debug Op_Mkdir = ''Mkdir''"
| "operation_debug Op_Rmdir = ''Rmdir''"
| "operation_debug Op_Statfs = ''Statfs''"
| "operation_debug Op_Getxattr = ''Getxattr''"
| "operation_debug Op_Setxattr = ''Setxattr''"
| "operation_debug Op_Listxattr = ''Listxattr''"
| "operation_debug Op_Removexattr = ''Removexattr''"
| "operation_debug Op_Release = ''Release''"
| "operation_debug Op_Readlink = ''Readlink''"
| "operation_debug Op_Symlink = ''Symlink''"
| "operation_debug Op_Hardlink = ''Hardlink''"
| "operation_debug Op_Setattr = ''Setattr''"
| "operation_debug Op_Flush = ''Flush''"
| "operation_debug Op_Fsync = ''Fsync''"
| "operation_debug Op_Fsyncdir = ''Fsyncdir''"
| "operation_debug Op_Getlk = ''Getlk''"
| "operation_debug Op_Setlk = ''Setlk''"
| "operation_debug Op_Flock = ''Flock''"
| "operation_debug Op_CopyFileRange = ''CopyFileRange''"
| "operation_debug Op_Fallocate = ''Fallocate''"
| "operation_debug Op_Lseek = ''Lseek''"

section \<open>Errors\<close>

datatype ProtocolError =
  Decode string
  | Encode string
  | UnsupportedVersion u32
  | UnknownOperation i32
  | InvalidErrno i32
  | UnknownInvalidationKind i32
  | UnknownFileKind i32
  | UnknownOpenKind i32
  | PayloadMismatch Operation Operation
  | InvalidPath string
  | InvalidEnvelope string
  | InvalidResponseState string

fun protocol_error_to_string :: "ProtocolError \<Rightarrow> string" where
  "protocol_error_to_string (Decode m) = ''protobuf decode failed: '' @ m"
| "protocol_error_to_string (Encode m) = ''protobuf encode failed: '' @ m"
| "protocol_error_to_string (UnsupportedVersion v) =
     ''unsupported protocol version '' @ show_nat (unat v)"
| "protocol_error_to_string (UnknownOperation v) = ''unknown operation value '' @ show_int v"
| "protocol_error_to_string (InvalidErrno v) = ''invalid errno value '' @ show_int v"
| "protocol_error_to_string (UnknownInvalidationKind v) =
     ''unknown invalidation kind value '' @ show_int v"
| "protocol_error_to_string (UnknownFileKind v) = ''unknown file kind value '' @ show_int v"
| "protocol_error_to_string (UnknownOpenKind v) = ''unknown open kind value '' @ show_int v"
| "protocol_error_to_string (PayloadMismatch e p) =
     ''payload operation '' @ operation_debug p @ '' does not match envelope operation ''
       @ operation_debug e"
| "protocol_error_to_string (InvalidPath m) = ''invalid path DTO `'' @ m @ ''`''"
| "protocol_error_to_string (InvalidEnvelope m) = ''invalid envelope: '' @ m"
| "protocol_error_to_string (InvalidResponseState m) = ''invalid response state: '' @ m"

definition operation_try_from :: "i32 \<Rightarrow> ProtocolError + Operation" where
  "operation_try_from value = ok_or (UnknownOperation value) (operation_for_wire_value value)"

text \<open>
  The field of \<open>Errno\<close> is private and every constructor makes it non-negative,
  so an errno carries a natural number.
\<close>

datatype Errno = Errno nat

definition Success :: Errno where "Success = Errno 0"
definition OperationNotPermitted :: Errno where "OperationNotPermitted = Errno 1"
definition NotFound :: Errno where "NotFound = Errno 2"
definition Io :: Errno where "Io = Errno 5"
definition BadFileDescriptor :: Errno where "BadFileDescriptor = Errno 9"
definition WouldBlock :: Errno where "WouldBlock = Errno 11"
definition PermissionDenied :: Errno where "PermissionDenied = Errno 13"
definition AlreadyExists :: Errno where "AlreadyExists = Errno 17"
definition NotDirectory :: Errno where "NotDirectory = Errno 20"
definition IsDirectory :: Errno where "IsDirectory = Errno 21"
definition InvalidArgument :: Errno where "InvalidArgument = Errno 22"
definition NoSpace :: Errno where "NoSpace = Errno 28"
definition Range :: Errno where "Range = Errno 34"
definition NotEmpty :: Errno where "NotEmpty = Errno 39"
definition NoData :: Errno where "NoData = Errno 61"
definition MessageTooLarge :: Errno where "MessageTooLarge = Errno 90"
definition NotSupported :: Errno where "NotSupported = Errno 95"
definition ConnectionReset :: Errno where "ConnectionReset = Errno 104"
definition NoBufferSpace :: Errno where "NoBufferSpace = Errno 105"
definition TimedOut :: Errno where "TimedOut = Errno 110"
definition Stale :: Errno where "Stale = Errno 116"

lemmas errno_defs = Success_def OperationNotPermitted_def NotFound_def Io_def
  BadFileDescriptor_def WouldBlock_def PermissionDenied_def AlreadyExists_def
  NotDirectory_def IsDirectory_def InvalidArgument_def NoSpace_def Range_def NotEmpty_def
  NoData_def MessageTooLarge_def NotSupported_def ConnectionReset_def NoBufferSpace_def
  TimedOut_def Stale_def

fun errno_wire_value :: "Errno \<Rightarrow> i32" where
  "errno_wire_value (Errno n) = int n"

fun is_error :: "Errno \<Rightarrow> bool" where
  "is_error (Errno n) = (n > 0)"

definition errno_try_from :: "i32 \<Rightarrow> ProtocolError + Errno" where
  "errno_try_from value = (if value < 0 then Err (InvalidErrno value) else Ok (Errno (nat value)))"

definition errno_name :: "Errno \<Rightarrow> string option" where
  "errno_name e = map_of
    [(Success, ''Success''), (OperationNotPermitted, ''OperationNotPermitted''),
     (NotFound, ''NotFound''), (Io, ''Io''), (BadFileDescriptor, ''BadFileDescriptor''),
     (WouldBlock, ''WouldBlock''), (PermissionDenied, ''PermissionDenied''),
     (AlreadyExists, ''AlreadyExists''), (NotDirectory, ''NotDirectory''),
     (IsDirectory, ''IsDirectory''), (InvalidArgument, ''InvalidArgument''),
     (NoSpace, ''NoSpace''), (Range, ''Range''), (NotEmpty, ''NotEmpty''),
     (NoData, ''NoData''), (MessageTooLarge, ''MessageTooLarge''),
     (NotSupported, ''NotSupported''), (ConnectionReset, ''ConnectionReset''),
     (NoBufferSpace, ''NoBufferSpace''), (TimedOut, ''TimedOut''), (Stale, ''Stale'')] e"

section \<open>Tables searched by a key\<close>

text \<open>
  A table whose rows have distinct keys: searching it for a key finds the one
  row with that key, which makes key and row interchangeable.
\<close>

locale keyed_table =
  fixes rows :: "'r list"
    and key :: "'r \<Rightarrow> 'k"
  assumes distinct_keys: "distinct (map key rows)"
begin

lemma find_row: "r \<in> set rows \<Longrightarrow> find (\<lambda>s. key s = key r) rows = Some r"
proof -
  assume r: "r \<in> set rows"
  then obtain s where s: "find (\<lambda>s. key s = key r) rows = Some s"
    by (cases "find (\<lambda>s. key s = key r) rows") (auto simp: find_None_iff)
  then have "s \<in> set rows" "key s = key r" by (auto simp: find_Some_iff)
  with r distinct_keys have "s = r" by (auto simp: distinct_map dest: inj_onD)
  with s show ?thesis by simp
qed

lemma find_iff: "find (\<lambda>s. key s = k) rows = Some r \<longleftrightarrow> r \<in> set rows \<and> key r = k"
  using find_row by (auto simp: find_Some_iff)

end

lemmas operation_table_defs = OPERATION_SPECS_def TARGET_ANY_def TARGET_NON_ROOT_def
  RENAME_PATHS_def HARDLINK_PATHS_def COPY_FILE_RANGE_PATHS_def PathRoleSpec_new_def

interpretation wire_table: keyed_table OPERATION_SPECS os_wire_value
  by unfold_locales (simp add: OPERATION_SPECS_def)

interpretation token_table: keyed_table OPERATION_SPECS os_subject_token
  by unfold_locales (simp add: OPERATION_SPECS_def)

lemma discriminant_bounds: "0 < discriminant op \<and> discriminant op \<le> length OPERATION_SPECS"
  by (cases op) (simp_all add: OPERATION_SPECS_def)

lemma spec_for_mem: "spec_for op \<in> set OPERATION_SPECS"
  using discriminant_bounds [of op] by (auto simp: spec_for_def)

lemma spec_for_operation [simp]: "os_operation (spec_for op) = op"
  by (cases op) (simp_all add: spec_for_def OPERATION_SPECS_def)

lemma spec_for_of_row: "s \<in> set OPERATION_SPECS \<Longrightarrow> spec_for (os_operation s) = s"
  by (auto simp: OPERATION_SPECS_def spec_for_def)

text \<open>The table by operation.\<close>

lemma spec_roles [simp]:
  "os_path_roles (spec_for Op_Lookup) = TARGET_ANY"
  "os_path_roles (spec_for Op_Getattr) = TARGET_ANY"
  "os_path_roles (spec_for Op_Readdir) = TARGET_ANY"
  "os_path_roles (spec_for Op_Open) = TARGET_ANY"
  "os_path_roles (spec_for Op_Read) = TARGET_ANY"
  "os_path_roles (spec_for Op_Write) = TARGET_ANY"
  "os_path_roles (spec_for Op_Create) = TARGET_NON_ROOT"
  "os_path_roles (spec_for Op_Rename) = RENAME_PATHS"
  "os_path_roles (spec_for Op_Unlink) = TARGET_NON_ROOT"
  "os_path_roles (spec_for Op_Mkdir) = TARGET_NON_ROOT"
  "os_path_roles (spec_for Op_Rmdir) = TARGET_NON_ROOT"
  "os_path_roles (spec_for Op_Statfs) = TARGET_ANY"
  "os_path_roles (spec_for Op_Getxattr) = TARGET_ANY"
  "os_path_roles (spec_for Op_Setxattr) = TARGET_ANY"
  "os_path_roles (spec_for Op_Listxattr) = TARGET_ANY"
  "os_path_roles (spec_for Op_Removexattr) = TARGET_ANY"
  "os_path_roles (spec_for Op_Release) = TARGET_ANY"
  "os_path_roles (spec_for Op_Readlink) = TARGET_ANY"
  "os_path_roles (spec_for Op_Symlink) = TARGET_NON_ROOT"
  "os_path_roles (spec_for Op_Hardlink) = HARDLINK_PATHS"
  "os_path_roles (spec_for Op_Setattr) = TARGET_ANY"
  "os_path_roles (spec_for Op_Flush) = TARGET_ANY"
  "os_path_roles (spec_for Op_Fsync) = TARGET_ANY"
  "os_path_roles (spec_for Op_Fsyncdir) = TARGET_ANY"
  "os_path_roles (spec_for Op_Getlk) = TARGET_ANY"
  "os_path_roles (spec_for Op_Setlk) = TARGET_ANY"
  "os_path_roles (spec_for Op_Flock) = TARGET_ANY"
  "os_path_roles (spec_for Op_CopyFileRange) = COPY_FILE_RANGE_PATHS"
  "os_path_roles (spec_for Op_Fallocate) = TARGET_ANY"
  "os_path_roles (spec_for Op_Lseek) = TARGET_ANY"
  by (simp_all add: spec_for_def OPERATION_SPECS_def)

lemma spec_effects [simp]:
  "os_effect (spec_for Op_Lookup) = Eff_ReadOnly"
  "os_effect (spec_for Op_Getattr) = Eff_ReadOnly"
  "os_effect (spec_for Op_Readdir) = Eff_ReadOnly"
  "os_effect (spec_for Op_Open) = Eff_HandleLifecycle"
  "os_effect (spec_for Op_Read) = Eff_ReadOnly"
  "os_effect (spec_for Op_Write) = Eff_ContentMutation"
  "os_effect (spec_for Op_Create) = Eff_CreateNode"
  "os_effect (spec_for Op_Rename) = Eff_RenameNode"
  "os_effect (spec_for Op_Unlink) = Eff_DeleteNode"
  "os_effect (spec_for Op_Mkdir) = Eff_CreateNode"
  "os_effect (spec_for Op_Rmdir) = Eff_DeleteNode"
  "os_effect (spec_for Op_Statfs) = Eff_ReadOnly"
  "os_effect (spec_for Op_Getxattr) = Eff_ReadOnly"
  "os_effect (spec_for Op_Setxattr) = Eff_XattrMutation"
  "os_effect (spec_for Op_Listxattr) = Eff_ReadOnly"
  "os_effect (spec_for Op_Removexattr) = Eff_XattrMutation"
  "os_effect (spec_for Op_Release) = Eff_HandleLifecycle"
  "os_effect (spec_for Op_Readlink) = Eff_ReadOnly"
  "os_effect (spec_for Op_Symlink) = Eff_CreateNode"
  "os_effect (spec_for Op_Hardlink) = Eff_CreateNode"
  "os_effect (spec_for Op_Setattr) = Eff_MetadataMutation"
  "os_effect (spec_for Op_Flush) = Eff_Durability"
  "os_effect (spec_for Op_Fsync) = Eff_Durability"
  "os_effect (spec_for Op_Fsyncdir) = Eff_Durability"
  "os_effect (spec_for Op_Getlk) = Eff_ReadOnly"
  "os_effect (spec_for Op_Setlk) = Eff_LockState"
  "os_effect (spec_for Op_Flock) = Eff_LockState"
  "os_effect (spec_for Op_CopyFileRange) = Eff_ContentMutation"
  "os_effect (spec_for Op_Fallocate) = Eff_ContentMutation"
  "os_effect (spec_for Op_Lseek) = Eff_SeekState"
  by (simp_all add: spec_for_def OPERATION_SPECS_def)

lemma spec_limits [simp]:
  "os_response_limit (spec_for Op_Lookup) = Limit_None"
  "os_response_limit (spec_for Op_Getattr) = Limit_None"
  "os_response_limit (spec_for Op_Readdir) = Limit_RequestedDirectoryEntries"
  "os_response_limit (spec_for Op_Open) = Limit_None"
  "os_response_limit (spec_for Op_Read) = Limit_RequestedReadBytes"
  "os_response_limit (spec_for Op_Write) = Limit_RequestWriteBytes"
  "os_response_limit (spec_for Op_Create) = Limit_None"
  "os_response_limit (spec_for Op_Rename) = Limit_None"
  "os_response_limit (spec_for Op_Unlink) = Limit_None"
  "os_response_limit (spec_for Op_Mkdir) = Limit_None"
  "os_response_limit (spec_for Op_Rmdir) = Limit_None"
  "os_response_limit (spec_for Op_Statfs) = Limit_None"
  "os_response_limit (spec_for Op_Getxattr) = Limit_RequestedXattrBytes"
  "os_response_limit (spec_for Op_Setxattr) = Limit_None"
  "os_response_limit (spec_for Op_Listxattr) = Limit_RequestedListxattrBytes"
  "os_response_limit (spec_for Op_Removexattr) = Limit_None"
  "os_response_limit (spec_for Op_Release) = Limit_None"
  "os_response_limit (spec_for Op_Readlink) = Limit_None"
  "os_response_limit (spec_for Op_Symlink) = Limit_None"
  "os_response_limit (spec_for Op_Hardlink) = Limit_None"
  "os_response_limit (spec_for Op_Setattr) = Limit_None"
  "os_response_limit (spec_for Op_Flush) = Limit_None"
  "os_response_limit (spec_for Op_Fsync) = Limit_None"
  "os_response_limit (spec_for Op_Fsyncdir) = Limit_None"
  "os_response_limit (spec_for Op_Getlk) = Limit_None"
  "os_response_limit (spec_for Op_Setlk) = Limit_None"
  "os_response_limit (spec_for Op_Flock) = Limit_None"
  "os_response_limit (spec_for Op_CopyFileRange) = Limit_RequestedCopyLength"
  "os_response_limit (spec_for Op_Fallocate) = Limit_None"
  "os_response_limit (spec_for Op_Lseek) = Limit_None"
  by (simp_all add: spec_for_def OPERATION_SPECS_def)

lemma spec_handles [simp]:
  "os_response_handle (spec_for Op_Lookup) = Handle_None"
  "os_response_handle (spec_for Op_Getattr) = Handle_None"
  "os_response_handle (spec_for Op_Readdir) = Handle_None"
  "os_response_handle (spec_for Op_Open) = Handle_OpenedObject"
  "os_response_handle (spec_for Op_Read) = Handle_None"
  "os_response_handle (spec_for Op_Write) = Handle_None"
  "os_response_handle (spec_for Op_Create) = Handle_OpenedObject"
  "os_response_handle (spec_for Op_Rename) = Handle_None"
  "os_response_handle (spec_for Op_Unlink) = Handle_None"
  "os_response_handle (spec_for Op_Mkdir) = Handle_None"
  "os_response_handle (spec_for Op_Rmdir) = Handle_None"
  "os_response_handle (spec_for Op_Statfs) = Handle_None"
  "os_response_handle (spec_for Op_Getxattr) = Handle_None"
  "os_response_handle (spec_for Op_Setxattr) = Handle_None"
  "os_response_handle (spec_for Op_Listxattr) = Handle_None"
  "os_response_handle (spec_for Op_Removexattr) = Handle_None"
  "os_response_handle (spec_for Op_Release) = Handle_None"
  "os_response_handle (spec_for Op_Readlink) = Handle_None"
  "os_response_handle (spec_for Op_Symlink) = Handle_None"
  "os_response_handle (spec_for Op_Hardlink) = Handle_None"
  "os_response_handle (spec_for Op_Setattr) = Handle_None"
  "os_response_handle (spec_for Op_Flush) = Handle_None"
  "os_response_handle (spec_for Op_Fsync) = Handle_None"
  "os_response_handle (spec_for Op_Fsyncdir) = Handle_None"
  "os_response_handle (spec_for Op_Getlk) = Handle_None"
  "os_response_handle (spec_for Op_Setlk) = Handle_None"
  "os_response_handle (spec_for Op_Flock) = Handle_None"
  "os_response_handle (spec_for Op_CopyFileRange) = Handle_None"
  "os_response_handle (spec_for Op_Fallocate) = Handle_None"
  "os_response_handle (spec_for Op_Lseek) = Handle_None"
  by (simp_all add: spec_for_def OPERATION_SPECS_def)

text \<open>
  A wire value decodes to an operation exactly when it is that operation's
  wire value, so no two operations share a wire value and none is unreachable.
\<close>

lemma operation_try_from_iff: "operation_try_from value = Ok op \<longleftrightarrow> value = wire_value op"
  using spec_for_mem [of op]
  by (auto simp: operation_try_from_def operation_for_wire_value_def wire_value_def
      wire_table.find_iff spec_for_of_row ok_or_eq_Ok_iff)

text \<open>
  A subject token names an operation exactly when it is that operation's
  token, so the operation segment of a transport subject is unambiguous.
\<close>

lemma from_subject_token_iff: "from_subject_token token = Some op \<longleftrightarrow> token = as_str op"
  using spec_for_mem [of op]
  by (auto simp: from_subject_token_def operation_for_subject_token_def as_str_def
      token_table.find_iff spec_for_of_row)

end
