(* ===== verification/FsMessages.thy ===== *)
theory FsMessages
  imports FsOperation
begin

text \<open>
  The protobuf messages of \<open>fs-protocol/proto/fs.proto\<close> as the records the
  generated code declares (a message field is optional, an enum field is its raw
  \<open>i32\<close>), the attribute constructors of \<open>attributes.rs\<close>, and the request and
  response payloads of \<open>payload.rs\<close> with their accessors. The lemmas relate the
  accessors to the path roles of the operation table.
\<close>

section \<open>Protocol constants\<close>

definition PROTOCOL_VERSION :: u32 where "PROTOCOL_VERSION = 2"
definition OPEN_FLAG_TRUNCATE :: u32 where "OPEN_FLAG_TRUNCATE = 512"
definition LOCK_SHARED :: i32 where "LOCK_SHARED = 1"
definition LOCK_EXCLUSIVE :: i32 where "LOCK_EXCLUSIVE = 2"
definition LOCK_NONBLOCK :: i32 where "LOCK_NONBLOCK = 4"
definition LOCK_UNLOCK :: i32 where "LOCK_UNLOCK = 8"
definition SEEK_SET :: i32 where "SEEK_SET = 0"
definition SEEK_CUR :: i32 where "SEEK_CUR = 1"
definition SEEK_END :: i32 where "SEEK_END = 2"
definition SEEK_DATA :: i32 where "SEEK_DATA = 3"
definition SEEK_HOLE :: i32 where "SEEK_HOLE = 4"

lemmas protocol_consts = PROTOCOL_VERSION_def OPEN_FLAG_TRUNCATE_def LOCK_SHARED_def
  LOCK_EXCLUSIVE_def LOCK_NONBLOCK_def LOCK_UNLOCK_def SEEK_SET_def SEEK_CUR_def
  SEEK_END_def SEEK_DATA_def SEEK_HOLE_def

section \<open>Messages\<close>

datatype FileKind = Kind_Unknown | Kind_File | Kind_Directory | Kind_Symlink

fun file_kind_value :: "FileKind \<Rightarrow> i32" where
  "file_kind_value Kind_Unknown = 0"
| "file_kind_value Kind_File = 1"
| "file_kind_value Kind_Directory = 2"
| "file_kind_value Kind_Symlink = 3"

definition file_kind_try_from :: "i32 \<Rightarrow> FileKind option" where
  "file_kind_try_from v =
    find (\<lambda>k. file_kind_value k = v) [Kind_Unknown, Kind_File, Kind_Directory, Kind_Symlink]"

datatype OpenKind = Open_Unspecified | Open_File | Open_Directory

fun open_kind_value :: "OpenKind \<Rightarrow> i32" where
  "open_kind_value Open_Unspecified = 0"
| "open_kind_value Open_File = 1"
| "open_kind_value Open_Directory = 2"

definition open_kind_try_from :: "i32 \<Rightarrow> OpenKind option" where
  "open_kind_try_from v =
    find (\<lambda>k. open_kind_value k = v) [Open_Unspecified, Open_File, Open_Directory]"

record TraceEntry =
  tentry_key :: string
  tentry_value :: string

record TraceContext =
  trace_trace_id :: string
  trace_parent_id :: string
  trace_entries :: "TraceEntry list"

record Observation =
  obs_key :: string
  obs_value :: string

record CallerContext =
  caller_uid :: u32
  caller_gid :: u32
  caller_pid :: u32

record PathDto =
  dto_path :: string

record FileAttr =
  attr_inode :: u64
  attr_size :: u64
  attr_kind :: i32
  attr_perm :: u32
  attr_mtime_unix_nanos :: u64
  attr_uid :: u32
  attr_gid :: u32
  attr_nlink :: u32
  attr_atime_unix_nanos :: u64
  attr_ctime_unix_nanos :: u64
  attr_crtime_unix_nanos :: u64

record DirectoryEntry =
  dirent_inode :: u64
  dirent_name :: string
  dirent_kind :: i32

record StatFs =
  stat_blocks :: u64
  stat_blocks_free :: u64
  stat_files :: u64
  stat_files_free :: u64
  stat_block_size :: u32
  stat_name_max :: u32
  stat_blocks_available :: u64
  stat_fragment_size :: u32

record Invalidation =
  inv_namespace :: string
  inv_sequence :: u64
  inv_kind :: i32
  inv_path :: string
  inv_old_path :: string
  inv_new_path :: string
  inv_inode :: u64
  inv_handle :: u64
  inv_request_id :: string

record FileLock =
  lock_start :: u64
  lock_end :: u64
  lock_typ :: i32
  lock_pid :: u32

datatype EmptyResponse = EmptyResponse

record LookupRequest =
  lookup_path :: "PathDto option"

record LookupResponse =
  lookup_resp_attr :: "FileAttr option"

record GetattrRequest =
  getattr_path :: "PathDto option"

record GetattrResponse =
  getattr_resp_attr :: "FileAttr option"

record ReaddirRequest =
  readdir_path :: "PathDto option"
  readdir_offset :: u64
  readdir_max_entries :: u32

record ReaddirResponse =
  readdir_resp_entries :: "DirectoryEntry list"
  readdir_resp_end :: bool

record OpenRequest =
  open_path :: "PathDto option"
  open_flags :: u32
  open_kind :: i32

record OpenResponse =
  open_resp_handle :: u64
  open_resp_flags :: u32

record ReadRequest =
  read_path :: "PathDto option"
  read_handle :: u64
  read_offset :: u64
  read_size :: u32

record ReadResponse =
  read_resp_data :: bytes

record WriteRequest =
  write_path :: "PathDto option"
  write_handle :: u64
  write_offset :: u64
  write_data :: bytes

record WriteResponse =
  write_resp_bytes_written :: u32

record CreateRequest =
  create_path :: "PathDto option"
  create_flags :: u32
  create_mode :: u32

record CreateResponse =
  create_resp_attr :: "FileAttr option"
  create_resp_handle :: u64

record RenameRequest =
  rename_old_path :: "PathDto option"
  rename_new_path :: "PathDto option"

record UnlinkRequest =
  unlink_path :: "PathDto option"

record MkdirRequest =
  mkdir_path :: "PathDto option"
  mkdir_mode :: u32

record RmdirRequest =
  rmdir_path :: "PathDto option"

record StatfsRequest =
  statfs_path :: "PathDto option"

record StatfsResponse =
  statfs_resp_stat :: "StatFs option"

record GetxattrRequest =
  getxattr_path :: "PathDto option"
  getxattr_name :: string
  getxattr_size :: u32

record GetxattrResponse =
  getxattr_resp_value :: bytes

record SetxattrRequest =
  setxattr_path :: "PathDto option"
  setxattr_name :: string
  setxattr_value :: bytes
  setxattr_flags :: u32

record ListxattrRequest =
  listxattr_path :: "PathDto option"
  listxattr_size :: u32

record ListxattrResponse =
  listxattr_resp_names :: "string list"

record RemovexattrRequest =
  removexattr_path :: "PathDto option"
  removexattr_name :: string

record ReleaseRequest =
  release_path :: "PathDto option"
  release_handle :: u64
  release_flags :: u32

record ReadlinkRequest =
  readlink_path :: "PathDto option"

record ReadlinkResponse =
  readlink_resp_target :: bytes

record SymlinkRequest =
  symlink_path :: "PathDto option"
  symlink_target :: bytes

record SymlinkResponse =
  symlink_resp_attr :: "FileAttr option"

record HardlinkRequest =
  hardlink_existing_path :: "PathDto option"
  hardlink_new_path :: "PathDto option"

record HardlinkResponse =
  hardlink_resp_attr :: "FileAttr option"

record SetattrRequest =
  setattr_path :: "PathDto option"
  setattr_mode :: "u32 option"
  setattr_uid :: "u32 option"
  setattr_gid :: "u32 option"
  setattr_size :: "u64 option"
  setattr_handle :: "u64 option"

record SetattrResponse =
  setattr_resp_attr :: "FileAttr option"

record FlushRequest =
  flush_path :: "PathDto option"
  flush_handle :: u64
  flush_lock_owner :: u64

record FsyncRequest =
  fsync_path :: "PathDto option"
  fsync_handle :: u64
  fsync_datasync :: bool

record FsyncdirRequest =
  fsyncdir_path :: "PathDto option"
  fsyncdir_handle :: u64
  fsyncdir_datasync :: bool

record GetlkRequest =
  getlk_path :: "PathDto option"
  getlk_handle :: u64
  getlk_owner :: u64
  getlk_start :: u64
  getlk_end :: u64
  getlk_typ :: i32
  getlk_pid :: u32

record GetlkResponse =
  getlk_resp_lock :: "FileLock option"

record SetlkRequest =
  setlk_path :: "PathDto option"
  setlk_handle :: u64
  setlk_owner :: u64
  setlk_start :: u64
  setlk_end :: u64
  setlk_typ :: i32
  setlk_pid :: u32
  setlk_wait :: bool

record FlockRequest =
  flock_path :: "PathDto option"
  flock_handle :: u64
  flock_owner :: u64
  flock_operation :: i32

record CopyFileRangeRequest =
  copyfilerange_input_path :: "PathDto option"
  copyfilerange_input_handle :: u64
  copyfilerange_input_offset :: i64
  copyfilerange_output_path :: "PathDto option"
  copyfilerange_output_handle :: u64
  copyfilerange_output_offset :: i64
  copyfilerange_length :: u64
  copyfilerange_flags :: u32

record CopyFileRangeResponse =
  copyfilerange_resp_bytes_copied :: u64

record FallocateRequest =
  fallocate_path :: "PathDto option"
  fallocate_handle :: u64
  fallocate_offset :: i64
  fallocate_length :: i64
  fallocate_mode :: i32

record LseekRequest =
  lseek_path :: "PathDto option"
  lseek_handle :: u64
  lseek_offset :: i64
  lseek_whence :: i32

record LseekResponse =
  lseek_resp_offset :: i64

record PbRequestEnvelope =
  pbreq_protocol_version :: u32
  pbreq_request_id :: string
  pbreq_operation :: i32
  pbreq_namespace :: string
  pbreq_deadline_unix_nanos :: u64
  pbreq_trace :: "TraceContext option"
  pbreq_payload :: bytes
  pbreq_payload_operation :: i32
  pbreq_observations :: "Observation list"
  pbreq_caller :: "CallerContext option"

record PbResponseEnvelope =
  pbresp_protocol_version :: u32
  pbresp_request_id :: string
  pbresp_operation :: i32
  pbresp_namespace :: string
  pbresp_deadline_unix_nanos :: u64
  pbresp_trace :: "TraceContext option"
  pbresp_payload :: bytes
  pbresp_ok :: bool
  pbresp_errno :: i32
  pbresp_error_message :: string
  pbresp_observations :: "Observation list"
  pbresp_invalidations :: "Invalidation list"
  pbresp_payload_operation :: i32


section \<open>Attribute constructors\<close>

definition file_attr :: "u64 \<Rightarrow> FileKind \<Rightarrow> u64 \<Rightarrow> FileAttr" where
  "file_attr inode kind sz =
    \<lparr>attr_inode = inode, attr_size = sz, attr_kind = file_kind_value kind,
     attr_perm = 420, attr_mtime_unix_nanos = 0, attr_uid = 0, attr_gid = 0, attr_nlink = 1,
     attr_atime_unix_nanos = 0, attr_ctime_unix_nanos = 0, attr_crtime_unix_nanos = 0\<rparr>"

definition directory_attr :: "u64 \<Rightarrow> FileAttr" where
  "directory_attr inode =
    \<lparr>attr_inode = inode, attr_size = 0, attr_kind = file_kind_value Kind_Directory,
     attr_perm = 493, attr_mtime_unix_nanos = 0, attr_uid = 0, attr_gid = 0, attr_nlink = 2,
     attr_atime_unix_nanos = 0, attr_ctime_unix_nanos = 0, attr_crtime_unix_nanos = 0\<rparr>"

section \<open>Payloads\<close>

datatype RequestPayload =
  Req_Lookup LookupRequest
  | Req_Getattr GetattrRequest
  | Req_Readdir ReaddirRequest
  | Req_Open OpenRequest
  | Req_Read ReadRequest
  | Req_Write WriteRequest
  | Req_Create CreateRequest
  | Req_Rename RenameRequest
  | Req_Unlink UnlinkRequest
  | Req_Mkdir MkdirRequest
  | Req_Rmdir RmdirRequest
  | Req_Statfs StatfsRequest
  | Req_Getxattr GetxattrRequest
  | Req_Setxattr SetxattrRequest
  | Req_Listxattr ListxattrRequest
  | Req_Removexattr RemovexattrRequest
  | Req_Release ReleaseRequest
  | Req_Readlink ReadlinkRequest
  | Req_Symlink SymlinkRequest
  | Req_Hardlink HardlinkRequest
  | Req_Setattr SetattrRequest
  | Req_Flush FlushRequest
  | Req_Fsync FsyncRequest
  | Req_Fsyncdir FsyncdirRequest
  | Req_Getlk GetlkRequest
  | Req_Setlk SetlkRequest
  | Req_Flock FlockRequest
  | Req_CopyFileRange CopyFileRangeRequest
  | Req_Fallocate FallocateRequest
  | Req_Lseek LseekRequest

fun request_operation :: "RequestPayload \<Rightarrow> Operation" where
  "request_operation (Req_Lookup _) = Op_Lookup"
| "request_operation (Req_Getattr _) = Op_Getattr"
| "request_operation (Req_Readdir _) = Op_Readdir"
| "request_operation (Req_Open _) = Op_Open"
| "request_operation (Req_Read _) = Op_Read"
| "request_operation (Req_Write _) = Op_Write"
| "request_operation (Req_Create _) = Op_Create"
| "request_operation (Req_Rename _) = Op_Rename"
| "request_operation (Req_Unlink _) = Op_Unlink"
| "request_operation (Req_Mkdir _) = Op_Mkdir"
| "request_operation (Req_Rmdir _) = Op_Rmdir"
| "request_operation (Req_Statfs _) = Op_Statfs"
| "request_operation (Req_Getxattr _) = Op_Getxattr"
| "request_operation (Req_Setxattr _) = Op_Setxattr"
| "request_operation (Req_Listxattr _) = Op_Listxattr"
| "request_operation (Req_Removexattr _) = Op_Removexattr"
| "request_operation (Req_Release _) = Op_Release"
| "request_operation (Req_Readlink _) = Op_Readlink"
| "request_operation (Req_Symlink _) = Op_Symlink"
| "request_operation (Req_Hardlink _) = Op_Hardlink"
| "request_operation (Req_Setattr _) = Op_Setattr"
| "request_operation (Req_Flush _) = Op_Flush"
| "request_operation (Req_Fsync _) = Op_Fsync"
| "request_operation (Req_Fsyncdir _) = Op_Fsyncdir"
| "request_operation (Req_Getlk _) = Op_Getlk"
| "request_operation (Req_Setlk _) = Op_Setlk"
| "request_operation (Req_Flock _) = Op_Flock"
| "request_operation (Req_CopyFileRange _) = Op_CopyFileRange"
| "request_operation (Req_Fallocate _) = Op_Fallocate"
| "request_operation (Req_Lseek _) = Op_Lseek"

fun path_dto_for_role :: "RequestPayload \<Rightarrow> PathRole \<Rightarrow> PathDto option" where
  "path_dto_for_role (Req_Lookup v) Role_Target = lookup_path v"
| "path_dto_for_role (Req_Getattr v) Role_Target = getattr_path v"
| "path_dto_for_role (Req_Readdir v) Role_Target = readdir_path v"
| "path_dto_for_role (Req_Open v) Role_Target = open_path v"
| "path_dto_for_role (Req_Read v) Role_Target = read_path v"
| "path_dto_for_role (Req_Write v) Role_Target = write_path v"
| "path_dto_for_role (Req_Create v) Role_Target = create_path v"
| "path_dto_for_role (Req_Rename v) Role_Source = rename_old_path v"
| "path_dto_for_role (Req_Rename v) Role_Target = rename_new_path v"
| "path_dto_for_role (Req_Unlink v) Role_Target = unlink_path v"
| "path_dto_for_role (Req_Mkdir v) Role_Target = mkdir_path v"
| "path_dto_for_role (Req_Rmdir v) Role_Target = rmdir_path v"
| "path_dto_for_role (Req_Statfs v) Role_Target = statfs_path v"
| "path_dto_for_role (Req_Getxattr v) Role_Target = getxattr_path v"
| "path_dto_for_role (Req_Setxattr v) Role_Target = setxattr_path v"
| "path_dto_for_role (Req_Listxattr v) Role_Target = listxattr_path v"
| "path_dto_for_role (Req_Removexattr v) Role_Target = removexattr_path v"
| "path_dto_for_role (Req_Release v) Role_Target = release_path v"
| "path_dto_for_role (Req_Readlink v) Role_Target = readlink_path v"
| "path_dto_for_role (Req_Symlink v) Role_Target = symlink_path v"
| "path_dto_for_role (Req_Hardlink v) Role_Source = hardlink_existing_path v"
| "path_dto_for_role (Req_Hardlink v) Role_Target = hardlink_new_path v"
| "path_dto_for_role (Req_Setattr v) Role_Target = setattr_path v"
| "path_dto_for_role (Req_Flush v) Role_Target = flush_path v"
| "path_dto_for_role (Req_Fsync v) Role_Target = fsync_path v"
| "path_dto_for_role (Req_Fsyncdir v) Role_Target = fsyncdir_path v"
| "path_dto_for_role (Req_Getlk v) Role_Target = getlk_path v"
| "path_dto_for_role (Req_Setlk v) Role_Target = setlk_path v"
| "path_dto_for_role (Req_Flock v) Role_Target = flock_path v"
| "path_dto_for_role (Req_CopyFileRange v) Role_Source = copyfilerange_input_path v"
| "path_dto_for_role (Req_CopyFileRange v) Role_Target = copyfilerange_output_path v"
| "path_dto_for_role (Req_Fallocate v) Role_Target = fallocate_path v"
| "path_dto_for_role (Req_Lseek v) Role_Target = lseek_path v"
| "path_dto_for_role _ _ = None"

definition path_for_role :: "RequestPayload \<Rightarrow> PathRole \<Rightarrow> string option" where
  "path_for_role p role = map_option dto_path (path_dto_for_role p role)"

definition primary_path :: "RequestPayload \<Rightarrow> string option" where
  "primary_path p =
    Option.bind (primary_path_role (spec_for (request_operation p))) (path_for_role p)"

datatype ResponsePayload =
  Resp_Lookup LookupResponse
  | Resp_Getattr GetattrResponse
  | Resp_Readdir ReaddirResponse
  | Resp_Open OpenResponse
  | Resp_Read ReadResponse
  | Resp_Write WriteResponse
  | Resp_Create CreateResponse
  | Resp_Rename EmptyResponse
  | Resp_Unlink EmptyResponse
  | Resp_Mkdir LookupResponse
  | Resp_Rmdir EmptyResponse
  | Resp_Statfs StatfsResponse
  | Resp_Getxattr GetxattrResponse
  | Resp_Setxattr EmptyResponse
  | Resp_Listxattr ListxattrResponse
  | Resp_Removexattr EmptyResponse
  | Resp_Release EmptyResponse
  | Resp_Readlink ReadlinkResponse
  | Resp_Symlink SymlinkResponse
  | Resp_Hardlink HardlinkResponse
  | Resp_Setattr SetattrResponse
  | Resp_Flush EmptyResponse
  | Resp_Fsync EmptyResponse
  | Resp_Fsyncdir EmptyResponse
  | Resp_Getlk GetlkResponse
  | Resp_Setlk EmptyResponse
  | Resp_Flock EmptyResponse
  | Resp_CopyFileRange CopyFileRangeResponse
  | Resp_Fallocate EmptyResponse
  | Resp_Lseek LseekResponse

fun response_operation :: "ResponsePayload \<Rightarrow> Operation" where
  "response_operation (Resp_Lookup _) = Op_Lookup"
| "response_operation (Resp_Getattr _) = Op_Getattr"
| "response_operation (Resp_Readdir _) = Op_Readdir"
| "response_operation (Resp_Open _) = Op_Open"
| "response_operation (Resp_Read _) = Op_Read"
| "response_operation (Resp_Write _) = Op_Write"
| "response_operation (Resp_Create _) = Op_Create"
| "response_operation (Resp_Rename _) = Op_Rename"
| "response_operation (Resp_Unlink _) = Op_Unlink"
| "response_operation (Resp_Mkdir _) = Op_Mkdir"
| "response_operation (Resp_Rmdir _) = Op_Rmdir"
| "response_operation (Resp_Statfs _) = Op_Statfs"
| "response_operation (Resp_Getxattr _) = Op_Getxattr"
| "response_operation (Resp_Setxattr _) = Op_Setxattr"
| "response_operation (Resp_Listxattr _) = Op_Listxattr"
| "response_operation (Resp_Removexattr _) = Op_Removexattr"
| "response_operation (Resp_Release _) = Op_Release"
| "response_operation (Resp_Readlink _) = Op_Readlink"
| "response_operation (Resp_Symlink _) = Op_Symlink"
| "response_operation (Resp_Hardlink _) = Op_Hardlink"
| "response_operation (Resp_Setattr _) = Op_Setattr"
| "response_operation (Resp_Flush _) = Op_Flush"
| "response_operation (Resp_Fsync _) = Op_Fsync"
| "response_operation (Resp_Fsyncdir _) = Op_Fsyncdir"
| "response_operation (Resp_Getlk _) = Op_Getlk"
| "response_operation (Resp_Setlk _) = Op_Setlk"
| "response_operation (Resp_Flock _) = Op_Flock"
| "response_operation (Resp_CopyFileRange _) = Op_CopyFileRange"
| "response_operation (Resp_Fallocate _) = Op_Fallocate"
| "response_operation (Resp_Lseek _) = Op_Lseek"

fun created_inode :: "ResponsePayload \<Rightarrow> u64 option" where
  "created_inode (Resp_Create v) = map_option attr_inode (create_resp_attr v)"
| "created_inode (Resp_Mkdir v) = map_option attr_inode (lookup_resp_attr v)"
| "created_inode (Resp_Symlink v) = map_option attr_inode (symlink_resp_attr v)"
| "created_inode (Resp_Hardlink v) = map_option attr_inode (hardlink_resp_attr v)"
| "created_inode _ = None"

fun opened_handle :: "ResponsePayload \<Rightarrow> u64 option" where
  "opened_handle (Resp_Open v) = Some (open_resp_handle v)"
| "opened_handle (Resp_Create v) = Some (create_resp_handle v)"
| "opened_handle _ = None"

end
