(* ===== verification/FsPath.thy ===== *)
theory FsPath
  imports FsMessages
begin

text \<open>
  Path values, \<open>fs-protocol/src/path.rs\<close>. A path is a string; the lemmas give it
  its meaning as a list of components: the checks accept exactly the renderings
  of component lists, and the textual subtree test is the prefix order on them.
\<close>

section \<open>The checks\<close>

definition validate_path_value :: "string \<Rightarrow> ProtocolError + unit" where
  "validate_path_value value =
    (if value = [] \<or> \<not> starts_with_char (CHR ''/'') value \<or> contains_nul value
     then Err (InvalidPath value)
     else if value = ''/'' then Ok ()
     else try_each (\<lambda>component.
            if component = [] \<or> component = ''.'' \<or> component = ''..''
            then Err (InvalidPath value) else Ok ())
          (drop 1 (split_char (CHR ''/'') value)))"

definition path :: "string \<Rightarrow> ProtocolError + PathDto" where
  "path value = try_seq (validate_path_value value) (Ok \<lparr>dto_path = value\<rparr>)"

definition path_is_in_subtree :: "string \<Rightarrow> string \<Rightarrow> bool" where
  "path_is_in_subtree p root \<longleftrightarrow>
    p = root
    \<or> (case str_strip_prefix p root of
         None \<Rightarrow> False | Some rest \<Rightarrow> starts_with_char (CHR ''/'') rest)"

definition validate_non_root_path_value :: "string \<Rightarrow> ProtocolError + unit" where
  "validate_non_root_path_value value =
    try_seq (validate_path_value value)
      (if value = ''/'' then Err (InvalidEnvelope ''operation path must not be root'')
       else Ok ())"

definition validate_rename_paths :: "string \<Rightarrow> string \<Rightarrow> ProtocolError + unit" where
  "validate_rename_paths old_path new_path =
    try_seq (validate_non_root_path_value old_path)
    (try_seq (validate_non_root_path_value new_path)
      (if path_is_in_subtree old_path new_path \<or> path_is_in_subtree new_path old_path
       then Err (InvalidEnvelope ''rename paths must be in disjoint subtrees'')
       else Ok ()))"

definition required_path_value :: "PathDto option \<Rightarrow> ProtocolError + PathDto" where
  "required_path_value value = ok_or (InvalidEnvelope ''missing path DTO'') value"

definition validate_path_field :: "PathDto option \<Rightarrow> ProtocolError + unit" where
  "validate_path_field value =
    try_bind (ok_or (InvalidEnvelope ''missing path DTO'') value)
      (\<lambda>v. validate_path_value (dto_path v))"

definition validate_non_root_path_field :: "PathDto option \<Rightarrow> ProtocolError + unit" where
  "validate_non_root_path_field value =
    try_bind (required_path_value value) (\<lambda>v. validate_non_root_path_value (dto_path v))"

definition validate_required_invalidation_path ::
    "string \<Rightarrow> string \<Rightarrow> ProtocolError + unit" where
  "validate_required_invalidation_path field value =
    (if value = [] then Err (InvalidEnvelope (field @ '' is required for invalidation kind''))
     else validate_path_value value)"

definition validate_required_non_root_invalidation_path ::
    "string \<Rightarrow> string \<Rightarrow> ProtocolError + unit" where
  "validate_required_non_root_invalidation_path field value =
    try_seq (validate_required_invalidation_path field value)
      (if value = ''/''
       then Err (InvalidEnvelope (field @ '' must not be root for invalidation kind''))
       else Ok ())"

section \<open>Paths as component lists\<close>

definition good_component :: "string \<Rightarrow> bool" where
  "good_component c \<longleftrightarrow>
    c \<noteq> [] \<and> c \<noteq> ''.'' \<and> c \<noteq> ''..'' \<and> CHR ''/'' \<notin> set c \<and> CHR 0x00 \<notin> set c"

definition render_path :: "string list \<Rightarrow> string" where
  "render_path cs = CHR ''/'' # join_char (CHR ''/'') cs"

definition path_components :: "string \<Rightarrow> string list" where
  "path_components p = (if p = ''/'' then [] else drop 1 (split_char (CHR ''/'') p))"

abbreviation valid_path :: "string \<Rightarrow> bool" where
  "valid_path p \<equiv> validate_path_value p = Ok ()"

abbreviation valid_non_root :: "string \<Rightarrow> bool" where
  "valid_non_root p \<equiv> validate_non_root_path_value p = Ok ()"

lemma try_each_check:
  "try_each (\<lambda>c. if Q c then Err e else Ok ()) xs = (if \<exists>x \<in> set xs. Q x then Err e else Ok ())"
  by (induction xs) auto

lemma set_join_char: "set (join_char c ws) \<subseteq> insert c (\<Union> (set ` set ws))"
  by (induction c ws rule: join_char.induct) auto

lemma good_components_split:
  assumes "\<forall>c \<in> set cs. good_component c" "cs \<noteq> []"
  shows "split_char (CHR ''/'') (render_path cs) = [] # cs"
  using assms by (simp add: render_path_def good_component_def split_join_char)

lemma render_path_not_root: "\<forall>c \<in> set cs. good_component c \<Longrightarrow> cs \<noteq> [] \<Longrightarrow> render_path cs \<noteq> ''/''"
  by (cases cs; cases "tl cs") (auto simp: render_path_def good_component_def)

lemma path_components_render:
  assumes "\<forall>c \<in> set cs. good_component c"
  shows "path_components (render_path cs) = cs"
proof (cases "cs = []")
  case True
  then show ?thesis by (simp add: path_components_def render_path_def)
next
  case False
  with assms show ?thesis
    by (simp add: path_components_def good_components_split render_path_not_root)
qed

lemma valid_path_render:
  assumes "\<forall>c \<in> set cs. good_component c"
  shows "valid_path (render_path cs)"
proof (cases "cs = []")
  case True
  then show ?thesis by (simp add: validate_path_value_def render_path_def contains_nul_def)
next
  case False
  have "\<not> contains_nul (render_path cs)"
    using assms set_join_char [of "CHR ''/''" cs]
    by (auto simp: contains_nul_iff render_path_def good_component_def)
  with assms False show ?thesis
    by (simp add: validate_path_value_def good_components_split try_each_eq_Ok_iff
        good_component_def) (simp add: render_path_def)
qed

lemma valid_path_root [simp]: "valid_path ''/''"
  using valid_path_render [of "[]"] by (simp add: render_path_def)

lemma valid_path_components:
  assumes "valid_path p"
  shows "(\<forall>c \<in> set (path_components p). good_component c) \<and> render_path (path_components p) = p"
proof (cases "p = ''/''")
  case True
  then show ?thesis by (simp add: path_components_def render_path_def)
next
  case False
  with assms obtain t where p: "p = CHR ''/'' # t" and nul: "\<not> contains_nul p"
    by (auto simp: validate_path_value_def starts_with_char_iff split: if_splits)
  then have cs: "path_components p = split_char (CHR ''/'') t"
    using False by (simp add: path_components_def)
  have "good_component c" if c: "c \<in> set (split_char (CHR ''/'') t)" for c
  proof -
    have "set c \<subseteq> set t" using c
      by (induction t arbitrary: c) (fastforce split: list.splits if_splits)+
    moreover have "CHR ''/'' \<notin> set c" using c by (rule split_char_pieces)
    moreover have "c \<noteq> [] \<and> c \<noteq> ''.'' \<and> c \<noteq> ''..''"
      using assms c False p
      by (auto simp: validate_path_value_def try_each_eq_Ok_iff split: if_splits)
    ultimately show ?thesis using nul p by (auto simp: good_component_def contains_nul_iff)
  qed
  then show ?thesis using cs p by (simp add: render_path_def join_split_char)
qed

lemma validate_path_value_cases:
  "valid_path p \<or> validate_path_value p = Err (InvalidPath p)"
  by (simp add: validate_path_value_def try_each_check)

text \<open>
  C32: path validation accepts exactly the absolute paths made of components that
  are non-empty, free of slashes and NUL bytes and different from the dot
  entries; every other string is rejected with an error that quotes it.
\<close>

theorem validate_path_value_spec:
  "validate_path_value p =
    (if \<exists>cs. list_all good_component cs \<and> p = render_path cs
     then Ok () else Err (InvalidPath p))"
proof (cases "valid_path p")
  case True
  then have "\<exists>cs. list_all good_component cs \<and> p = render_path cs"
    unfolding list_all_iff using valid_path_components [OF True] by metis
  with True show ?thesis by (simp only: if_True)
next
  case False
  then have no: "\<not> (\<exists>cs. list_all good_component cs \<and> p = render_path cs)"
    unfolding list_all_iff using valid_path_render by blast
  from False have "validate_path_value p = Err (InvalidPath p)"
    using validate_path_value_cases by blast
  with no show ?thesis by (simp only: if_False)
qed

section \<open>Subtrees\<close>

lemma render_path_append:
  "cs \<noteq> [] \<Longrightarrow> ds \<noteq> [] \<Longrightarrow> render_path (cs @ ds) = render_path cs @ render_path ds"
proof (induction cs)
  case (Cons c cs)
  then show ?case by (cases cs) (auto simp: render_path_def join_char_Cons)
qed simp

lemma path_is_in_subtree_iff:
  "path_is_in_subtree p root \<longleftrightarrow> (\<exists>t. p = root @ t \<and> (t = [] \<or> starts_with_char (CHR ''/'') t))"
  by (auto simp: path_is_in_subtree_def str_strip_prefix_iff split: option.splits)

lemma valid_path_inject:
  "valid_path p \<Longrightarrow> valid_path q \<Longrightarrow> path_components p = path_components q \<longleftrightarrow> p = q"
  by (metis valid_path_components)

lemma path_components_Nil: "valid_path p \<Longrightarrow> path_components p = [] \<longleftrightarrow> p = ''/''"
  using valid_path_components [of p] by (auto simp: path_components_def render_path_def)

lemma valid_non_root_iff: "valid_non_root p \<longleftrightarrow> valid_path p \<and> p \<noteq> ''/''"
  by (auto simp: validate_non_root_path_value_def try_seq_eq_Ok_iff split: if_splits)

lemma in_subtree_prefix:
  assumes p: "valid_path p" and r: "valid_non_root r"
  shows "path_is_in_subtree p r \<longleftrightarrow> prefix (path_components r) (path_components p)"
proof
  from r have r': "valid_path r" and nr: "path_components r \<noteq> []"
    by (auto simp: valid_non_root_iff path_components_Nil)
  note cr = valid_path_components [OF r'] and cp = valid_path_components [OF p]
  {
    assume "path_is_in_subtree p r"
    then consider "p = r" | t where "p = r @ CHR ''/'' # t"
      by (auto simp: path_is_in_subtree_iff starts_with_char_iff)
    then show "prefix (path_components r) (path_components p)"
    proof cases
      case 1
      then show ?thesis by simp
    next
      case 2
      have "r \<noteq> []" using r' by (auto simp: validate_path_value_def)
      then have root: "p \<noteq> ''/''" "r \<noteq> ''/''"
        using 2 r by (cases r; auto simp: valid_non_root_iff)+
      have "split_char (CHR ''/'') p
          = split_char (CHR ''/'') r @ split_char (CHR ''/'') t"
        using 2 by (simp add: split_char_append)
      moreover have "split_char (CHR ''/'') r \<noteq> []" by simp
      ultimately show ?thesis using root
        by (cases "split_char (CHR ''/'') r") (auto simp: path_components_def)
    qed
  next
    assume "prefix (path_components r) (path_components p)"
    then obtain ds where ds: "path_components p = path_components r @ ds"
      by (auto simp: prefix_def)
    show "path_is_in_subtree p r"
    proof (cases "ds = []")
      case True
      with ds have "p = r" using p r' by (metis append_Nil2 valid_path_inject)
      then show ?thesis by (simp add: path_is_in_subtree_def)
    next
      case False
      with ds cr cp nr have "p = r @ render_path ds" by (metis render_path_append)
      then show ?thesis by (auto simp: path_is_in_subtree_iff render_path_def)
    qed
  }
qed

text \<open>
  Two paths are accepted as the ends of a rename exactly when both are valid,
  neither is the root, and neither is an ancestor of or equal to the other in
  the tree of components.
\<close>

lemma validate_rename_paths_spec:
  "validate_rename_paths old new = Ok () \<longleftrightarrow>
    valid_path old \<and> valid_path new \<and> old \<noteq> ''/'' \<and> new \<noteq> ''/''
    \<and> path_components old \<parallel> path_components new"
proof (cases "valid_non_root old \<and> valid_non_root new")
  case True
  then show ?thesis
    by (simp add: validate_rename_paths_def in_subtree_prefix valid_non_root_iff
        try_seq_eq_Ok_iff) (auto simp: parallel_def)
next
  case False
  then show ?thesis
    by (auto simp: validate_rename_paths_def try_seq_eq_Ok_iff valid_non_root_iff)
qed

lemma in_subtree_linear:
  assumes p: "valid_path p" and q: "valid_non_root q" and r: "valid_non_root r"
    and "path_is_in_subtree p q" "path_is_in_subtree p r"
  shows "path_is_in_subtree q r \<or> path_is_in_subtree r q"
proof -
  from q r have v: "valid_path q" "valid_path r" by (simp_all add: valid_non_root_iff)
  have "prefix (path_components q) (path_components p)"
    "prefix (path_components r) (path_components p)"
    using assms in_subtree_prefix [OF p q] in_subtree_prefix [OF p r] by auto
  then have "prefix (path_components q) (path_components r)
      \<or> prefix (path_components r) (path_components q)"
    using prefix_same_cases by blast
  then show ?thesis using in_subtree_prefix [OF v(1) r] in_subtree_prefix [OF v(2) q] by auto
qed

lemma rename_paths_ok:
  "validate_rename_paths old new = Ok () \<longleftrightarrow>
    valid_non_root old \<and> valid_non_root new
    \<and> \<not> path_is_in_subtree old new \<and> \<not> path_is_in_subtree new old"
  by (auto simp: validate_rename_paths_def try_seq_eq_Ok_iff)

lemma rename_paths_validD:
  assumes "validate_rename_paths old new = Ok ()"
  shows "valid_non_root old" "valid_non_root new"
    "\<not> path_is_in_subtree old new" "\<not> path_is_in_subtree new old"
  using assms by (auto simp: rename_paths_ok)

lemma rename_subtrees_disjoint:
  assumes "validate_rename_paths old new = Ok ()" "valid_path p"
  shows "\<not> (path_is_in_subtree p old \<and> path_is_in_subtree p new)"
  using in_subtree_linear [OF assms(2) rename_paths_validD(1,2) [OF assms(1)]]
    rename_paths_validD(3,4) [OF assms(1)] by blast

text \<open>
  The subtree test is a partial order on valid non-root paths: the laws that
  callers rely on when they move or drop everything below a path.
\<close>

locale subtree_order =
  fixes dom :: "'p \<Rightarrow> bool"
    and below :: "'p \<Rightarrow> 'p \<Rightarrow> bool"
  assumes below_refl: "below p p"
    and below_trans: "below p q \<Longrightarrow> below q r \<Longrightarrow> below p r"
    and below_linear: "dom p \<Longrightarrow> dom q \<Longrightarrow> dom r \<Longrightarrow> below p q \<Longrightarrow> below p r \<Longrightarrow> below q r \<or> below r q"
begin

lemma unrelated_disjoint:
  "dom p \<Longrightarrow> dom q \<Longrightarrow> dom r \<Longrightarrow> \<not> below q r \<Longrightarrow> \<not> below r q \<Longrightarrow> \<not> (below p q \<and> below p r)"
  using below_linear by blast

lemma outside_closed: "\<not> below p r \<Longrightarrow> below p q \<Longrightarrow> \<not> below q r"
  using below_trans by blast

end

lemma path_is_in_subtree_refl [simp]: "path_is_in_subtree p p"
  by (simp add: path_is_in_subtree_def)

lemma path_is_in_subtree_trans:
  "path_is_in_subtree p q \<Longrightarrow> path_is_in_subtree q r \<Longrightarrow> path_is_in_subtree p r"
  by (auto simp: path_is_in_subtree_iff starts_with_char_iff)

interpretation path_order: subtree_order valid_non_root path_is_in_subtree
proof
  show "path_is_in_subtree q r \<or> path_is_in_subtree r q"
    if "valid_non_root p" "valid_non_root q" "valid_non_root r"
      "path_is_in_subtree p q" "path_is_in_subtree p r" for p q r
    using that in_subtree_linear valid_non_root_iff by blast
qed (auto intro: path_is_in_subtree_trans)

end
