(* ===== verification/FsValidation.thy ===== *)
theory FsValidation
  imports FsPath
begin

text \<open>
  The checks on message contents: \<open>fs-protocol/src/validation.rs\<close>,
  \<open>invalidation.rs\<close>, and the validation methods of \<open>payload.rs\<close>. Each check is a
  function to a protocol error or unit with the order of tests of the source.
  The lemmas show which paths an accepted request has, that the checks enforce
  the path roles of the operation table, and what the response limits bound.
\<close>

section \<open>Field checks\<close>

definition validate_xattr_name :: "string \<Rightarrow> ProtocolError + unit" where
  "validate_xattr_name value =
    (if value = [] \<or> contains_nul value then Err (InvalidEnvelope ''invalid xattr name'')
     else Ok ())"

definition validate_symlink_target :: "bytes \<Rightarrow> ProtocolError + unit" where
  "validate_symlink_target value =
    (if value = [] \<or> list_ex (\<lambda>b. b = 0) value
     then Err (InvalidEnvelope ''invalid symlink target'') else Ok ())"

definition parse_file_kind :: "i32 \<Rightarrow> ProtocolError + FileKind" where
  "parse_file_kind value =
    (case file_kind_try_from value of
       Some Kind_Unknown \<Rightarrow> Err (InvalidEnvelope ''file kind must not be unknown'')
     | Some kind \<Rightarrow> Ok kind
     | None \<Rightarrow> Err (UnknownFileKind value))"

definition parse_open_kind :: "i32 \<Rightarrow> ProtocolError + OpenKind" where
  "parse_open_kind value =
    (case open_kind_try_from value of
       Some Open_Unspecified \<Rightarrow> Err (InvalidEnvelope ''open kind must not be unspecified'')
     | Some kind \<Rightarrow> Ok kind
     | None \<Rightarrow> Err (UnknownOpenKind value))"

definition validate_file_kind :: "i32 \<Rightarrow> ProtocolError + unit" where
  "validate_file_kind value = map_ok (\<lambda>_. ()) (parse_file_kind value)"

definition validate_open_request :: "OpenRequest \<Rightarrow> ProtocolError + unit" where
  "validate_open_request value =
    try_seq (validate_path_field (open_path value))
      (map_ok (\<lambda>_. ()) (parse_open_kind (open_kind value)))"

definition validate_hardlink_request :: "HardlinkRequest \<Rightarrow> ProtocolError + unit" where
  "validate_hardlink_request value =
    try_bind (required_path_value (hardlink_existing_path value)) (\<lambda>existing.
    try_bind (required_path_value (hardlink_new_path value)) (\<lambda>new.
    try_seq (validate_non_root_path_value (dto_path existing))
    (try_seq (validate_non_root_path_value (dto_path new))
      (if dto_path existing = dto_path new
       then Err (InvalidEnvelope ''hardlink paths must be distinct'') else Ok ()))))"

definition validate_setattr_request :: "SetattrRequest \<Rightarrow> ProtocolError + unit" where
  "validate_setattr_request value =
    try_seq (validate_path_field (setattr_path value))
      (if setattr_mode value = None \<and> setattr_uid value = None \<and> setattr_gid value = None
          \<and> setattr_size value = None
       then Err (InvalidEnvelope ''setattr must request at least one attribute change'')
       else if (case setattr_mode value of None \<Rightarrow> False | Some mode \<Rightarrow> mode > 4095)
       then Err (InvalidEnvelope ''setattr mode exceeds permission bits'')
       else Ok ())"

definition validate_lock_range :: "u64 \<Rightarrow> u64 \<Rightarrow> ProtocolError + unit" where
  "validate_lock_range start end =
    (if start > end
     then Err (InvalidEnvelope ''lock start must be less than or equal to end'') else Ok ())"

definition libc_f_rdlck :: i32 where "libc_f_rdlck = 0"
definition libc_f_wrlck :: i32 where "libc_f_wrlck = 1"
definition libc_f_unlck :: i32 where "libc_f_unlck = 2"

definition validate_lock_type :: "i32 \<Rightarrow> bool \<Rightarrow> ProtocolError + unit" where
  "validate_lock_type value allow_unlock =
    (if value = libc_f_rdlck \<or> value = libc_f_wrlck \<or> (allow_unlock \<and> value = libc_f_unlck)
     then Ok () else Err (InvalidEnvelope ''invalid lock type''))"

definition validate_flock_operation :: "i32 \<Rightarrow> ProtocolError + unit" where
  "validate_flock_operation value =
    (let command = value AND NOT LOCK_NONBLOCK;
         valid = command = LOCK_SHARED \<or> command = LOCK_EXCLUSIVE \<or> command = LOCK_UNLOCK
     in if valid
           \<and> value AND NOT (LOCK_SHARED OR LOCK_EXCLUSIVE OR LOCK_NONBLOCK OR LOCK_UNLOCK) = 0
        then Ok () else Err (InvalidEnvelope ''invalid flock operation''))"

definition validate_file_lock :: "FileLock \<Rightarrow> ProtocolError + unit" where
  "validate_file_lock value =
    try_seq (validate_lock_range (lock_start value) (lock_end value))
      (validate_lock_type (lock_typ value) False)"

definition validate_copy_file_range_request ::
    "CopyFileRangeRequest \<Rightarrow> ProtocolError + unit" where
  "validate_copy_file_range_request value =
    try_seq (validate_path_field (copyfilerange_input_path value))
    (try_seq (validate_path_field (copyfilerange_output_path value))
      (if copyfilerange_input_offset value < 0 \<or> copyfilerange_output_offset value < 0
       then Err (InvalidEnvelope ''copy_file_range offsets must be non-negative'')
       else if copyfilerange_flags value \<noteq> 0
       then Err (InvalidEnvelope ''copy_file_range flags must be zero'')
       else Ok ()))"

definition validate_fallocate_request :: "FallocateRequest \<Rightarrow> ProtocolError + unit" where
  "validate_fallocate_request value =
    try_seq (validate_path_field (fallocate_path value))
      (if fallocate_offset value < 0 \<or> fallocate_length value \<le> 0 \<or> fallocate_mode value < 0
       then Err (InvalidEnvelope ''fallocate offset, length, and mode are invalid'')
       else Ok ())"

definition validate_lseek_request :: "LseekRequest \<Rightarrow> ProtocolError + unit" where
  "validate_lseek_request value =
    try_seq (validate_path_field (lseek_path value))
      (if lseek_whence value \<in> {SEEK_SET, SEEK_DATA, SEEK_HOLE} \<and> lseek_offset value < 0
       then Err (InvalidEnvelope ''lseek offset must be non-negative'')
       else if lseek_whence value \<in> {SEEK_SET, SEEK_CUR, SEEK_END, SEEK_DATA, SEEK_HOLE}
       then Ok ()
       else Err (InvalidEnvelope ''invalid lseek whence''))"

definition validate_attr_field_kind ::
    "FileAttr option \<Rightarrow> FileKind option \<Rightarrow> ProtocolError + unit" where
  "validate_attr_field_kind value expected =
    try_bind (ok_or (InvalidEnvelope ''missing file attr'') value) (\<lambda>value.
      if attr_inode value = 0 then Err (InvalidEnvelope ''inode must be nonzero'')
      else try_bind (parse_file_kind (attr_kind value)) (\<lambda>kind.
        case expected of
          Some expected \<Rightarrow>
            if kind \<noteq> expected
            then Err (InvalidEnvelope ''file attr kind does not match operation'') else Ok ()
        | None \<Rightarrow> Ok ()))"

definition validate_attr_field :: "FileAttr option \<Rightarrow> ProtocolError + unit" where
  "validate_attr_field value = validate_attr_field_kind value None"

definition validate_non_directory_attr :: "FileAttr option \<Rightarrow> ProtocolError + unit" where
  "validate_non_directory_attr value =
    try_bind (ok_or (InvalidEnvelope ''missing file attr'') value) (\<lambda>value.
      if attr_inode value = 0 then Err (InvalidEnvelope ''inode must be nonzero'')
      else try_bind (parse_file_kind (attr_kind value)) (\<lambda>kind.
        if kind = Kind_Directory
        then Err (InvalidEnvelope ''hardlink attr kind must not be directory'') else Ok ()))"

definition validate_directory_entry :: "DirectoryEntry \<Rightarrow> ProtocolError + unit" where
  "validate_directory_entry value =
    (if dirent_inode value = 0 \<or> dirent_name value = [] \<or> dirent_name value = ''.''
        \<or> dirent_name value = ''..'' \<or> CHR ''/'' \<in> set (dirent_name value)
        \<or> contains_nul (dirent_name value)
     then Err (InvalidEnvelope ''invalid directory entry'')
     else try_seq (validate_file_kind (dirent_kind value)) (Ok ()))"

definition listxattr_response_size :: "string list \<Rightarrow> nat" where
  "listxattr_response_size names = sum_list (map (\<lambda>name. length name + 1) names)"

section \<open>Invalidations\<close>

datatype InvalidationKind =
  Inv_Create | Inv_Modify | Inv_Delete | Inv_Rename | Inv_Metadata | Inv_Xattr | Inv_FullResync

fun invalidation_wire_value :: "InvalidationKind \<Rightarrow> i32" where
  "invalidation_wire_value Inv_Create = 1"
| "invalidation_wire_value Inv_Modify = 2"
| "invalidation_wire_value Inv_Delete = 3"
| "invalidation_wire_value Inv_Rename = 4"
| "invalidation_wire_value Inv_Metadata = 5"
| "invalidation_wire_value Inv_Xattr = 6"
| "invalidation_wire_value Inv_FullResync = 7"

definition invalidation_kind_try_from :: "i32 \<Rightarrow> ProtocolError + InvalidationKind" where
  "invalidation_kind_try_from value =
    (if value = 1 then Ok Inv_Create
     else if value = 2 then Ok Inv_Modify
     else if value = 3 then Ok Inv_Delete
     else if value = 4 then Ok Inv_Rename
     else if value = 5 then Ok Inv_Metadata
     else if value = 6 then Ok Inv_Xattr
     else if value = 7 then Ok Inv_FullResync
     else Err (UnknownInvalidationKind value))"

definition validate_invalidation :: "Invalidation \<Rightarrow> ProtocolError + unit" where
  "validate_invalidation value =
    (if inv_namespace value = []
     then Err (InvalidEnvelope ''invalidation namespace must not be empty'')
     else try_bind (invalidation_kind_try_from (inv_kind value)) (\<lambda>kind.
       try_seq
        (case kind of
           Inv_Create \<Rightarrow> validate_required_non_root_invalidation_path ''path'' (inv_path value)
         | Inv_Delete \<Rightarrow> validate_required_non_root_invalidation_path ''path'' (inv_path value)
         | Inv_Modify \<Rightarrow> validate_required_invalidation_path ''path'' (inv_path value)
         | Inv_Metadata \<Rightarrow> validate_required_invalidation_path ''path'' (inv_path value)
         | Inv_Xattr \<Rightarrow> validate_required_invalidation_path ''path'' (inv_path value)
         | Inv_Rename \<Rightarrow>
             try_seq (validate_required_non_root_invalidation_path ''old_path'' (inv_old_path value))
             (try_seq (validate_required_non_root_invalidation_path ''new_path'' (inv_new_path value))
               (validate_rename_paths (inv_old_path value) (inv_new_path value)))
         | Inv_FullResync \<Rightarrow> Ok ())
       (try_seq (if inv_path value \<noteq> [] then validate_path_value (inv_path value) else Ok ())
       (try_seq (if inv_old_path value \<noteq> [] then validate_path_value (inv_old_path value) else Ok ())
       (try_seq (if inv_new_path value \<noteq> [] then validate_path_value (inv_new_path value) else Ok ())
        (Ok ()))))))"

section \<open>Payloads\<close>

fun validate_request_payload :: "RequestPayload \<Rightarrow> ProtocolError + unit" where
  "validate_request_payload (Req_Lookup v) = validate_path_field (lookup_path v)"
| "validate_request_payload (Req_Getattr v) = validate_path_field (getattr_path v)"
| "validate_request_payload (Req_Readdir v) = validate_path_field (readdir_path v)"
| "validate_request_payload (Req_Open v) = validate_open_request v"
| "validate_request_payload (Req_Read v) = validate_path_field (read_path v)"
| "validate_request_payload (Req_Write v) = validate_path_field (write_path v)"
| "validate_request_payload (Req_Create v) = validate_non_root_path_field (create_path v)"
| "validate_request_payload (Req_Rename v) =
     try_bind (required_path_value (rename_old_path v)) (\<lambda>old.
     try_bind (required_path_value (rename_new_path v)) (\<lambda>new.
       validate_rename_paths (dto_path old) (dto_path new)))"
| "validate_request_payload (Req_Unlink v) = validate_non_root_path_field (unlink_path v)"
| "validate_request_payload (Req_Mkdir v) = validate_non_root_path_field (mkdir_path v)"
| "validate_request_payload (Req_Rmdir v) = validate_non_root_path_field (rmdir_path v)"
| "validate_request_payload (Req_Statfs v) = validate_path_field (statfs_path v)"
| "validate_request_payload (Req_Getxattr v) =
     try_seq (validate_path_field (getxattr_path v)) (validate_xattr_name (getxattr_name v))"
| "validate_request_payload (Req_Setxattr v) =
     try_seq (validate_path_field (setxattr_path v)) (validate_xattr_name (setxattr_name v))"
| "validate_request_payload (Req_Listxattr v) = validate_path_field (listxattr_path v)"
| "validate_request_payload (Req_Removexattr v) =
     try_seq (validate_path_field (removexattr_path v)) (validate_xattr_name (removexattr_name v))"
| "validate_request_payload (Req_Release v) = validate_path_field (release_path v)"
| "validate_request_payload (Req_Readlink v) = validate_path_field (readlink_path v)"
| "validate_request_payload (Req_Symlink v) =
     try_seq (validate_non_root_path_field (symlink_path v)) (validate_symlink_target (symlink_target v))"
| "validate_request_payload (Req_Hardlink v) = validate_hardlink_request v"
| "validate_request_payload (Req_Setattr v) = validate_setattr_request v"
| "validate_request_payload (Req_Flush v) = validate_path_field (flush_path v)"
| "validate_request_payload (Req_Fsync v) = validate_path_field (fsync_path v)"
| "validate_request_payload (Req_Fsyncdir v) = validate_path_field (fsyncdir_path v)"
| "validate_request_payload (Req_Getlk v) =
     try_seq (validate_path_field (getlk_path v))
     (try_seq (validate_lock_range (getlk_start v) (getlk_end v))
       (validate_lock_type (getlk_typ v) False))"
| "validate_request_payload (Req_Setlk v) =
     try_seq (validate_path_field (setlk_path v))
     (try_seq (validate_lock_range (setlk_start v) (setlk_end v))
       (validate_lock_type (setlk_typ v) True))"
| "validate_request_payload (Req_Flock v) =
     try_seq (validate_path_field (flock_path v)) (validate_flock_operation (flock_operation v))"
| "validate_request_payload (Req_CopyFileRange v) = validate_copy_file_range_request v"
| "validate_request_payload (Req_Fallocate v) = validate_fallocate_request v"
| "validate_request_payload (Req_Lseek v) = validate_lseek_request v"

fun validate_response_payload :: "ResponsePayload \<Rightarrow> ProtocolError + unit" where
  "validate_response_payload (Resp_Lookup v) = validate_attr_field (lookup_resp_attr v)"
| "validate_response_payload (Resp_Getattr v) = validate_attr_field (getattr_resp_attr v)"
| "validate_response_payload (Resp_Readdir v) =
     try_seq (try_each validate_directory_entry (readdir_resp_entries v)) (Ok ())"
| "validate_response_payload (Resp_Create v) =
     validate_attr_field_kind (create_resp_attr v) (Some Kind_File)"
| "validate_response_payload (Resp_Mkdir v) =
     validate_attr_field_kind (lookup_resp_attr v) (Some Kind_Directory)"
| "validate_response_payload (Resp_Statfs v) =
     (if statfs_resp_stat v \<noteq> None then Ok ()
      else Err (InvalidEnvelope ''missing statfs payload''))"
| "validate_response_payload (Resp_Listxattr v) =
     try_seq (try_each validate_xattr_name (listxattr_resp_names v)) (Ok ())"
| "validate_response_payload (Resp_Readlink v) = validate_symlink_target (readlink_resp_target v)"
| "validate_response_payload (Resp_Symlink v) =
     validate_attr_field_kind (symlink_resp_attr v) (Some Kind_Symlink)"
| "validate_response_payload (Resp_Hardlink v) = validate_non_directory_attr (hardlink_resp_attr v)"
| "validate_response_payload (Resp_Setattr v) = validate_attr_field (setattr_resp_attr v)"
| "validate_response_payload (Resp_Getlk v) =
     (case getlk_resp_lock v of
        Some lock \<Rightarrow> try_seq (validate_file_lock lock) (Ok ())
      | None \<Rightarrow> Ok ())"
| "validate_response_payload (Resp_Lseek v) =
     (if lseek_resp_offset v < 0
      then Err (InvalidResponseState ''lseek response offset must be non-negative'')
      else Ok ())"
| "validate_response_payload (Resp_Open _) = Ok ()"
| "validate_response_payload (Resp_Read _) = Ok ()"
| "validate_response_payload (Resp_Write _) = Ok ()"
| "validate_response_payload (Resp_Rename _) = Ok ()"
| "validate_response_payload (Resp_Unlink _) = Ok ()"
| "validate_response_payload (Resp_Rmdir _) = Ok ()"
| "validate_response_payload (Resp_Getxattr _) = Ok ()"
| "validate_response_payload (Resp_Setxattr _) = Ok ()"
| "validate_response_payload (Resp_Removexattr _) = Ok ()"
| "validate_response_payload (Resp_Release _) = Ok ()"
| "validate_response_payload (Resp_Flush _) = Ok ()"
| "validate_response_payload (Resp_Fsync _) = Ok ()"
| "validate_response_payload (Resp_Fsyncdir _) = Ok ()"
| "validate_response_payload (Resp_Setlk _) = Ok ()"
| "validate_response_payload (Resp_Flock _) = Ok ()"
| "validate_response_payload (Resp_CopyFileRange _) = Ok ()"
| "validate_response_payload (Resp_Fallocate _) = Ok ()"

text \<open>The per-limit part of \<open>ResponsePayload::validate_for_request\<close>.\<close>

definition check_response_limit ::
    "ResponseLimit \<Rightarrow> RequestPayload \<Rightarrow> ResponsePayload \<Rightarrow> ProtocolError + unit" where
  "check_response_limit limit request response =
    (case limit of
       Limit_None \<Rightarrow> Ok ()
     | Limit_RequestedDirectoryEntries \<Rightarrow> (case (request, response) of
         (Req_Readdir q, Resp_Readdir r) \<Rightarrow>
           if length (readdir_resp_entries r) > unat (readdir_max_entries q)
           then Err (InvalidResponseState ''readdir response exceeded requested max_entries'')
           else Ok ()
       | _ \<Rightarrow> Ok ())
     | Limit_RequestedReadBytes \<Rightarrow> (case (request, response) of
         (Req_Read q, Resp_Read r) \<Rightarrow>
           if length (read_resp_data r) > unat (read_size q)
           then Err (InvalidResponseState ''read response exceeded requested size'')
           else Ok ()
       | _ \<Rightarrow> Ok ())
     | Limit_RequestWriteBytes \<Rightarrow> (case (request, response) of
         (Req_Write q, Resp_Write r) \<Rightarrow>
           if unat (write_resp_bytes_written r) > length (write_data q)
           then Err (InvalidResponseState ''write response exceeded request data length'')
           else Ok ()
       | _ \<Rightarrow> Ok ())
     | Limit_RequestedXattrBytes \<Rightarrow> (case (request, response) of
         (Req_Getxattr q, Resp_Getxattr r) \<Rightarrow>
           if getxattr_size q \<noteq> 0 \<and> length (getxattr_resp_value r) > unat (getxattr_size q)
           then Err (InvalidResponseState ''getxattr response exceeded requested size'')
           else Ok ()
       | _ \<Rightarrow> Ok ())
     | Limit_RequestedListxattrBytes \<Rightarrow> (case (request, response) of
         (Req_Listxattr q, Resp_Listxattr r) \<Rightarrow>
           if listxattr_size q \<noteq> 0
              \<and> listxattr_response_size (listxattr_resp_names r) > unat (listxattr_size q)
           then Err (InvalidResponseState ''listxattr response exceeded requested size'')
           else Ok ()
       | _ \<Rightarrow> Ok ())
     | Limit_RequestedCopyLength \<Rightarrow> (case (request, response) of
         (Req_CopyFileRange q, Resp_CopyFileRange r) \<Rightarrow>
           if copyfilerange_resp_bytes_copied r > copyfilerange_length q
           then Err (InvalidResponseState ''copy_file_range response exceeded requested length'')
           else Ok ()
       | _ \<Rightarrow> Ok ()))"

definition validate_response_for_request ::
    "ResponsePayload \<Rightarrow> RequestPayload \<Rightarrow> ProtocolError + unit" where
  "validate_response_for_request response request =
    (if response_operation response \<noteq> request_operation request
     then Err (PayloadMismatch (request_operation request) (response_operation response))
     else try_seq (validate_response_payload response)
       (check_response_limit (os_response_limit (spec_for (request_operation request)))
         request response))"

section \<open>Accepted requests\<close>

lemma path_field_ok: "validate_path_field v = Ok () \<longleftrightarrow> (\<exists>d. v = Some d \<and> valid_path (dto_path d))"
  by (auto simp: validate_path_field_def ok_iffs)

lemma non_root_path_field_ok:
  "validate_non_root_path_field v = Ok () \<longleftrightarrow> (\<exists>d. v = Some d \<and> valid_non_root (dto_path d))"
  by (auto simp: validate_non_root_path_field_def required_path_value_def ok_iffs)

lemma open_request_path: "validate_open_request v = Ok () \<Longrightarrow> validate_path_field (open_path v) = Ok ()"
  by (simp add: validate_open_request_def ok_iffs)

lemma hardlink_request_ok:
  "validate_hardlink_request v = Ok () \<longleftrightarrow>
    (\<exists>e n. hardlink_existing_path v = Some e \<and> hardlink_new_path v = Some n
      \<and> valid_non_root (dto_path e) \<and> valid_non_root (dto_path n) \<and> dto_path e \<noteq> dto_path n)"
  by (auto simp: validate_hardlink_request_def required_path_value_def ok_iffs split: if_splits)

lemma setattr_request_path:
  "validate_setattr_request v = Ok () \<Longrightarrow> validate_path_field (setattr_path v) = Ok ()"
  by (simp add: validate_setattr_request_def ok_iffs)

lemma copy_file_range_request_paths:
  "validate_copy_file_range_request v = Ok () \<Longrightarrow>
    validate_path_field (copyfilerange_input_path v) = Ok ()
    \<and> validate_path_field (copyfilerange_output_path v) = Ok ()"
  by (simp add: validate_copy_file_range_request_def ok_iffs)

lemma fallocate_request_path:
  "validate_fallocate_request v = Ok () \<Longrightarrow> validate_path_field (fallocate_path v) = Ok ()"
  by (simp add: validate_fallocate_request_def ok_iffs)

lemma lseek_request_path:
  "validate_lseek_request v = Ok () \<Longrightarrow> validate_path_field (lseek_path v) = Ok ()"
  by (simp add: validate_lseek_request_def ok_iffs)

lemmas request_path_facts = open_request_path setattr_request_path copy_file_range_request_paths
  fallocate_request_path lseek_request_path

lemmas path_role_defs = TARGET_ANY_def TARGET_NON_ROOT_def RENAME_PATHS_def HARDLINK_PATHS_def
  COPY_FILE_RANGE_PATHS_def PathRoleSpec_new_def

definition role_path_ok :: "RequestPayload \<Rightarrow> PathRoleSpec \<Rightarrow> bool" where
  "role_path_ok p s \<longleftrightarrow>
    (case path_for_role p (prs_role s) of
       None \<Rightarrow> False
     | Some q \<Rightarrow> valid_path q \<and> (prs_root s = Root_NonRoot \<longrightarrow> q \<noteq> ''/''))"

lemma path_dto_only_for_roles:
  "role \<notin> prs_role ` set (os_path_roles (spec_for (request_operation p))) \<Longrightarrow>
    path_dto_for_role p role = None"
  by (cases p; cases role) (simp_all add: path_role_defs)

text \<open>
  An accepted request carries, for every path role the operation table lists
  for it, a path that is valid and not the root where the table forbids the
  root; for a role the table does not list it carries no path.
\<close>

lemma validated_request_paths:
  assumes "validate_request_payload p = Ok ()"
  shows "(\<forall>s \<in> set (os_path_roles (spec_for (request_operation p))). role_path_ok p s)
    \<and> (\<forall>role. role \<notin> prs_role ` set (os_path_roles (spec_for (request_operation p)))
        \<longrightarrow> path_for_role p role = None)"
proof
  show "\<forall>s \<in> set (os_path_roles (spec_for (request_operation p))). role_path_ok p s"
    using assms
    by (cases p)
      (auto simp: role_path_ok_def path_for_role_def path_role_defs path_field_ok
        non_root_path_field_ok valid_non_root_iff hardlink_request_ok ok_iffs
        required_path_value_def rename_paths_ok dest!: request_path_facts)
  show "\<forall>role. role \<notin> prs_role ` set (os_path_roles (spec_for (request_operation p)))
        \<longrightarrow> path_for_role p role = None"
    using path_dto_only_for_roles by (simp add: path_for_role_def)
qed

lemma validated_request_paths_witness:
  "role_path_ok (Req_Rename \<lparr>rename_old_path = Some \<lparr>dto_path = ''/a''\<rparr>,
      rename_new_path = Some \<lparr>dto_path = ''/b''\<rparr>\<rparr>)
    (PathRoleSpec_new Role_Source ''old_path'' Root_NonRoot)"
proof -
  have "validate_request_payload (Req_Rename \<lparr>rename_old_path = Some \<lparr>dto_path = ''/a''\<rparr>,
      rename_new_path = Some \<lparr>dto_path = ''/b''\<rparr>\<rparr>) = Ok ()"
    by code_simp
  from validated_request_paths [OF this] show ?thesis by (simp add: RENAME_PATHS_def)
qed

section \<open>Response limits\<close>

text \<open>
  What a response delivers, and the most its request allows, in the unit of the
  operation: entries, bytes, or nothing that is counted.
\<close>

fun response_amount :: "ResponsePayload \<Rightarrow> nat" where
  "response_amount (Resp_Readdir r) = length (readdir_resp_entries r)"
| "response_amount (Resp_Read r) = length (read_resp_data r)"
| "response_amount (Resp_Write r) = unat (write_resp_bytes_written r)"
| "response_amount (Resp_Getxattr r) = length (getxattr_resp_value r)"
| "response_amount (Resp_Listxattr r) = listxattr_response_size (listxattr_resp_names r)"
| "response_amount (Resp_CopyFileRange r) = unat (copyfilerange_resp_bytes_copied r)"
| "response_amount _ = 0"

fun requested_amount :: "RequestPayload \<Rightarrow> nat option" where
  "requested_amount (Req_Readdir q) = Some (unat (readdir_max_entries q))"
| "requested_amount (Req_Read q) = Some (unat (read_size q))"
| "requested_amount (Req_Write q) = Some (length (write_data q))"
| "requested_amount (Req_Getxattr q) =
     (if getxattr_size q = 0 then None else Some (unat (getxattr_size q)))"
| "requested_amount (Req_Listxattr q) =
     (if listxattr_size q = 0 then None else Some (unat (listxattr_size q)))"
| "requested_amount (Req_CopyFileRange q) = Some (unat (copyfilerange_length q))"
| "requested_amount _ = None"

lemma response_limit_ok:
  "response_operation response = request_operation request \<Longrightarrow>
    check_response_limit (os_response_limit (spec_for (request_operation request))) request response
      = Ok () \<longleftrightarrow>
    (case requested_amount request of None \<Rightarrow> True | Some m \<Rightarrow> response_amount response \<le> m)"
  by (cases request; cases response) (simp_all add: check_response_limit_def word_less_nat_alt not_less)

text \<open>
  A response is accepted for a request exactly when it answers the same
  operation, its own fields are valid, and it delivers no more than the request
  asked for.
\<close>

lemma validate_response_for_request_spec:
  "validate_response_for_request response request = Ok () \<longleftrightarrow>
    response_operation response = request_operation request
    \<and> validate_response_payload response = Ok ()
    \<and> (case requested_amount request of None \<Rightarrow> True | Some m \<Rightarrow> response_amount response \<le> m)"
  by (auto simp: validate_response_for_request_def try_seq_eq_Ok_iff response_limit_ok)

section \<open>What a valid invalidation names\<close>

lemma invalidation_kind_iff:
  "invalidation_kind_try_from value = Ok kind \<longleftrightarrow> value = invalidation_wire_value kind"
  by (cases kind) (auto simp: invalidation_kind_try_from_def)

lemma invalidation_wire_value_inject [simp]:
  "invalidation_wire_value j = invalidation_wire_value k \<longleftrightarrow> j = k"
  by (metis Inr_inject invalidation_kind_iff)

lemma required_invalidation_path_ok:
  "validate_required_invalidation_path f p = Ok () \<longleftrightarrow> valid_path p"
  by (auto simp: validate_required_invalidation_path_def validate_path_value_def)

lemma required_non_root_invalidation_path_ok:
  "validate_required_non_root_invalidation_path f p = Ok () \<longleftrightarrow> valid_non_root p"
  by (auto simp: validate_required_non_root_invalidation_path_def required_invalidation_path_ok
      valid_non_root_iff try_seq_eq_Ok_iff)

definition invalidation_paths_ok :: "InvalidationKind \<Rightarrow> Invalidation \<Rightarrow> bool" where
  "invalidation_paths_ok kind v =
    (case kind of
       Inv_Create \<Rightarrow> valid_non_root (inv_path v)
     | Inv_Delete \<Rightarrow> valid_non_root (inv_path v)
     | Inv_Modify \<Rightarrow> valid_path (inv_path v)
     | Inv_Metadata \<Rightarrow> valid_path (inv_path v)
     | Inv_Xattr \<Rightarrow> valid_path (inv_path v)
     | Inv_Rename \<Rightarrow> validate_rename_paths (inv_old_path v) (inv_new_path v) = Ok ()
     | Inv_FullResync \<Rightarrow> True)"

lemma optional_path_ok:
  "(if p \<noteq> [] then validate_path_value p else Ok ()) = Ok () \<longleftrightarrow> p = [] \<or> valid_path p"
  by simp

lemma validate_invalidation_kind:
  assumes "inv_kind v = invalidation_wire_value kind"
  shows "validate_invalidation v = Ok () \<longleftrightarrow>
    inv_namespace v \<noteq> [] \<and> invalidation_paths_ok kind v
    \<and> (inv_path v = [] \<or> valid_path (inv_path v))
    \<and> (inv_old_path v = [] \<or> valid_path (inv_old_path v))
    \<and> (inv_new_path v = [] \<or> valid_path (inv_new_path v))"
proof (cases "inv_namespace v = []")
  case True
  then show ?thesis by (simp add: validate_invalidation_def)
next
  case False
  have "invalidation_kind_try_from (inv_kind v) = Ok kind"
    using assms by (simp add: invalidation_kind_iff)
  with False show ?thesis
    by (cases kind)
      (simp_all only: validate_invalidation_def try_bind_Ok try_seq_eq_Ok_iff optional_path_ok
        invalidation_paths_ok_def required_invalidation_path_ok
        required_non_root_invalidation_path_ok rename_paths_ok InvalidationKind.case
        if_False not_False_eq_True simp_thms conj_absorb conj_left_absorb conj_ac cong: if_cong)
qed

text \<open>
  An invalidation is accepted exactly when it names a namespace, has a known
  kind with the paths that kind needs, and every other path it carries is valid.
\<close>

lemma validate_invalidation_spec:
  "validate_invalidation v = Ok () \<longleftrightarrow>
    inv_namespace v \<noteq> []
    \<and> (\<exists>kind. inv_kind v = invalidation_wire_value kind \<and> invalidation_paths_ok kind v)
    \<and> (inv_path v = [] \<or> valid_path (inv_path v))
    \<and> (inv_old_path v = [] \<or> valid_path (inv_old_path v))
    \<and> (inv_new_path v = [] \<or> valid_path (inv_new_path v))"
proof (cases "\<exists>kind. inv_kind v = invalidation_wire_value kind")
  case True
  then obtain kind where k: "inv_kind v = invalidation_wire_value kind" by blast
  then have "(\<exists>j. inv_kind v = invalidation_wire_value j \<and> invalidation_paths_ok j v)
      \<longleftrightarrow> invalidation_paths_ok kind v" by auto
  then show ?thesis by (simp only: validate_invalidation_kind [OF k])
next
  case False
  then obtain e where "invalidation_kind_try_from (inv_kind v) = Err e"
    using invalidation_kind_iff by (cases "invalidation_kind_try_from (inv_kind v)") blast+
  then have "validate_invalidation v \<noteq> Ok ()" by (simp add: validate_invalidation_def)
  with False show ?thesis by blast
qed

end
