(* ===== verification/FsEnvelope.thy ===== *)
theory FsEnvelope
  imports FsValidation
begin

text \<open>
  Request and response envelopes, \<open>fs-protocol/src/envelope.rs\<close>: construction and
  validation. The lemmas show that failure responses are always well formed and
  that a success response is built exactly for a valid request, a payload that
  answers it, and valid invalidations.
\<close>

section \<open>Requests\<close>

definition MALFORMED_REQUEST_ID :: string where "MALFORMED_REQUEST_ID = ''malformed-request''"
definition MALFORMED_NAMESPACE :: string where "MALFORMED_NAMESPACE = ''malformed-namespace''"

record RequestEnvelope =
  req_protocol_version :: u32
  req_request_id :: string
  req_operation :: Operation
  req_namespace :: string
  req_deadline_unix_nanos :: u64
  req_trace :: TraceContext
  req_caller :: "CallerContext option"
  req_payload :: RequestPayload
  req_observations :: "Observation list"

definition validate_identity :: "RequestEnvelope \<Rightarrow> ProtocolError + unit" where
  "validate_identity env =
    (if req_protocol_version env \<noteq> PROTOCOL_VERSION
     then Err (UnsupportedVersion (req_protocol_version env))
     else if req_request_id env = []
     then Err (InvalidEnvelope ''request_id must not be empty'')
     else if req_namespace env = []
     then Err (InvalidEnvelope ''namespace must not be empty'')
     else if req_operation env \<noteq> request_operation (req_payload env)
     then Err (PayloadMismatch (req_operation env) (request_operation (req_payload env)))
     else Ok ())"

definition validate_request :: "RequestEnvelope \<Rightarrow> ProtocolError + unit" where
  "validate_request env =
    try_seq (validate_identity env) (validate_request_payload (req_payload env))"

definition RequestEnvelope_new ::
    "string \<Rightarrow> string \<Rightarrow> u64 \<Rightarrow> TraceContext \<Rightarrow> RequestPayload
      \<Rightarrow> ProtocolError + RequestEnvelope" where
  "RequestEnvelope_new request_id namespace deadline trace payload =
    try_seq (validate_request_payload payload)
    (let env = \<lparr>req_protocol_version = PROTOCOL_VERSION, req_request_id = request_id,
        req_operation = request_operation payload, req_namespace = namespace,
        req_deadline_unix_nanos = deadline, req_trace = trace, req_caller = None,
        req_payload = payload, req_observations = []\<rparr>
     in try_seq (validate_request env) (Ok env))"

definition with_caller :: "RequestEnvelope \<Rightarrow> CallerContext \<Rightarrow> RequestEnvelope" where
  "with_caller env caller = env\<lparr>req_caller := Some caller\<rparr>"

section \<open>Responses\<close>

record ResponseEnvelope =
  resp_protocol_version :: u32
  resp_request_id :: string
  resp_operation :: Operation
  resp_namespace :: string
  resp_deadline_unix_nanos :: u64
  resp_trace :: TraceContext
  resp_ok :: bool
  resp_errno :: "Errno option"
  resp_error_message :: string
  resp_payload :: "ResponsePayload option"
  resp_observations :: "Observation list"
  resp_invalidations :: "Invalidation list"

definition validate_identity_and_payload :: "ResponseEnvelope \<Rightarrow> ProtocolError + unit" where
  "validate_identity_and_payload env =
    (if resp_protocol_version env \<noteq> PROTOCOL_VERSION
     then Err (UnsupportedVersion (resp_protocol_version env))
     else if resp_request_id env = [] \<or> resp_namespace env = []
     then Err (InvalidEnvelope ''request_id and namespace must not be empty'')
     else if resp_ok env then
       (if resp_errno env \<noteq> None
        then Err (InvalidResponseState ''successful response must not carry errno'')
        else try_bind (ok_or (InvalidResponseState ''missing success payload'') (resp_payload env))
          (\<lambda>payload.
            if response_operation payload \<noteq> resp_operation env
            then Err (PayloadMismatch (resp_operation env) (response_operation payload))
            else try_seq (validate_response_payload payload) (Ok ())))
     else
       (if resp_payload env \<noteq> None
        then Err (InvalidResponseState ''error response must not carry payload'')
        else try_bind
          (ok_or (InvalidResponseState ''missing error errno'')
            (Option.bind (resp_errno env) (\<lambda>e. if is_error e then Some e else None)))
          (\<lambda>_. Ok ())))"

definition validate_response :: "ResponseEnvelope \<Rightarrow> ProtocolError + unit" where
  "validate_response env =
    try_seq (validate_identity_and_payload env)
    (try_seq (try_each validate_invalidation (resp_invalidations env)) (Ok ()))"

definition validate_identity_and_payload_for_request ::
    "ResponseEnvelope \<Rightarrow> RequestEnvelope \<Rightarrow> ProtocolError + unit" where
  "validate_identity_and_payload_for_request env request =
    try_seq (validate_request request)
    (try_seq (validate_identity_and_payload env)
      (if resp_request_id env \<noteq> req_request_id request
       then Err (InvalidEnvelope ''response request_id does not match request'')
       else if resp_namespace env \<noteq> req_namespace request
       then Err (InvalidEnvelope ''response namespace does not match request'')
       else if resp_operation env \<noteq> req_operation request
       then Err (InvalidEnvelope ''response operation does not match request'')
       else case resp_payload env of
          Some payload \<Rightarrow>
            try_seq (validate_response_for_request payload (req_payload request)) (Ok ())
        | None \<Rightarrow> Ok ()))"

definition validate_for_request :: "ResponseEnvelope \<Rightarrow> RequestEnvelope \<Rightarrow> ProtocolError + unit" where
  "validate_for_request env request =
    try_seq (validate_identity_and_payload_for_request env request)
    (try_seq (try_each validate_invalidation (resp_invalidations env)) (Ok ()))"

definition response_request_id :: "RequestEnvelope \<Rightarrow> string" where
  "response_request_id request =
    (if req_request_id request = [] then MALFORMED_REQUEST_ID else req_request_id request)"

definition response_namespace :: "RequestEnvelope \<Rightarrow> string" where
  "response_namespace request =
    (if req_namespace request = [] then MALFORMED_NAMESPACE else req_namespace request)"

definition success_for ::
    "RequestEnvelope \<Rightarrow> ResponsePayload \<Rightarrow> Invalidation list
      \<Rightarrow> ProtocolError + ResponseEnvelope" where
  "success_for request payload invalidations =
    try_seq (validate_request request)
    (if req_operation request \<noteq> response_operation payload
     then Err (PayloadMismatch (req_operation request) (response_operation payload))
     else try_seq (validate_response_for_request payload (req_payload request))
     (let env = \<lparr>resp_protocol_version = PROTOCOL_VERSION,
          resp_request_id = req_request_id request, resp_operation = req_operation request,
          resp_namespace = req_namespace request,
          resp_deadline_unix_nanos = req_deadline_unix_nanos request,
          resp_trace = req_trace request, resp_ok = True, resp_errno = None,
          resp_error_message = [], resp_payload = Some payload, resp_observations = [],
          resp_invalidations = invalidations\<rparr>
      in try_seq (validate_for_request env request) (Ok env)))"

definition failure_for :: "RequestEnvelope \<Rightarrow> Errno \<Rightarrow> string \<Rightarrow> ResponseEnvelope" where
  "failure_for request errno message =
    \<lparr>resp_protocol_version = PROTOCOL_VERSION,
     resp_request_id = response_request_id request, resp_operation = req_operation request,
     resp_namespace = response_namespace request,
     resp_deadline_unix_nanos = req_deadline_unix_nanos request,
     resp_trace = req_trace request, resp_ok = False,
     resp_errno = Some (if errno = Success then InvalidArgument else errno),
     resp_error_message = message, resp_payload = None, resp_observations = [],
     resp_invalidations = []\<rparr>"

section \<open>Well-formedness\<close>

lemma is_error_iff: "is_error e \<longleftrightarrow> e \<noteq> Success"
  by (cases e) (simp add: Success_def)

lemma InvalidArgument_not_Success [simp]: "InvalidArgument \<noteq> Success"
  by (simp add: errno_defs)

lemma validate_request_ok:
  "validate_request env = Ok () \<longleftrightarrow>
    req_protocol_version env = PROTOCOL_VERSION \<and> req_request_id env \<noteq> []
    \<and> req_namespace env \<noteq> [] \<and> req_operation env = request_operation (req_payload env)
    \<and> validate_request_payload (req_payload env) = Ok ()"
  by (auto simp: validate_request_def validate_identity_def try_seq_eq_Ok_iff)

lemma RequestEnvelope_new_valid:
  "RequestEnvelope_new i n d t p = Ok env \<Longrightarrow> validate_request env = Ok ()"
  by (auto simp: RequestEnvelope_new_def Let_def try_seq_eq_Ok_iff)

lemma failure_for_fields [simp]:
  "resp_ok (failure_for r e m) = False" "resp_payload (failure_for r e m) = None"
  "resp_invalidations (failure_for r e m) = []" "resp_error_message (failure_for r e m) = m"
  "resp_operation (failure_for r e m) = req_operation r"
  "resp_errno (failure_for r e m) = Some (if e = Success then InvalidArgument else e)"
  by (simp_all add: failure_for_def)

lemma failure_for_identity: "validate_identity_and_payload (failure_for r e m) = Ok ()"
  by (simp add: failure_for_def validate_identity_and_payload_def is_error_iff
      response_request_id_def response_namespace_def MALFORMED_REQUEST_ID_def
      MALFORMED_NAMESPACE_def)

lemma failure_response_valid: "validate_response (failure_for request e m) = Ok ()"
  by (simp add: validate_response_def failure_for_identity)

lemma failure_answers_request:
  "validate_for_request (failure_for request e m) request = validate_request request"
proof -
  have "validate_for_request (failure_for request e m) request = Ok ()"
    if "validate_request request = Ok ()"
    using that failure_for_identity [of request e m]
    by (simp add: validate_for_request_def validate_identity_and_payload_for_request_def)
      (simp add: failure_for_def response_request_id_def response_namespace_def
        validate_request_ok)
  then show ?thesis
    by (cases "validate_request request")
      (simp_all add: validate_for_request_def validate_identity_and_payload_for_request_def)
qed

text \<open>
  A failure response is valid for the wire whatever request, errno and
  message it is built from, malformed requests and a success errno included;
  built from a valid request it is also a valid answer to that request.
\<close>

lemma failure_for_valid:
  "validate_response (failure_for request errno message) = Ok ()
    \<and> validate_for_request (failure_for request errno message) request = validate_request request"
  by (simp add: failure_response_valid failure_answers_request)

lemma response_for_request_payload_ok:
  "validate_response_for_request p q = Ok () \<Longrightarrow>
    response_operation p = request_operation q \<and> validate_response_payload p = Ok ()"
  by (auto simp: validate_response_for_request_def try_seq_eq_Ok_iff split: if_splits)

lemma success_for_ok:
  "success_for request payload invalidations = Ok env \<longleftrightarrow>
    validate_request request = Ok ()
    \<and> validate_response_for_request payload (req_payload request) = Ok ()
    \<and> list_all (\<lambda>i. validate_invalidation i = Ok ()) invalidations
    \<and> env = \<lparr>resp_protocol_version = PROTOCOL_VERSION,
          resp_request_id = req_request_id request, resp_operation = req_operation request,
          resp_namespace = req_namespace request,
          resp_deadline_unix_nanos = req_deadline_unix_nanos request,
          resp_trace = req_trace request, resp_ok = True, resp_errno = None,
          resp_error_message = [], resp_payload = Some payload, resp_observations = [],
          resp_invalidations = invalidations\<rparr>"
  by (auto simp: success_for_def Let_def try_seq_eq_Ok_iff validate_for_request_def
      validate_identity_and_payload_for_request_def validate_identity_and_payload_def
      validate_request_ok try_each_eq_Ok_iff list_all_iff
      dest: response_for_request_payload_ok split: if_splits)

lemma success_for_fields:
  "success_for request payload invalidations = Ok env \<Longrightarrow>
    resp_ok env \<and> resp_payload env = Some payload \<and> resp_invalidations env = invalidations
    \<and> resp_request_id env = req_request_id request \<and> resp_namespace env = req_namespace request
    \<and> resp_operation env = req_operation request \<and> resp_errno env = None"
  by (simp add: success_for_ok)

lemma success_for_validated:
  "success_for request payload invalidations = Ok env \<Longrightarrow> validate_for_request env request = Ok ()"
  by (auto simp: success_for_def Let_def try_seq_eq_Ok_iff split: if_splits)

lemma validate_for_request_validate:
  "validate_for_request env request = Ok () \<Longrightarrow> validate_response env = Ok ()"
  by (auto simp: validate_for_request_def validate_identity_and_payload_for_request_def
      validate_response_def try_seq_eq_Ok_iff)

text \<open>
  A success response is built exactly when the request is valid, the payload
  is a valid answer to it and every invalidation is valid; it then carries that
  payload and those invalidations under the request's identity, and is a valid
  answer to the request.
\<close>

lemma success_for_spec:
  "(case success_for request payload invalidations of
      Ok env \<Rightarrow>
        validate_for_request env request = Ok () \<and> resp_ok env
        \<and> resp_payload env = Some payload \<and> resp_invalidations env = invalidations
        \<and> resp_request_id env = req_request_id request
        \<and> resp_namespace env = req_namespace request
    | Err _ \<Rightarrow>
        \<not> (validate_request request = Ok ()
           \<and> validate_response_for_request payload (req_payload request) = Ok ()
           \<and> list_all (\<lambda>i. validate_invalidation i = Ok ()) invalidations))"
proof (cases "success_for request payload invalidations")
  case (Inl e)
  then have "\<nexists>env. success_for request payload invalidations = Ok env" by simp
  then show ?thesis unfolding success_for_ok by (simp add: Inl)
next
  case (Inr env)
  then show ?thesis using success_for_validated [OF Inr] success_for_fields [OF Inr] by simp
qed

end
