(* ===== verification/FsCore.thy ===== *)
theory FsCore
  imports FsEnvelope
begin

text \<open>
  The dispatcher, \<open>fs-core/src/lib.rs\<close>. The service trait is a record of handlers
  over a service state, the authorizer a function, the clock an argument of
  \<open>dispatch\<close>, and the mutex around the sequence map a poison flag beside the map.
  Arithmetic on sequence numbers wraps, as it does in a release build.
  The lemmas show that every response is well formed, that nothing happens to
  the state before all guards have passed, and how invalidation sequence numbers
  are handed out.
\<close>

section \<open>Metadata, limits and errors\<close>

record RpcMetadata =
  md_request_id :: string
  md_namespace :: string
  md_caller :: "CallerContext option"
  md_peer_identity :: "string option"
  md_trace_id :: "string option"
  md_payload_len :: u64
  md_received_unix_nanos :: u64

text \<open>
  The clock as the code reads it: nanoseconds since the epoch, zero before it,
  capped at the largest \<open>u64\<close>.
\<close>

definition now_unix_nanos :: "int \<Rightarrow> u64" where
  "now_unix_nanos since_epoch = of_nat (min (nat since_epoch) (2 ^ 64 - 1))"

definition RpcMetadata_for_request :: "u64 \<Rightarrow> RequestEnvelope \<Rightarrow> u64 \<Rightarrow> RpcMetadata" where
  "RpcMetadata_for_request now request payload_len =
    \<lparr>md_request_id = req_request_id request, md_namespace = req_namespace request,
     md_caller = req_caller request, md_peer_identity = None,
     md_trace_id =
       (if trace_trace_id (req_trace request) \<noteq> [] then Some (trace_trace_id (req_trace request))
        else None),
     md_payload_len = payload_len, md_received_unix_nanos = now\<rparr>"

record ResourceLimits =
  max_envelope_bytes :: u64
  max_read_bytes :: u32
  max_write_bytes :: nat
  max_directory_entries :: u32
  max_xattr_bytes :: u32
  max_symlink_target_bytes :: nat

definition ResourceLimits_default :: ResourceLimits where
  "ResourceLimits_default =
    \<lparr>max_envelope_bytes = 4 * 1024 * 1024, max_read_bytes = 1024 * 1024,
     max_write_bytes = 1024 * 1024, max_directory_entries = 4096,
     max_xattr_bytes = 64 * 1024, max_symlink_target_bytes = 4096\<rparr>"

record FsError =
  fe_errno :: Errno
  fe_message :: string

definition FsError_new :: "Errno \<Rightarrow> string \<Rightarrow> FsError" where
  "FsError_new errno message =
    \<lparr>fe_errno = (if errno = Success then InvalidArgument else errno), fe_message = message\<rparr>"

definition unsupported :: "Operation \<Rightarrow> FsError + 'a" where
  "unsupported op =
    Err (FsError_new NotSupported (''operation '' @ as_str op @ '' is not implemented''))"

definition protocol_error_to_fs_error :: "ProtocolError \<Rightarrow> FsError" where
  "protocol_error_to_fs_error error =
    FsError_new InvalidArgument (''invalid protocol request: '' @ protocol_error_to_string error)"

section \<open>Services\<close>

type_synonym ('s, 'q, 'r) handler = "'s \<Rightarrow> 'q \<Rightarrow> RpcMetadata \<Rightarrow> (FsError + 'r) \<times> 's"

record 's FileSystemService =
  svc_lookup :: "('s, LookupRequest, LookupResponse) handler"
  svc_getattr :: "('s, GetattrRequest, GetattrResponse) handler"
  svc_readdir :: "('s, ReaddirRequest, ReaddirResponse) handler"
  svc_open :: "('s, OpenRequest, OpenResponse) handler"
  svc_read :: "('s, ReadRequest, ReadResponse) handler"
  svc_write :: "('s, WriteRequest, WriteResponse) handler"
  svc_create :: "('s, CreateRequest, CreateResponse) handler"
  svc_rename :: "('s, RenameRequest, EmptyResponse) handler"
  svc_unlink :: "('s, UnlinkRequest, EmptyResponse) handler"
  svc_mkdir :: "('s, MkdirRequest, LookupResponse) handler"
  svc_rmdir :: "('s, RmdirRequest, EmptyResponse) handler"
  svc_statfs :: "('s, StatfsRequest, StatfsResponse) handler"
  svc_getxattr :: "('s, GetxattrRequest, GetxattrResponse) handler"
  svc_setxattr :: "('s, SetxattrRequest, EmptyResponse) handler"
  svc_listxattr :: "('s, ListxattrRequest, ListxattrResponse) handler"
  svc_removexattr :: "('s, RemovexattrRequest, EmptyResponse) handler"
  svc_release :: "('s, ReleaseRequest, EmptyResponse) handler"
  svc_readlink :: "('s, ReadlinkRequest, ReadlinkResponse) handler"
  svc_symlink :: "('s, SymlinkRequest, SymlinkResponse) handler"
  svc_hardlink :: "('s, HardlinkRequest, HardlinkResponse) handler"
  svc_setattr :: "('s, SetattrRequest, SetattrResponse) handler"
  svc_flush :: "('s, FlushRequest, EmptyResponse) handler"
  svc_fsync :: "('s, FsyncRequest, EmptyResponse) handler"
  svc_fsyncdir :: "('s, FsyncdirRequest, EmptyResponse) handler"
  svc_getlk :: "('s, GetlkRequest, GetlkResponse) handler"
  svc_setlk :: "('s, SetlkRequest, EmptyResponse) handler"
  svc_flock :: "('s, FlockRequest, EmptyResponse) handler"
  svc_copy_file_range :: "('s, CopyFileRangeRequest, CopyFileRangeResponse) handler"
  svc_fallocate :: "('s, FallocateRequest, EmptyResponse) handler"
  svc_lseek :: "('s, LseekRequest, LseekResponse) handler"

text \<open>The trait's default methods.\<close>

definition default_service :: "'s FileSystemService" where
  "default_service =
    \<lparr>svc_lookup = (\<lambda>s q m. (unsupported Op_Lookup, s)),
     svc_getattr = (\<lambda>s q m. (unsupported Op_Getattr, s)),
     svc_readdir = (\<lambda>s q m. (unsupported Op_Readdir, s)),
     svc_open = (\<lambda>s q m. (unsupported Op_Open, s)),
     svc_read = (\<lambda>s q m. (unsupported Op_Read, s)),
     svc_write = (\<lambda>s q m. (unsupported Op_Write, s)),
     svc_create = (\<lambda>s q m. (unsupported Op_Create, s)),
     svc_rename = (\<lambda>s q m. (unsupported Op_Rename, s)),
     svc_unlink = (\<lambda>s q m. (unsupported Op_Unlink, s)),
     svc_mkdir = (\<lambda>s q m. (unsupported Op_Mkdir, s)),
     svc_rmdir = (\<lambda>s q m. (unsupported Op_Rmdir, s)),
     svc_statfs = (\<lambda>s q m. (unsupported Op_Statfs, s)),
     svc_getxattr = (\<lambda>s q m. (unsupported Op_Getxattr, s)),
     svc_setxattr = (\<lambda>s q m. (unsupported Op_Setxattr, s)),
     svc_listxattr = (\<lambda>s q m. (unsupported Op_Listxattr, s)),
     svc_removexattr = (\<lambda>s q m. (unsupported Op_Removexattr, s)),
     svc_release = (\<lambda>s q m. (unsupported Op_Release, s)),
     svc_readlink = (\<lambda>s q m. (unsupported Op_Readlink, s)),
     svc_symlink = (\<lambda>s q m. (unsupported Op_Symlink, s)),
     svc_hardlink = (\<lambda>s q m. (unsupported Op_Hardlink, s)),
     svc_setattr = (\<lambda>s q m. (unsupported Op_Setattr, s)),
     svc_flush = (\<lambda>s q m. (unsupported Op_Flush, s)),
     svc_fsync = (\<lambda>s q m. (unsupported Op_Fsync, s)),
     svc_fsyncdir = (\<lambda>s q m. (unsupported Op_Fsyncdir, s)),
     svc_getlk = (\<lambda>s q m. (unsupported Op_Getlk, s)),
     svc_setlk = (\<lambda>s q m. (unsupported Op_Setlk, s)),
     svc_flock = (\<lambda>s q m. (unsupported Op_Flock, s)),
     svc_copy_file_range = (\<lambda>s q m. (unsupported Op_CopyFileRange, s)),
     svc_fallocate = (\<lambda>s q m. (unsupported Op_Fallocate, s)),
     svc_lseek = (\<lambda>s q m. (unsupported Op_Lseek, s))\<rparr>"

text \<open>\<open>Result::map\<close> on a handler's result.\<close>

definition wrap_result :: "('r \<Rightarrow> ResponsePayload) \<Rightarrow> (FsError + 'r) \<times> 's
    \<Rightarrow> (FsError + ResponsePayload) \<times> 's" where
  "wrap_result f x = (map_ok f (fst x), snd x)"

fun call_handler :: "'s FileSystemService \<Rightarrow> 's \<Rightarrow> RequestPayload \<Rightarrow> RpcMetadata
    \<Rightarrow> (FsError + ResponsePayload) \<times> 's" where
  "call_handler svc s (Req_Lookup v) m = wrap_result Resp_Lookup (svc_lookup svc s v m)"
| "call_handler svc s (Req_Getattr v) m = wrap_result Resp_Getattr (svc_getattr svc s v m)"
| "call_handler svc s (Req_Readdir v) m = wrap_result Resp_Readdir (svc_readdir svc s v m)"
| "call_handler svc s (Req_Open v) m = wrap_result Resp_Open (svc_open svc s v m)"
| "call_handler svc s (Req_Read v) m = wrap_result Resp_Read (svc_read svc s v m)"
| "call_handler svc s (Req_Write v) m = wrap_result Resp_Write (svc_write svc s v m)"
| "call_handler svc s (Req_Create v) m = wrap_result Resp_Create (svc_create svc s v m)"
| "call_handler svc s (Req_Rename v) m = wrap_result Resp_Rename (svc_rename svc s v m)"
| "call_handler svc s (Req_Unlink v) m = wrap_result Resp_Unlink (svc_unlink svc s v m)"
| "call_handler svc s (Req_Mkdir v) m = wrap_result Resp_Mkdir (svc_mkdir svc s v m)"
| "call_handler svc s (Req_Rmdir v) m = wrap_result Resp_Rmdir (svc_rmdir svc s v m)"
| "call_handler svc s (Req_Statfs v) m = wrap_result Resp_Statfs (svc_statfs svc s v m)"
| "call_handler svc s (Req_Getxattr v) m = wrap_result Resp_Getxattr (svc_getxattr svc s v m)"
| "call_handler svc s (Req_Setxattr v) m = wrap_result Resp_Setxattr (svc_setxattr svc s v m)"
| "call_handler svc s (Req_Listxattr v) m = wrap_result Resp_Listxattr (svc_listxattr svc s v m)"
| "call_handler svc s (Req_Removexattr v) m = wrap_result Resp_Removexattr (svc_removexattr svc s v m)"
| "call_handler svc s (Req_Release v) m = wrap_result Resp_Release (svc_release svc s v m)"
| "call_handler svc s (Req_Readlink v) m = wrap_result Resp_Readlink (svc_readlink svc s v m)"
| "call_handler svc s (Req_Symlink v) m = wrap_result Resp_Symlink (svc_symlink svc s v m)"
| "call_handler svc s (Req_Hardlink v) m = wrap_result Resp_Hardlink (svc_hardlink svc s v m)"
| "call_handler svc s (Req_Setattr v) m = wrap_result Resp_Setattr (svc_setattr svc s v m)"
| "call_handler svc s (Req_Flush v) m = wrap_result Resp_Flush (svc_flush svc s v m)"
| "call_handler svc s (Req_Fsync v) m = wrap_result Resp_Fsync (svc_fsync svc s v m)"
| "call_handler svc s (Req_Fsyncdir v) m = wrap_result Resp_Fsyncdir (svc_fsyncdir svc s v m)"
| "call_handler svc s (Req_Getlk v) m = wrap_result Resp_Getlk (svc_getlk svc s v m)"
| "call_handler svc s (Req_Setlk v) m = wrap_result Resp_Setlk (svc_setlk svc s v m)"
| "call_handler svc s (Req_Flock v) m = wrap_result Resp_Flock (svc_flock svc s v m)"
| "call_handler svc s (Req_CopyFileRange v) m = wrap_result Resp_CopyFileRange (svc_copy_file_range svc s v m)"
| "call_handler svc s (Req_Fallocate v) m = wrap_result Resp_Fallocate (svc_fallocate svc s v m)"
| "call_handler svc s (Req_Lseek v) m = wrap_result Resp_Lseek (svc_lseek svc s v m)"

section \<open>The dispatcher\<close>

record 's Dispatcher =
  disp_service :: "'s FileSystemService"
  disp_state :: 's
  disp_authorizer :: "RpcMetadata \<Rightarrow> RequestEnvelope \<Rightarrow> FsError + unit"
  disp_limits :: ResourceLimits
  disp_sequences :: "(string, u64) hash_map"
  disp_poisoned :: bool

definition AllowAll_authorize :: "RpcMetadata \<Rightarrow> RequestEnvelope \<Rightarrow> FsError + unit" where
  "AllowAll_authorize metadata request = Ok ()"

definition with_authorizer :: "'s FileSystemService \<Rightarrow> 's
    \<Rightarrow> (RpcMetadata \<Rightarrow> RequestEnvelope \<Rightarrow> FsError + unit) \<Rightarrow> 's Dispatcher" where
  "with_authorizer svc s authorizer =
    \<lparr>disp_service = svc, disp_state = s, disp_authorizer = authorizer,
     disp_limits = ResourceLimits_default, disp_sequences = [], disp_poisoned = False\<rparr>"

definition Dispatcher_new :: "'s FileSystemService \<Rightarrow> 's \<Rightarrow> 's Dispatcher" where
  "Dispatcher_new svc s = with_authorizer svc s AllowAll_authorize"

definition with_limits :: "'s Dispatcher \<Rightarrow> ResourceLimits \<Rightarrow> 's Dispatcher" where
  "with_limits d limits = d\<lparr>disp_limits := limits\<rparr>"

definition check_limits :: "ResourceLimits \<Rightarrow> RequestEnvelope \<Rightarrow> RpcMetadata \<Rightarrow> FsError + unit" where
  "check_limits limits request metadata =
    (if md_payload_len metadata > max_envelope_bytes limits
     then Err (FsError_new MessageTooLarge ''request envelope exceeds max bytes'')
     else case req_payload request of
       Req_Read v \<Rightarrow>
         if read_size v > max_read_bytes limits
         then Err (FsError_new NoBufferSpace ''read size exceeds limit'') else Ok ()
     | Req_Write v \<Rightarrow>
         if length (write_data v) > max_write_bytes limits
         then Err (FsError_new MessageTooLarge ''write size exceeds limit'') else Ok ()
     | Req_Readdir v \<Rightarrow>
         if readdir_max_entries v > max_directory_entries limits
         then Err (FsError_new NoBufferSpace ''directory entry request exceeds limit'')
         else Ok ()
     | Req_Getxattr v \<Rightarrow>
         if getxattr_size v > max_xattr_bytes limits
         then Err (FsError_new NoBufferSpace ''xattr size exceeds limit'') else Ok ()
     | Req_Listxattr v \<Rightarrow>
         if listxattr_size v > max_xattr_bytes limits
         then Err (FsError_new NoBufferSpace ''xattr list size exceeds limit'') else Ok ()
     | Req_Setxattr v \<Rightarrow>
         if length (setxattr_value v) > unat (max_xattr_bytes limits)
         then Err (FsError_new MessageTooLarge ''xattr value exceeds limit'') else Ok ()
     | Req_Symlink v \<Rightarrow>
         if length (symlink_target v) > max_symlink_target_bytes limits
         then Err (FsError_new MessageTooLarge ''symlink target exceeds limit'') else Ok ()
     | _ \<Rightarrow> Ok ())"

definition validate_before_handler ::
    "u64 \<Rightarrow> 's Dispatcher \<Rightarrow> RequestEnvelope \<Rightarrow> RpcMetadata \<Rightarrow> FsError + unit" where
  "validate_before_handler now d request metadata =
    try_seq (map_err protocol_error_to_fs_error (validate_request request))
    (if md_request_id metadata \<noteq> req_request_id request
     then Err (FsError_new InvalidArgument ''metadata request_id does not match envelope'')
     else if md_namespace metadata \<noteq> req_namespace request
     then Err (FsError_new InvalidArgument ''metadata namespace does not match envelope'')
     else if req_deadline_unix_nanos request \<noteq> 0 \<and> req_deadline_unix_nanos request \<le> now
     then Err (FsError_new TimedOut ''request deadline expired before dispatch'')
     else try_seq (check_limits (disp_limits d) request metadata)
       (disp_authorizer d metadata request))"

definition next_invalidation_sequence ::
    "'s Dispatcher \<Rightarrow> string \<Rightarrow> (unit + u64) \<times> 's Dispatcher" where
  "next_invalidation_sequence d namespace =
    (if disp_poisoned d
     then (Err (), d\<lparr>disp_sequences := [], disp_poisoned := False\<rparr>)
     else let current = (case hm_get (disp_sequences d) namespace of None \<Rightarrow> 1 | Some n \<Rightarrow> n)
       in (Ok current,
           d\<lparr>disp_sequences := hm_insert namespace (current + 1) (disp_sequences d)\<rparr>))"

definition full_resync_invalidation :: "string \<Rightarrow> string \<Rightarrow> u64 \<Rightarrow> Invalidation" where
  "full_resync_invalidation namespace request_id sequence =
    \<lparr>inv_namespace = namespace, inv_sequence = sequence,
     inv_kind = invalidation_wire_value Inv_FullResync, inv_path = [], inv_old_path = [],
     inv_new_path = [], inv_inode = 0, inv_handle = 0, inv_request_id = request_id\<rparr>"

definition dispatcher_full_resync ::
    "'s Dispatcher \<Rightarrow> string \<Rightarrow> string \<Rightarrow> Invalidation \<times> 's Dispatcher" where
  "dispatcher_full_resync d namespace request_id =
    (case next_invalidation_sequence d namespace of
       (Ok sequence, d') \<Rightarrow> (full_resync_invalidation namespace request_id sequence, d')
     | (Err _, d') \<Rightarrow> (full_resync_invalidation namespace request_id 0, d'))"

fun invalidation_kind_for_effect :: "OperationEffect \<Rightarrow> InvalidationKind option" where
  "invalidation_kind_for_effect Eff_ContentMutation = Some Inv_Modify"
| "invalidation_kind_for_effect Eff_CreateNode = Some Inv_Create"
| "invalidation_kind_for_effect Eff_RenameNode = Some Inv_Rename"
| "invalidation_kind_for_effect Eff_DeleteNode = Some Inv_Delete"
| "invalidation_kind_for_effect Eff_MetadataMutation = Some Inv_Metadata"
| "invalidation_kind_for_effect Eff_XattrMutation = Some Inv_Xattr"
| "invalidation_kind_for_effect _ = None"

definition invalidation_kind_for_request :: "RequestPayload \<Rightarrow> InvalidationKind option" where
  "invalidation_kind_for_request payload =
    (case payload of
       Req_Open v \<Rightarrow>
         if open_flags v AND OPEN_FLAG_TRUNCATE \<noteq> 0 then Some Inv_Modify
         else invalidation_kind_for_effect (os_effect (spec_for (request_operation payload)))
     | _ \<Rightarrow> invalidation_kind_for_effect (os_effect (spec_for (request_operation payload))))"

definition invalidations_for_success ::
    "'s Dispatcher \<Rightarrow> RequestEnvelope \<Rightarrow> ResponsePayload \<Rightarrow> Invalidation list \<times> 's Dispatcher" where
  "invalidations_for_success d request payload =
    (case invalidation_kind_for_request (req_payload request) of
       None \<Rightarrow> ([], d)
     | Some kind \<Rightarrow>
        (case next_invalidation_sequence d (req_namespace request) of
           (Err _, d') \<Rightarrow>
             ([full_resync_invalidation (req_namespace request) (req_request_id request) 0], d')
         | (Ok sequence, d') \<Rightarrow>
             (let invalidation = \<lparr>inv_namespace = req_namespace request, inv_sequence = sequence,
                    inv_kind = invalidation_wire_value kind,
                    inv_path = (case primary_path (req_payload request) of
                       None \<Rightarrow> [] | Some p \<Rightarrow> p),
                    inv_old_path = [], inv_new_path = [],
                    inv_inode = (case created_inode payload of None \<Rightarrow> 0 | Some i \<Rightarrow> i),
                    inv_handle = 0, inv_request_id = req_request_id request\<rparr>;
                  invalidation' = (case req_payload request of
                    Req_Rename v \<Rightarrow> invalidation\<lparr>inv_path := [],
                      inv_old_path := (case rename_old_path v of None \<Rightarrow> [] | Some p \<Rightarrow> dto_path p),
                      inv_new_path := (case rename_new_path v of None \<Rightarrow> [] | Some p \<Rightarrow> dto_path p)\<rparr>
                  | _ \<Rightarrow> invalidation)
              in ([invalidation'], d'))))"

definition dispatch ::
    "u64 \<Rightarrow> 's Dispatcher \<Rightarrow> RequestEnvelope \<Rightarrow> RpcMetadata \<Rightarrow> ResponseEnvelope \<times> 's Dispatcher" where
  "dispatch now d request metadata =
    (case validate_before_handler now d request metadata of
       Err error \<Rightarrow> (failure_for request (fe_errno error) (fe_message error), d)
     | Ok _ \<Rightarrow>
        (case call_handler (disp_service d) (disp_state d) (req_payload request) metadata of
           (result, s') \<Rightarrow>
            (let d' = d\<lparr>disp_state := s'\<rparr> in
             case result of
               Ok payload \<Rightarrow>
                (case validate_response_for_request payload (req_payload request) of
                   Err error \<Rightarrow>
                     (failure_for request InvalidArgument (protocol_error_to_string error), d')
                 | Ok _ \<Rightarrow>
                    (case invalidations_for_success d' request payload of
                       (invalidations, d'') \<Rightarrow>
                        (case success_for request payload invalidations of
                           Ok response \<Rightarrow> (response, d'')
                         | Err error \<Rightarrow>
                             (failure_for request InvalidArgument
                               (protocol_error_to_string error), d''))))
             | Err error \<Rightarrow> (failure_for request (fe_errno error) (fe_message error), d'))))"

definition release_for_handle_response ::
    "RequestEnvelope \<Rightarrow> ResponseEnvelope \<Rightarrow> ReleaseRequest option" where
  "release_for_handle_response request response =
    (if \<not> resp_ok response then None
     else if os_response_handle (spec_for (req_operation request)) \<noteq> Handle_OpenedObject then None
     else Option.bind (Option.bind (resp_payload response) opened_handle) (\<lambda>handle.
       Some \<lparr>release_path = path_dto_for_role (req_payload request) Role_Target,
             release_handle = handle, release_flags = 0\<rparr>))"

definition abort_response_handles ::
    "'s Dispatcher \<Rightarrow> RequestEnvelope \<Rightarrow> RpcMetadata \<Rightarrow> ResponseEnvelope
      \<Rightarrow> (FsError + unit) \<times> 's Dispatcher" where
  "abort_response_handles d request metadata response =
    (case release_for_handle_response request response of
       None \<Rightarrow> (Ok (), d)
     | Some release \<Rightarrow>
        (case svc_release (disp_service d) (disp_state d) release metadata of
           (result, s') \<Rightarrow> (map_ok (\<lambda>_. ()) result, d\<lparr>disp_state := s'\<rparr>)))"

section \<open>Transport errors\<close>

datatype RpcError =
  ConnectionClosed | FrameTooLarge | Timeout | Malformed string | Transport string

fun rpc_error_errno :: "RpcError \<Rightarrow> Errno" where
  "rpc_error_errno ConnectionClosed = ConnectionReset"
| "rpc_error_errno FrameTooLarge = MessageTooLarge"
| "rpc_error_errno Timeout = TimedOut"
| "rpc_error_errno (Malformed _) = InvalidArgument"
| "rpc_error_errno (Transport _) = Io"

fun rpc_error_to_string :: "RpcError \<Rightarrow> string" where
  "rpc_error_to_string ConnectionClosed = ''transport closed''"
| "rpc_error_to_string FrameTooLarge = ''frame exceeded transport limit''"
| "rpc_error_to_string Timeout = ''request timed out''"
| "rpc_error_to_string (Malformed m) = ''malformed message: '' @ m"
| "rpc_error_to_string (Transport m) = ''transport failed: '' @ m"

section \<open>Responses\<close>

lemma full_resync_valid:
  "namespace \<noteq> [] \<Longrightarrow> validate_invalidation (full_resync_invalidation namespace i n) = Ok ()"
  by (simp add: full_resync_invalidation_def validate_invalidation_kind [where kind = Inv_FullResync]
      invalidation_paths_ok_def del: invalidation_wire_value.simps)

lemma primary_path_simps:
  "primary_path p =
    (case os_path_roles (spec_for (request_operation p)) of
       [] \<Rightarrow> None | s # _ \<Rightarrow> map_option dto_path (path_dto_for_role p (prs_role s)))"
  by (simp add: primary_path_def primary_path_role_def path_for_role_def split: list.splits)

definition invalidation_target_ok :: "InvalidationKind \<Rightarrow> RequestPayload \<Rightarrow> bool" where
  "invalidation_target_ok kind p =
    (case kind of
       Inv_Rename \<Rightarrow> (\<exists>old new. path_for_role p Role_Source = Some old
         \<and> path_for_role p Role_Target = Some new \<and> validate_rename_paths old new = Ok ())
     | Inv_Create \<Rightarrow> (\<exists>q. primary_path p = Some q \<and> valid_non_root q)
     | Inv_Delete \<Rightarrow> (\<exists>q. primary_path p = Some q \<and> valid_non_root q)
     | _ \<Rightarrow> (\<exists>q. primary_path p = Some q \<and> valid_path q))"

lemma validated_invalidation_target:
  assumes "validate_request_payload p = Ok ()" "invalidation_kind_for_request p = Some kind"
  shows "invalidation_target_ok kind p"
  using assms
  by (cases p)
    (auto simp: invalidation_kind_for_request_def invalidation_target_ok_def primary_path_simps
      path_role_defs path_for_role_def path_field_ok non_root_path_field_ok hardlink_request_ok
      required_path_value_def ok_iffs valid_non_root_iff
      dest!: request_path_facts split: if_splits)

lemma invalidation_kind_Rename:
  "invalidation_kind_for_request p = Some Inv_Rename \<longleftrightarrow> (\<exists>v. p = Req_Rename v)"
  by (cases p) (auto simp: invalidation_kind_for_request_def)

lemma invalidation_kind_not_resync: "invalidation_kind_for_request p \<noteq> Some Inv_FullResync"
  by (cases p) (auto simp: invalidation_kind_for_request_def)

definition seq_next :: "'s Dispatcher \<Rightarrow> string \<Rightarrow> u64" where
  "seq_next d namespace = (case hm_get (disp_sequences d) namespace of None \<Rightarrow> 1 | Some n \<Rightarrow> n)"

lemma next_invalidation_sequence_simps:
  "disp_poisoned d \<Longrightarrow>
    next_invalidation_sequence d ns = (Err (), d\<lparr>disp_sequences := [], disp_poisoned := False\<rparr>)"
  "\<not> disp_poisoned d \<Longrightarrow>
    next_invalidation_sequence d ns = (Ok (seq_next d ns),
      d\<lparr>disp_sequences := hm_insert ns (seq_next d ns + 1) (disp_sequences d)\<rparr>)"
  by (simp_all add: next_invalidation_sequence_def seq_next_def Let_def)

text \<open>The invalidation a successful request with an invalidation kind reports.\<close>

definition reports :: "InvalidationKind \<Rightarrow> RequestEnvelope \<Rightarrow> ResponsePayload \<Rightarrow> Invalidation \<Rightarrow> bool" where
  "reports kind request payload i \<longleftrightarrow>
    inv_namespace i = req_namespace request \<and> inv_request_id i = req_request_id request
    \<and> inv_kind i = invalidation_wire_value kind
    \<and> inv_inode i = (case created_inode payload of None \<Rightarrow> 0 | Some n \<Rightarrow> n)
    \<and> (case kind of
         Inv_Rename \<Rightarrow> inv_path i = []
           \<and> path_for_role (req_payload request) Role_Source = Some (inv_old_path i)
           \<and> path_for_role (req_payload request) Role_Target = Some (inv_new_path i)
       | _ \<Rightarrow> primary_path (req_payload request) = Some (inv_path i)
           \<and> inv_old_path i = [] \<and> inv_new_path i = [])"

lemma reports_valid:
  assumes "reports kind request payload i" "validate_request request = Ok ()"
    "invalidation_kind_for_request (req_payload request) = Some kind"
  shows "validate_invalidation i = Ok ()"
proof -
  have "invalidation_target_ok kind (req_payload request)"
    using assms(2,3) by (simp add: validate_request_ok validated_invalidation_target)
  moreover have "inv_namespace i \<noteq> []" "inv_kind i = invalidation_wire_value kind"
    using assms by (auto simp: reports_def validate_request_ok)
  ultimately show ?thesis
    using assms(1,3)
    by (cases kind)
      (auto simp: validate_invalidation_kind [where kind = kind] reports_def
        invalidation_target_ok_def invalidation_paths_ok_def rename_paths_ok valid_non_root_iff
        invalidation_kind_not_resync)
qed

lemma invalidations_for_success_None:
  "invalidation_kind_for_request (req_payload request) = None \<Longrightarrow>
    invalidations_for_success d request payload = ([], d)"
  by (simp add: invalidations_for_success_def)

lemma invalidations_for_success_poisoned:
  "invalidation_kind_for_request (req_payload request) = Some kind \<Longrightarrow> disp_poisoned d \<Longrightarrow>
    invalidations_for_success d request payload =
      ([full_resync_invalidation (req_namespace request) (req_request_id request) 0],
       d\<lparr>disp_sequences := [], disp_poisoned := False\<rparr>)"
  by (simp add: invalidations_for_success_def next_invalidation_sequence_simps)

lemma invalidations_for_success_reports:
  assumes "invalidation_kind_for_request (req_payload request) = Some kind" "\<not> disp_poisoned d"
    "validate_request request = Ok ()"
  shows "\<exists>i. invalidations_for_success d request payload = ([i],
      d\<lparr>disp_sequences := hm_insert (req_namespace request)
          (seq_next d (req_namespace request) + 1) (disp_sequences d)\<rparr>)
    \<and> reports kind request payload i \<and> inv_sequence i = seq_next d (req_namespace request)"
proof -
  have t: "invalidation_target_ok kind (req_payload request)"
    using assms by (simp add: validate_request_ok validated_invalidation_target)
  show ?thesis
  proof (cases "\<exists>v. req_payload request = Req_Rename v")
    case True
    then obtain v where v: "req_payload request = Req_Rename v" by blast
    then have "kind = Inv_Rename" using assms(1) by (simp add: invalidation_kind_for_request_def)
    with assms v t show ?thesis
      by (auto simp: invalidations_for_success_def next_invalidation_sequence_simps Let_def
          reports_def invalidation_target_ok_def path_for_role_def)
  next
    case False
    then have k: "kind \<noteq> Inv_Rename" "kind \<noteq> Inv_FullResync"
      using assms(1) invalidation_kind_Rename invalidation_kind_not_resync by auto
    from False have c: "(case req_payload request of Req_Rename v \<Rightarrow> f v | _ \<Rightarrow> x) = x"
      for f and x :: Invalidation
      by (cases "req_payload request") auto
    from t k obtain q where "primary_path (req_payload request) = Some q"
      by (cases kind) (auto simp: invalidation_target_ok_def)
    with assms k show ?thesis
      by (cases kind) (auto simp: invalidations_for_success_def next_invalidation_sequence_simps
          Let_def reports_def c)
  qed
qed

lemma invalidations_for_success_valid:
  assumes "validate_request request = Ok ()"
  shows "list_all (\<lambda>i. validate_invalidation i = Ok ()) (fst (invalidations_for_success d request payload))"
proof (cases "invalidation_kind_for_request (req_payload request)")
  case None
  then show ?thesis by (simp add: invalidations_for_success_None)
next
  case (Some kind)
  show ?thesis
  proof (cases "disp_poisoned d")
    case True
    with Some assms show ?thesis
      by (simp add: invalidations_for_success_poisoned full_resync_valid validate_request_ok)
  next
    case False
    from invalidations_for_success_reports [OF Some False assms, of payload]
    show ?thesis using reports_valid [OF _ assms Some] by auto
  qed
qed

lemma validate_before_handler_valid:
  "validate_before_handler now d request metadata = Ok () \<Longrightarrow> validate_request request = Ok ()"
  by (simp add: validate_before_handler_def ok_iffs)

lemma dispatch_cases:
  obtains (rejected) e where "validate_before_handler now d request metadata = Err e"
      "dispatch now d request metadata = (failure_for request (fe_errno e) (fe_message e), d)"
  | (failed) s' e m where "validate_before_handler now d request metadata = Ok ()"
      "snd (call_handler (disp_service d) (disp_state d) (req_payload request) metadata) = s'"
      "dispatch now d request metadata = (failure_for request e m, d\<lparr>disp_state := s'\<rparr>)"
  | (succeeded) payload s' invs d' response where
      "validate_before_handler now d request metadata = Ok ()"
      "call_handler (disp_service d) (disp_state d) (req_payload request) metadata = (Ok payload, s')"
      "validate_response_for_request payload (req_payload request) = Ok ()"
      "invalidations_for_success (d\<lparr>disp_state := s'\<rparr>) request payload = (invs, d')"
      "success_for request payload invs = Ok response"
      "dispatch now d request metadata = (response, d')"
proof (cases "validate_before_handler now d request metadata")
  case (Inl e)
  then show ?thesis by (rule rejected) (simp add: dispatch_def Inl)
next
  case (Inr u)
  then have g: "validate_before_handler now d request metadata = Ok ()" by simp
  obtain result s' where h:
    "call_handler (disp_service d) (disp_state d) (req_payload request) metadata = (result, s')"
    by fastforce
  show ?thesis
  proof (cases result)
    case (Inl e)
    have "dispatch now d request metadata
        = (failure_for request (fe_errno e) (fe_message e), d\<lparr>disp_state := s'\<rparr>)"
      using g h Inl by (simp add: dispatch_def)
    with g h show ?thesis by (intro failed) auto
  next
    case (Inr payload)
    show ?thesis
    proof (cases "validate_response_for_request payload (req_payload request)")
      case (Inl e)
      have "dispatch now d request metadata = (failure_for request InvalidArgument
          (protocol_error_to_string e), d\<lparr>disp_state := s'\<rparr>)"
        using g h Inr Inl by (simp add: dispatch_def)
      with g h show ?thesis by (intro failed) auto
    next
      case ok: (Inr u)
      obtain invs d' where i:
        "invalidations_for_success (d\<lparr>disp_state := s'\<rparr>) request payload = (invs, d')"
        by fastforce
      have "list_all (\<lambda>i. validate_invalidation i = Ok ()) invs"
        using invalidations_for_success_valid [OF validate_before_handler_valid [OF g],
            of "d\<lparr>disp_state := s'\<rparr>" payload] i by simp
      then obtain response where r: "success_for request payload invs = Ok response"
        using validate_before_handler_valid [OF g] ok by (auto simp: success_for_ok)
      have "dispatch now d request metadata = (response, d')"
        using g h Inr ok i r by (simp add: dispatch_def)
      with g h Inr ok i r show ?thesis by (intro succeeded) auto
    qed
  qed
qed

lemma dispatch_valid_aux:
  "validate_response (fst (dispatch now d request metadata)) = Ok ()
    \<and> validate_for_request (fst (dispatch now d request metadata)) request
        = validate_request request"
proof (cases rule: dispatch_cases [of now d request metadata])
  case (rejected e)
  then show ?thesis by (simp add: failure_response_valid failure_answers_request)
next
  case (failed s' e m)
  then show ?thesis by (simp add: failure_response_valid failure_answers_request)
next
  case (succeeded payload s' invs d' response)
  then show ?thesis
    using success_for_validated [of request payload invs response]
      validate_before_handler_valid [of now d request metadata]
    by (auto dest: validate_for_request_validate)
qed

lemma invalidations_for_success_service:
  "disp_service (snd (invalidations_for_success d request payload)) = disp_service d
    \<and> disp_state (snd (invalidations_for_success d request payload)) = disp_state d"
  by (auto simp: invalidations_for_success_def next_invalidation_sequence_def Let_def
      split: option.splits)

lemma dispatch_service: "disp_service (snd (dispatch now d request metadata)) = disp_service d"
proof (cases rule: dispatch_cases [of now d request metadata])
  case (succeeded payload s' invs d' response)
  then show ?thesis
    using invalidations_for_success_service [of "d\<lparr>disp_state := s'\<rparr>" request payload] by simp
qed simp_all

text \<open>
  C14: whatever the request, the metadata, the clock and the service do, the
  dispatcher's response is valid for the wire; it is a valid answer to every
  valid request.
\<close>

theorem dispatch_response_valid:
  "validate_response (fst (dispatch now d request metadata)) = Ok ()
    \<and> validate_for_request (fst (dispatch now d request metadata)) request
        = validate_request request"
  by (rule dispatch_valid_aux)

definition dispatch_admitted ::
    "u64 \<Rightarrow> 's Dispatcher \<Rightarrow> RequestEnvelope \<Rightarrow> RpcMetadata \<Rightarrow> bool" where
  "dispatch_admitted now d request metadata \<longleftrightarrow>
    validate_request request = Ok ()
    \<and> md_request_id metadata = req_request_id request
    \<and> md_namespace metadata = req_namespace request
    \<and> (req_deadline_unix_nanos request = 0 \<or> now < req_deadline_unix_nanos request)
    \<and> check_limits (disp_limits d) request metadata = Ok ()
    \<and> disp_authorizer d metadata request = Ok ()"

lemma validate_before_handler_ok:
  "validate_before_handler now d request metadata = Ok () \<longleftrightarrow>
    dispatch_admitted now d request metadata"
  by (auto simp: validate_before_handler_def dispatch_admitted_def ok_iffs)

text \<open>A small service, a request and a dispatcher for it, to evaluate the model on.\<close>

definition sample_service :: "nat FileSystemService" where
  "sample_service = default_service\<lparr>svc_unlink := (\<lambda>s q m. (Ok EmptyResponse, Suc s)),
     svc_open := (\<lambda>s q m. (Ok \<lparr>open_resp_handle = 7, open_resp_flags = 0\<rparr>, Suc s)),
     svc_release := (\<lambda>s q m. (Ok EmptyResponse, s + unat (release_handle q)))\<rparr>"

definition sample_envelope :: "RequestPayload \<Rightarrow> RequestEnvelope" where
  "sample_envelope payload =
    \<lparr>req_protocol_version = 2, req_request_id = ''r'', req_operation = request_operation payload,
     req_namespace = ''n'', req_deadline_unix_nanos = 0,
     req_trace = \<lparr>trace_trace_id = [], trace_parent_id = [], trace_entries = []\<rparr>,
     req_caller = None, req_payload = payload, req_observations = []\<rparr>"

definition sample_unlink :: RequestEnvelope where
  "sample_unlink = sample_envelope (Req_Unlink \<lparr>unlink_path = Some \<lparr>dto_path = ''/a''\<rparr>\<rparr>)"

definition sample_open :: RequestEnvelope where
  "sample_open = sample_envelope (Req_Open
    \<lparr>open_path = Some \<lparr>dto_path = ''/a''\<rparr>, open_flags = 0, open_kind = 1\<rparr>)"

definition sample_metadata :: RpcMetadata where
  "sample_metadata = RpcMetadata_for_request 0 sample_unlink 10"

definition sample_dispatcher :: "nat Dispatcher" where
  "sample_dispatcher =
    \<lparr>disp_service = sample_service, disp_state = 0, disp_authorizer = AllowAll_authorize,
     disp_limits = \<lparr>max_envelope_bytes = 64, max_read_bytes = 64, max_write_bytes = 64,
       max_directory_entries = 64, max_xattr_bytes = 64, max_symlink_target_bytes = 64\<rparr>,
     disp_sequences = [], disp_poisoned = False\<rparr>"

lemma sample_dispatch_ok: "resp_ok (fst (dispatch 0 sample_dispatcher sample_unlink sample_metadata))"
  by code_simp

text \<open>
  C15: the dispatcher changes its state (the service's, or the sequence numbers)
  or answers with success only for a request that is valid, matches its
  metadata, has not expired, respects the limits and is authorized.
\<close>

theorem dispatch_guarded:
  assumes "snd (dispatch now d request metadata) \<noteq> d
    \<or> resp_ok (fst (dispatch now d request metadata))"
  shows "dispatch_admitted now d request metadata"
  by (cases rule: dispatch_cases [of now d request metadata])
    (use assms in \<open>auto simp: validate_before_handler_ok\<close>)

theorem dispatch_guarded_witness:
  "dispatch_admitted 0 sample_dispatcher sample_unlink sample_metadata"
  by (rule dispatch_guarded) (simp add: sample_dispatch_ok)

section \<open>Invalidation sequence numbers\<close>

lemma dispatch_failure_quiet:
  assumes "\<not> resp_ok (fst (dispatch now d request metadata))"
  shows "resp_invalidations (fst (dispatch now d request metadata)) = []
    \<and> disp_sequences (snd (dispatch now d request metadata)) = disp_sequences d
    \<and> disp_poisoned (snd (dispatch now d request metadata)) = disp_poisoned d"
proof (cases rule: dispatch_cases [of now d request metadata])
  case (succeeded payload s' invs d' response)
  with assms show ?thesis using success_for_fields by fastforce
qed simp_all

lemma dispatch_success_invalidations:
  assumes "resp_ok (fst (dispatch now d request metadata))"
  obtains payload s' where
    "resp_payload (fst (dispatch now d request metadata)) = Some payload"
    "validate_request request = Ok ()"
    "invalidations_for_success (d\<lparr>disp_state := s'\<rparr>) request payload =
      (resp_invalidations (fst (dispatch now d request metadata)),
       snd (dispatch now d request metadata))"
proof (cases rule: dispatch_cases [of now d request metadata])
  case (rejected e)
  with assms show ?thesis by simp
next
  case (failed s' e m)
  with assms show ?thesis by simp
next
  case (succeeded payload s' invs d' response)
  with success_for_fields [of request payload invs response] show ?thesis
    by (intro that [of payload s']) (auto dest: validate_before_handler_valid)
qed

lemma seq_next_state [simp]: "seq_next (d\<lparr>disp_state := s\<rparr>) = seq_next d"
  by (rule ext) (simp add: seq_next_def)

lemma seq_next_insert:
  "seq_next (e\<lparr>disp_sequences := hm_insert ns v (disp_sequences d)\<rparr>) = (seq_next d)(ns := v)"
  by (rule ext) (simp add: seq_next_def)

lemma dispatch_reports_aux:
  assumes "\<not> disp_poisoned d"
  shows "case dispatch now d request metadata of (response, d') \<Rightarrow>
    if \<not> resp_ok response
    then resp_invalidations response = [] \<and> seq_next d' = seq_next d
    else (case invalidation_kind_for_request (req_payload request) of
        None \<Rightarrow> resp_invalidations response = [] \<and> seq_next d' = seq_next d
      | Some kind \<Rightarrow> (\<exists>i payload. resp_invalidations response = [i]
          \<and> resp_payload response = Some payload \<and> reports kind request payload i
          \<and> inv_sequence i = seq_next d (req_namespace request)
          \<and> seq_next d' = (seq_next d)(req_namespace request := inv_sequence i + 1)))"
proof -
  obtain response d' where dd: "dispatch now d request metadata = (response, d')" by fastforce
  show ?thesis
  proof (cases "resp_ok response")
    case False
    then show ?thesis using dispatch_failure_quiet [of now d request metadata] dd
      by (auto simp: seq_next_def)
  next
    case True
    with dd have "resp_ok (fst (dispatch now d request metadata))" by simp
    then obtain payload s' where p: "resp_payload response = Some payload"
      and v: "validate_request request = Ok ()"
      and i: "invalidations_for_success (d\<lparr>disp_state := s'\<rparr>) request payload
          = (resp_invalidations response, d')"
      by (rule dispatch_success_invalidations) (simp_all add: dd)
    show ?thesis
    proof (cases "invalidation_kind_for_request (req_payload request)")
      case None
      with i have "resp_invalidations response = []" "d' = d\<lparr>disp_state := s'\<rparr>"
        by (auto simp: invalidations_for_success_None)
      with None dd True show ?thesis by simp
    next
      case (Some kind)
      have "\<not> disp_poisoned (d\<lparr>disp_state := s'\<rparr>)" using assms by simp
      from invalidations_for_success_reports [OF Some this v, of payload] i
      show ?thesis using Some dd True p by (auto simp: seq_next_insert)
    qed
  qed
qed

text \<open>
  C13: on a dispatcher whose sequence map is healthy, a successful request reports
  exactly the invalidation its operation calls for, with the paths of the
  request, the inode it created and the next sequence number of its namespace,
  which only then advances; a failed request reports nothing and leaves every
  sequence number alone.
\<close>

theorem dispatch_reports:
  assumes "\<not> disp_poisoned d"
  shows "case dispatch now d request metadata of (response, d') \<Rightarrow>
    if \<not> resp_ok response
    then resp_invalidations response = [] \<and> seq_next d' = seq_next d
    else (case invalidation_kind_for_request (req_payload request) of
        None \<Rightarrow> resp_invalidations response = [] \<and> seq_next d' = seq_next d
      | Some kind \<Rightarrow> (\<exists>i payload. resp_invalidations response = [i]
          \<and> resp_payload response = Some payload \<and> reports kind request payload i
          \<and> inv_sequence i = seq_next d (req_namespace request)
          \<and> seq_next d' = (seq_next d)(req_namespace request := inv_sequence i + 1)))"
  by (rule dispatch_reports_aux [OF assms])

theorem dispatch_reports_witness:
  "\<exists>i. resp_invalidations (fst (dispatch 0 sample_dispatcher sample_unlink sample_metadata)) = [i]
    \<and> inv_sequence i = 1 \<and> inv_path i = ''/a''"
proof -
  have h: "\<not> disp_poisoned sample_dispatcher" by code_simp
  have k: "invalidation_kind_for_request (req_payload sample_unlink) = Some Inv_Delete" by code_simp
  have n: "seq_next sample_dispatcher (req_namespace sample_unlink) = 1" by code_simp
  have p: "primary_path (req_payload sample_unlink) = Some ''/a''" by code_simp
  from dispatch_reports [OF h, where now = 0 and request = sample_unlink and metadata = sample_metadata]
  show ?thesis using sample_dispatch_ok k n p by (auto simp: reports_def split: prod.splits)
qed

text \<open>
  C16: a dispatcher whose sequence map was poisoned by a panic recovers at the next
  successful request that must report an invalidation: it answers with a full
  resync carrying sequence number zero, clears the poison and restarts every
  namespace at one.
\<close>

theorem dispatch_poison_recovery:
  assumes "disp_poisoned d" "dispatch now d request metadata = (response, d')"
    "resp_ok response" "invalidation_kind_for_request (req_payload request) = Some kind"
  shows "resp_invalidations response =
      [full_resync_invalidation (req_namespace request) (req_request_id request) 0]
    \<and> \<not> disp_poisoned d' \<and> seq_next d' = (\<lambda>_. 1)"
proof -
  from assms have "resp_ok (fst (dispatch now d request metadata))" by simp
  then obtain payload s' where
    "invalidations_for_success (d\<lparr>disp_state := s'\<rparr>) request payload
      = (resp_invalidations response, d')"
    by (rule dispatch_success_invalidations) (simp add: assms)
  moreover have "disp_poisoned (d\<lparr>disp_state := s'\<rparr>)" using assms by simp
  note invalidations_for_success_poisoned [OF assms(4) this, of payload]
  ultimately show ?thesis by (auto simp: seq_next_def)
qed

theorem dispatch_poison_recovery_witness:
  "\<exists>response d'. dispatch 0 (sample_dispatcher\<lparr>disp_poisoned := True\<rparr>) sample_unlink sample_metadata
      = (response, d')
    \<and> resp_invalidations response = [full_resync_invalidation ''n'' ''r'' 0] \<and> seq_next d' ''n'' = 1"
proof -
  let ?d = "sample_dispatcher\<lparr>disp_poisoned := True\<rparr>"
  obtain response d' where r: "dispatch 0 ?d sample_unlink sample_metadata = (response, d')"
    by fastforce
  have p: "disp_poisoned ?d" by simp
  have ok: "resp_ok (fst (dispatch 0 ?d sample_unlink sample_metadata))" by code_simp
  have k: "invalidation_kind_for_request (req_payload sample_unlink) = Some Inv_Delete" by code_simp
  have "req_namespace sample_unlink = ''n''" "req_request_id sample_unlink = ''r''" by code_simp+
  with dispatch_poison_recovery [OF p r _ k] ok r show ?thesis by simp
qed

text \<open>
  A component that hands out numbers per key: each step issues nothing, or the
  next number of one key, which it then advances.
\<close>

fun run_steps :: "('e \<Rightarrow> 'd \<Rightarrow> 'o list \<times> 'd) \<Rightarrow> 'e list \<Rightarrow> 'd \<Rightarrow> 'o list \<times> 'd" where
  "run_steps step [] d = ([], d)"
| "run_steps step (e # es) d =
     (case step e d of (out, d') \<Rightarrow> (case run_steps step es d' of (outs, d'') \<Rightarrow> (out @ outs, d'')))"

definition issued_for :: "'k \<Rightarrow> ('k \<times> u64) list \<Rightarrow> u64 list" where
  "issued_for key out = map snd (filter (\<lambda>(k, n). k = key) out)"

locale sequencer =
  fixes healthy :: "'d \<Rightarrow> bool"
    and peek :: "'d \<Rightarrow> 'k \<Rightarrow> u64"
    and step :: "'e \<Rightarrow> 'd \<Rightarrow> ('k \<times> u64) list \<times> 'd"
  assumes step_healthy: "healthy d \<Longrightarrow> healthy (snd (step e d))"
    and step_issue: "healthy d \<Longrightarrow>
      (fst (step e d) = [] \<and> peek (snd (step e d)) = peek d)
      \<or> (\<exists>k. fst (step e d) = [(k, peek d k)]
          \<and> peek (snd (step e d)) = (peek d)(k := peek d k + 1))"
begin

lemma run_healthy: "healthy d \<Longrightarrow> healthy (snd (run_steps step es d))"
proof (induction es arbitrary: d)
  case (Cons e es)
  then show ?case
    using step_healthy [of d e] Cons.IH [of "snd (step e d)"]
    by (simp add: case_prod_beta)
qed simp

lemma run_contiguous:
  "healthy d \<Longrightarrow>
    issued_for key (fst (run_steps step es d))
      = map (\<lambda>j. peek d key + of_nat j)
          [0..<length (issued_for key (fst (run_steps step es d)))]
    \<and> peek (snd (run_steps step es d)) key
      = peek d key + of_nat (length (issued_for key (fst (run_steps step es d))))"
proof (induction es arbitrary: d)
  case Nil
  then show ?case by (simp add: issued_for_def)
next
  case (Cons e es)
  obtain out d1 where s: "step e d = (out, d1)" by fastforce
  obtain outs d2 where r: "run_steps step es d1 = (outs, d2)" by fastforce
  have h: "healthy d1" using step_healthy [OF Cons.prems, of e] s by simp
  note ih = Cons.IH [OF h, unfolded r, simplified]
  have all: "run_steps step (e # es) d = (out @ outs, d2)" using s r by simp
  from step_issue [OF Cons.prems, of e] s
  have "issued_for key out = [] \<and> peek d1 key = peek d key
    \<or> issued_for key out = [peek d key] \<and> peek d1 key = peek d key + 1"
    by (auto simp: issued_for_def)
  then consider "issued_for key out = []" "peek d1 key = peek d key"
    | "issued_for key out = [peek d key]" "peek d1 key = peek d key + 1"
    by blast
  then show ?case
  proof cases
    case 1
    then have "issued_for key (out @ outs) = issued_for key outs" by (simp add: issued_for_def)
    with 1 ih all show ?thesis by simp
  next
    case 2
    then have a: "issued_for key (out @ outs) = peek d key # issued_for key outs"
      by (simp add: issued_for_def)
    let ?n = "length (issued_for key outs)"
    have "map (\<lambda>j. peek d key + of_nat j) [0..<Suc ?n]
        = peek d key # map (\<lambda>j. peek d key + 1 + of_nat j) [0..<?n]"
      by (simp add: map_upt_Suc add.assoc del: upt_Suc)
    with 2 ih all a show ?thesis by (simp add: add.assoc del: upt_Suc)
  qed
qed

end

definition dispatch_issue ::
    "u64 \<times> RequestEnvelope \<times> RpcMetadata \<Rightarrow> 's Dispatcher \<Rightarrow> (string \<times> u64) list \<times> 's Dispatcher" where
  "dispatch_issue call d =
    (case call of (now, request, metadata) \<Rightarrow>
      (case dispatch now d request metadata of (response, d') \<Rightarrow>
        (map (\<lambda>i. (inv_namespace i, inv_sequence i)) (resp_invalidations response), d')))"

lemma dispatch_healthy:
  assumes "\<not> disp_poisoned d"
  shows "\<not> disp_poisoned (snd (dispatch now d request metadata))"
proof (cases rule: dispatch_cases [of now d request metadata])
  case (succeeded payload s' invs d' response)
  then show ?thesis
    using assms by (auto simp: invalidations_for_success_def next_invalidation_sequence_def Let_def
        split: option.splits if_splits)
qed (use assms in auto)

lemma dispatch_issue_step:
  assumes "\<not> disp_poisoned d"
  shows "(fst (dispatch_issue call d) = [] \<and> seq_next (snd (dispatch_issue call d)) = seq_next d)
    \<or> (\<exists>k. fst (dispatch_issue call d) = [(k, seq_next d k)]
        \<and> seq_next (snd (dispatch_issue call d)) = (seq_next d)(k := seq_next d k + 1))"
proof -
  obtain now request metadata where c: "call = (now, request, metadata)" by (cases call) auto
  obtain response d' where "dispatch now d request metadata = (response, d')" by fastforce
  with dispatch_reports_aux [OF assms, where now = now and request = request and metadata = metadata] c show ?thesis
    by (auto simp: dispatch_issue_def reports_def split: if_splits option.splits)
qed

interpretation dispatch_seq: sequencer "\<lambda>d. \<not> disp_poisoned d" seq_next dispatch_issue
proof
  show "\<not> disp_poisoned (snd (dispatch_issue e d))" if "\<not> disp_poisoned d"
    for d :: "'a Dispatcher" and e
    using dispatch_healthy [OF that, of "fst e" "fst (snd e)" "snd (snd e)"]
    by (simp add: dispatch_issue_def case_prod_beta)
qed (rule dispatch_issue_step)

text \<open>
  C12: over any run of requests through a healthy dispatcher, the sequence numbers
  reported for a namespace are consecutive, starting from the namespace's next
  number: none is skipped, repeated or taken by another namespace or by a request
  that failed.
\<close>

theorem dispatch_sequences_contiguous:
  assumes "\<not> disp_poisoned d"
  shows "issued_for namespace (fst (run_steps dispatch_issue calls d)) =
    map (\<lambda>j. seq_next d namespace + of_nat j)
      [0..<length (issued_for namespace (fst (run_steps dispatch_issue calls d)))]"
  using dispatch_seq.run_contiguous [OF assms] by blast

theorem dispatch_sequences_contiguous_witness:
  "issued_for ''n'' (fst (run_steps dispatch_issue
      [(0, sample_unlink, sample_metadata), (0, sample_unlink, sample_metadata)] sample_dispatcher))
    = [1, 2]"
proof -
  let ?calls = "[(0, sample_unlink, sample_metadata), (0, sample_unlink, sample_metadata)]"
  have h: "\<not> disp_poisoned sample_dispatcher" by code_simp
  have n: "seq_next sample_dispatcher ''n'' = 1" by code_simp
  have len: "length (issued_for ''n'' (fst (run_steps dispatch_issue ?calls sample_dispatcher))) = 2"
    by code_simp
  have e: "map (\<lambda>j. seq_next sample_dispatcher ''n'' + of_nat j) [0..<2] = [1, 2]"
    by (simp add: n upt_rec)
  show ?thesis
    by (rule dispatch_sequences_contiguous [OF h, of "''n''" ?calls, unfolded len e])
qed

section \<open>Handles of undelivered responses\<close>

lemma opened_object_iff:
  "os_response_handle (spec_for op) = Handle_OpenedObject \<longleftrightarrow> op = Op_Open \<or> op = Op_Create"
  by (cases op) simp_all

lemma opened_handle_iff:
  "opened_handle p \<noteq> None \<longleftrightarrow> response_operation p = Op_Open \<or> response_operation p = Op_Create"
  by (cases p) simp_all

text \<open>
  C17: when the response to a successful open or create cannot be delivered,
  aborting it releases exactly the handle that response opened, on the path of
  the request; aborting any other response of the dispatcher leaves the service
  alone.
\<close>

theorem abort_releases_opened_handle:
  assumes "dispatch now d request metadata = (response, d')"
  shows "if resp_ok response \<and> req_operation request \<in> {Op_Open, Op_Create}
    then (\<exists>payload handle. resp_payload response = Some payload
        \<and> opened_handle payload = Some handle
        \<and> abort_response_handles d' request metadata response =
          (case svc_release (disp_service d') (disp_state d')
              \<lparr>release_path = path_dto_for_role (req_payload request) Role_Target,
               release_handle = handle, release_flags = 0\<rparr> metadata of
             (result, s') \<Rightarrow> (map_ok (\<lambda>_. ()) result, d'\<lparr>disp_state := s'\<rparr>)))
    else abort_response_handles d' request metadata response = (Ok (), d')"
proof (cases "resp_ok response \<and> req_operation request \<in> {Op_Open, Op_Create}")
  case True
  with assms have "resp_ok (fst (dispatch now d request metadata))" by simp
  then obtain payload where p: "resp_payload response = Some payload"
    by (rule dispatch_success_invalidations) (simp add: assms)
  have "validate_response response = Ok ()"
    using dispatch_valid_aux [of now d request metadata] assms by simp
  with p True have "response_operation payload = resp_operation response"
    by (auto simp: validate_response_def validate_identity_and_payload_def ok_iffs
        split: if_splits)
  moreover have "resp_operation response = req_operation request"
    by (cases rule: dispatch_cases [of now d request metadata])
      (use assms success_for_fields in fastforce)+
  ultimately obtain handle where h: "opened_handle payload = Some handle"
    using True opened_handle_iff [of payload] by auto
  with p True have r: "release_for_handle_response request response =
      Some \<lparr>release_path = path_dto_for_role (req_payload request) Role_Target,
        release_handle = handle, release_flags = 0\<rparr>"
    by (auto simp: release_for_handle_response_def opened_object_iff)
  show ?thesis using True p h by (simp add: abort_response_handles_def r)
next
  case False
  then have "release_for_handle_response request response = None"
    by (auto simp: release_for_handle_response_def opened_object_iff)
  then show ?thesis using False by (auto simp: abort_response_handles_def)
qed

theorem abort_releases_opened_handle_witness:
  "disp_state (snd (abort_response_handles
      (snd (dispatch 0 sample_dispatcher sample_open sample_metadata)) sample_open sample_metadata
      (fst (dispatch 0 sample_dispatcher sample_open sample_metadata)))) = 8"
proof -
  let ?r = "dispatch 0 sample_dispatcher sample_open sample_metadata"
  have d: "?r = (fst ?r, snd ?r)" by simp
  have ok: "resp_ok (fst ?r)" "req_operation sample_open = Op_Open"
    "disp_state (snd ?r) = 1" by code_simp+
  have h: "Option.bind (resp_payload (fst ?r)) opened_handle = Some 7" by code_simp
  have s: "svc_release (disp_service (snd ?r)) s q m = (Ok EmptyResponse, s + unat (release_handle q))"
    for s q m
    by (simp add: dispatch_service sample_dispatcher_def sample_service_def)
  show ?thesis
    using abort_releases_opened_handle [OF d] ok h by (auto simp: s)
qed

end
