(* ===== verification/FuseCache.thy ===== *)
theory FuseCache
  imports FsCore
begin

text \<open>
  The cache kernel of the FUSE adapter, \<open>fs-fuse/src/cache.rs\<close>: the mapping
  between paths and inodes with its lookup counts, the paths retained for open
  handles, and the application of invalidations. A lock on either mutex after a
  panic runs the recovery the source has (\<open>lock_cache\<close>, \<open>lock_handles\<close>); the
  mutexes stay poisoned, as in the source. Sequence arithmetic wraps.
\<close>

section \<open>Errors and small path functions\<close>

datatype FuseError =
  FuseResponse Errno string
  | FuseTransport Errno string
  | StaleCache
  | FuseProtocol string
  | UnexpectedPayload Operation

fun fuse_error_errno :: "FuseError \<Rightarrow> Errno" where
  "fuse_error_errno (FuseResponse e _) = e"
| "fuse_error_errno (FuseTransport e _) = e"
| "fuse_error_errno StaleCache = Stale"
| "fuse_error_errno (FuseProtocol _) = InvalidArgument"
| "fuse_error_errno (UnexpectedPayload _) = InvalidArgument"

definition cache_path_is_in_subtree :: "string \<Rightarrow> string \<Rightarrow> bool" where
  "cache_path_is_in_subtree p root \<longleftrightarrow>
    (if root = [] then False
     else p = root
       \<or> (case str_strip_prefix p root of
            None \<Rightarrow> False | Some rest \<Rightarrow> starts_with_char (CHR ''/'') rest))"

definition subtree_suffix :: "string \<Rightarrow> string \<Rightarrow> string" where
  "subtree_suffix p root = (case str_strip_prefix p root of None \<Rightarrow> [] | Some rest \<Rightarrow> rest)"

definition parent_path :: "string \<Rightarrow> string" where
  "parent_path p =
    (case rsplit_once (CHR ''/'') p of
       None \<Rightarrow> ''/''
     | Some (parent, _) \<Rightarrow> if parent = [] then ''/'' else parent)"

definition validate_child_name :: "string \<Rightarrow> FuseError + unit" where
  "validate_child_name name =
    (if name = [] \<or> CHR ''/'' \<in> set name \<or> contains_nul name
     then Err (FuseProtocol ''invalid child name'') else Ok ())"

definition join_child_path :: "string \<Rightarrow> string \<Rightarrow> string" where
  "join_child_path parent name =
    (if parent = ''/'' then ''/'' @ name else parent @ ''/'' @ name)"

section \<open>The path cache\<close>

record PathCache =
  path_to_inode :: "(string, u64) hash_map"
  inode_to_paths :: "(u64, string btree_set) hash_map"
  lookup_counts :: "(u64, u64) hash_map"
  pc_poisoned :: bool
  last_sequence :: u64

definition remove_inode_path :: "PathCache \<Rightarrow> u64 \<Rightarrow> string \<Rightarrow> PathCache" where
  "remove_inode_path c inode p =
    (case hm_get (inode_to_paths c) inode of
       None \<Rightarrow> c\<lparr>lookup_counts := hm_remove inode (lookup_counts c)\<rparr>
     | Some paths \<Rightarrow>
        (let paths' = bts_remove p paths in
         if paths' = []
         then c\<lparr>inode_to_paths := hm_remove inode (inode_to_paths c),
                lookup_counts := hm_remove inode (lookup_counts c)\<rparr>
         else c\<lparr>inode_to_paths := hm_insert inode paths' (inode_to_paths c)\<rparr>))"

definition detach_inode_path_for_rename :: "PathCache \<Rightarrow> u64 \<Rightarrow> string \<Rightarrow> PathCache" where
  "detach_inode_path_for_rename c inode p =
    (case hm_get (inode_to_paths c) inode of
       None \<Rightarrow> c
     | Some paths \<Rightarrow>
        (let paths' = bts_remove p paths in
         if paths' = [] then c\<lparr>inode_to_paths := hm_remove inode (inode_to_paths c)\<rparr>
         else c\<lparr>inode_to_paths := hm_insert inode paths' (inode_to_paths c)\<rparr>))"

text \<open>The two insertions with which \<open>insert\<close> and \<open>rename\<close> record a path of an inode.\<close>

definition record_path :: "PathCache \<Rightarrow> string \<Rightarrow> u64 \<Rightarrow> PathCache" where
  "record_path c p inode =
    c\<lparr>path_to_inode := hm_insert p inode (path_to_inode c),
      inode_to_paths := hm_insert inode
        (bts_insert p (case hm_get (inode_to_paths c) inode of None \<Rightarrow> [] | Some s \<Rightarrow> s))
        (inode_to_paths c)\<rparr>"

definition cache_insert :: "PathCache \<Rightarrow> string \<Rightarrow> u64 \<Rightarrow> PathCache" where
  "cache_insert c p inode =
    (if inode = 0 then c
     else record_path
       (case hm_get (path_to_inode c) p of
          None \<Rightarrow> c
        | Some old_inode \<Rightarrow> if old_inode \<noteq> inode then remove_inode_path c old_inode p else c)
       p inode)"

definition PathCache_new :: PathCache where
  "PathCache_new = cache_insert \<lparr>path_to_inode = [], inode_to_paths = [], lookup_counts = [],
     pc_poisoned = False, last_sequence = 0\<rparr> ''/'' 1"

definition add_lookup :: "PathCache \<Rightarrow> u64 \<Rightarrow> u64 \<Rightarrow> PathCache" where
  "add_lookup c inode count =
    (if inode = 0 \<or> inode = 1 \<or> count = 0 \<or> hm_get (inode_to_paths c) inode = None then c
     else c\<lparr>lookup_counts := hm_insert inode
       (saturating_add
         (case hm_get (lookup_counts c) inode of None \<Rightarrow> 0 | Some n \<Rightarrow> n) count)
       (lookup_counts c)\<rparr>)"

definition cache_insert_lookup :: "PathCache \<Rightarrow> string \<Rightarrow> u64 \<Rightarrow> u64 \<Rightarrow> PathCache" where
  "cache_insert_lookup c p inode count = add_lookup (cache_insert c p inode) inode count"

definition remove_inode :: "PathCache \<Rightarrow> u64 \<Rightarrow> PathCache" where
  "remove_inode c inode =
    (if inode = 1 then c
     else (case hm_get (inode_to_paths c) inode of
         None \<Rightarrow> c\<lparr>lookup_counts := hm_remove inode (lookup_counts c)\<rparr>
       | Some paths \<Rightarrow> c\<lparr>inode_to_paths := hm_remove inode (inode_to_paths c),
           path_to_inode := fold hm_remove paths (path_to_inode c),
           lookup_counts := hm_remove inode (lookup_counts c)\<rparr>))"

definition cache_forget :: "PathCache \<Rightarrow> u64 \<Rightarrow> u64 \<Rightarrow> PathCache" where
  "cache_forget c inode nlookup =
    (if inode = 1 \<or> nlookup = 0 then c
     else (case hm_get (lookup_counts c) inode of
         None \<Rightarrow> remove_inode c inode
       | Some count \<Rightarrow>
          if count > nlookup
          then c\<lparr>lookup_counts := hm_insert inode (count - nlookup) (lookup_counts c)\<rparr>
          else remove_inode (c\<lparr>lookup_counts := hm_remove inode (lookup_counts c)\<rparr>) inode))"

definition paths_in_subtree :: "PathCache \<Rightarrow> string \<Rightarrow> (u64 \<times> string) list" where
  "paths_in_subtree c p =
    map (\<lambda>(cached_path, inode). (inode, cached_path))
      (filter (\<lambda>(cached_path, inode). cache_path_is_in_subtree cached_path p) (path_to_inode c))"

text \<open>One cached path dropped, as the loops over a subtree do.\<close>

definition drop_cached_path :: "u64 \<times> string \<Rightarrow> PathCache \<Rightarrow> PathCache" where
  "drop_cached_path entry c =
    (case entry of (inode, cached_path) \<Rightarrow>
      remove_inode_path (c\<lparr>path_to_inode := hm_remove cached_path (path_to_inode c)\<rparr>)
        inode cached_path)"

definition remove_path :: "PathCache \<Rightarrow> string \<Rightarrow> PathCache" where
  "remove_path c p =
    (if p = [] \<or> p = ''/'' then c else fold drop_cached_path (paths_in_subtree c p) c)"

definition remove_subtree_except :: "PathCache \<Rightarrow> string \<Rightarrow> (u64 \<times> string) list \<Rightarrow> PathCache" where
  "remove_subtree_except c p except =
    fold (\<lambda>entry c. if snd entry \<in> set (map snd except) then c else drop_cached_path entry c)
      (paths_in_subtree c p) c"

text \<open>One path moved, the body of the loop of \<open>rename\<close>.\<close>

definition move_cached_path :: "string \<Rightarrow> string \<Rightarrow> u64 \<times> string \<Rightarrow> PathCache \<Rightarrow> PathCache" where
  "move_cached_path old_path new_path entry c =
    (case entry of (inode, p) \<Rightarrow>
      record_path
        (detach_inode_path_for_rename (c\<lparr>path_to_inode := hm_remove p (path_to_inode c)\<rparr>) inode p)
        (new_path @ subtree_suffix p old_path) inode)"

definition cache_rename :: "PathCache \<Rightarrow> string \<Rightarrow> string \<Rightarrow> string + PathCache" where
  "cache_rename c old_path new_path =
    try_seq (map_err protocol_error_to_string (validate_rename_paths old_path new_path))
    (let moved = paths_in_subtree c old_path
     in Ok (fold (move_cached_path old_path new_path) moved
         (remove_subtree_except c new_path moved)))"

definition cache_poison :: "PathCache \<Rightarrow> PathCache" where
  "cache_poison c = cache_insert
    (c\<lparr>pc_poisoned := True, path_to_inode := [], inode_to_paths := [], lookup_counts := []\<rparr>)
    ''/'' 1"

definition reset_with_sequence :: "PathCache \<Rightarrow> u64 \<Rightarrow> PathCache" where
  "reset_with_sequence c sequence = cache_insert
    (c\<lparr>pc_poisoned := False, path_to_inode := [], inode_to_paths := [], lookup_counts := [],
       last_sequence := sequence\<rparr>)
    ''/'' 1"

definition can_accept_noncontiguous_sequence :: "PathCache \<Rightarrow> bool" where
  "can_accept_noncontiguous_sequence c \<longleftrightarrow>
    \<not> pc_poisoned c \<and> length (path_to_inode c) = 1 \<and> hm_get (path_to_inode c) ''/'' = Some 1
    \<and> length (inode_to_paths c) = 1
    \<and> (case hm_get (inode_to_paths c) 1 of
         None \<Rightarrow> False | Some paths \<Rightarrow> length paths = 1 \<and> ''/'' \<in> set paths)
    \<and> lookup_counts c = []"

definition representative_path :: "PathCache \<Rightarrow> u64 \<Rightarrow> string option" where
  "representative_path c inode = Option.bind (hm_get (inode_to_paths c) inode) bts_first"

definition cache_path_for_inode :: "PathCache \<Rightarrow> u64 \<Rightarrow> FuseError + string" where
  "cache_path_for_inode c inode =
    (if pc_poisoned c then Err StaleCache else ok_or StaleCache (representative_path c inode))"

definition cache_child_path :: "PathCache \<Rightarrow> u64 \<Rightarrow> string \<Rightarrow> FuseError + string" where
  "cache_child_path c parent name =
    try_seq (validate_child_name name)
    (try_bind (cache_path_for_inode c parent) (\<lambda>parent. Ok (join_child_path parent name)))"

definition parent_inode_for_path :: "PathCache \<Rightarrow> string \<Rightarrow> FuseError + u64" where
  "parent_inode_for_path c p =
    (if pc_poisoned c then Err StaleCache
     else if p = ''/'' then Ok 1
     else ok_or StaleCache (hm_get (path_to_inode c) (parent_path p)))"

definition cache_parent_inode :: "PathCache \<Rightarrow> u64 \<Rightarrow> FuseError + u64" where
  "cache_parent_inode c inode =
    try_bind (cache_path_for_inode c inode) (parent_inode_for_path c)"

section \<open>The kernel\<close>

record OpenHandleKey =
  ohk_inode :: u64
  ohk_handle :: u64

record CacheKernel =
  ck_cache :: PathCache
  ck_open_handles :: "(OpenHandleKey, string) hash_map"
  ck_cache_lock_poisoned :: bool
  ck_handles_lock_poisoned :: bool

definition CacheKernel_new :: CacheKernel where
  "CacheKernel_new =
    \<lparr>ck_cache = PathCache_new, ck_open_handles = [], ck_cache_lock_poisoned = False,
     ck_handles_lock_poisoned = False\<rparr>"

definition lock_cache :: "CacheKernel \<Rightarrow> CacheKernel" where
  "lock_cache k =
    (if ck_cache_lock_poisoned k then k\<lparr>ck_cache := cache_poison (ck_cache k)\<rparr> else k)"

definition lock_handles :: "CacheKernel \<Rightarrow> CacheKernel" where
  "lock_handles k = (if ck_handles_lock_poisoned k then k\<lparr>ck_open_handles := []\<rparr> else k)"

text \<open>A locked update of the cache.\<close>

definition with_cache :: "(PathCache \<Rightarrow> PathCache) \<Rightarrow> CacheKernel \<Rightarrow> CacheKernel" where
  "with_cache f k = (let k = lock_cache k in k\<lparr>ck_cache := f (ck_cache k)\<rparr>)"

definition with_cache_snapshot :: "CacheKernel \<Rightarrow> (PathCache \<Rightarrow> FuseError + 'a)
    \<Rightarrow> (FuseError + 'a) \<times> CacheKernel" where
  "with_cache_snapshot k f = (let k = lock_cache k in (f (ck_cache k), k))"

definition with_cache_and_handles_snapshot ::
    "CacheKernel \<Rightarrow> (PathCache \<Rightarrow> (OpenHandleKey, string) hash_map \<Rightarrow> FuseError + 'a)
      \<Rightarrow> (FuseError + 'a) \<times> CacheKernel" where
  "with_cache_and_handles_snapshot k f =
    (let k = lock_handles (lock_cache k) in (f (ck_cache k) (ck_open_handles k), k))"

definition insert_lookup :: "CacheKernel \<Rightarrow> string \<Rightarrow> u64 \<Rightarrow> u64 \<Rightarrow> CacheKernel" where
  "insert_lookup k p inode count = with_cache (\<lambda>c. cache_insert_lookup c p inode count) k"

definition forget :: "CacheKernel \<Rightarrow> u64 \<Rightarrow> u64 \<Rightarrow> CacheKernel" where
  "forget k inode nlookup = with_cache (\<lambda>c. cache_forget c inode nlookup) k"

definition kernel_poison :: "CacheKernel \<Rightarrow> CacheKernel" where
  "kernel_poison k = with_cache cache_poison k"

definition cached_path :: "CacheKernel \<Rightarrow> u64 \<Rightarrow> string option \<times> CacheKernel" where
  "cached_path k inode = (let k = lock_cache k in (representative_path (ck_cache k) inode, k))"

definition kernel_poisoned :: "CacheKernel \<Rightarrow> bool \<times> CacheKernel" where
  "kernel_poisoned k = (let k = lock_cache k in (pc_poisoned (ck_cache k), k))"

definition kernel_parent_inode :: "CacheKernel \<Rightarrow> u64 \<Rightarrow> (FuseError + u64) \<times> CacheKernel" where
  "kernel_parent_inode k inode = with_cache_snapshot k (\<lambda>c. cache_parent_inode c inode)"

definition kernel_path_for_inode :: "CacheKernel \<Rightarrow> u64 \<Rightarrow> (FuseError + string) \<times> CacheKernel" where
  "kernel_path_for_inode k inode = with_cache_snapshot k (\<lambda>c. cache_path_for_inode c inode)"

definition kernel_child_path ::
    "CacheKernel \<Rightarrow> u64 \<Rightarrow> string \<Rightarrow> (FuseError + string) \<times> CacheKernel" where
  "kernel_child_path k parent name = with_cache_snapshot k (\<lambda>c. cache_child_path c parent name)"

definition path_for_handle_bound_call :: "PathCache \<Rightarrow> (OpenHandleKey, string) hash_map
    \<Rightarrow> u64 \<Rightarrow> u64 \<Rightarrow> FuseError + string" where
  "path_for_handle_bound_call c handles inode handle =
    (case hm_get handles \<lparr>ohk_inode = inode, ohk_handle = handle\<rparr> of
       Some p \<Rightarrow> Ok p
     | None \<Rightarrow>
        (if \<not> pc_poisoned c
         then (case representative_path c inode of
             Some p \<Rightarrow> Ok p | None \<Rightarrow> Err StaleCache)
         else Err StaleCache))"

definition kernel_path_for_handle_bound_call ::
    "CacheKernel \<Rightarrow> u64 \<Rightarrow> u64 \<Rightarrow> (FuseError + string) \<times> CacheKernel" where
  "kernel_path_for_handle_bound_call k inode handle =
    with_cache_and_handles_snapshot k (\<lambda>c handles. path_for_handle_bound_call c handles inode handle)"

definition path_for_release ::
    "CacheKernel \<Rightarrow> u64 \<Rightarrow> u64 \<Rightarrow> (FuseError + string) \<times> CacheKernel" where
  "path_for_release k inode handle = kernel_path_for_handle_bound_call k inode handle"

definition remember_handle_path :: "CacheKernel \<Rightarrow> u64 \<Rightarrow> u64 \<Rightarrow> string \<Rightarrow> CacheKernel" where
  "remember_handle_path k inode handle p =
    (let k = lock_handles k
     in k\<lparr>ck_open_handles :=
         hm_insert \<lparr>ohk_inode = inode, ohk_handle = handle\<rparr> p (ck_open_handles k)\<rparr>)"

definition forget_handle_path :: "CacheKernel \<Rightarrow> u64 \<Rightarrow> u64 \<Rightarrow> CacheKernel" where
  "forget_handle_path k inode handle =
    (let k = lock_handles k
     in k\<lparr>ck_open_handles :=
         hm_remove \<lparr>ohk_inode = inode, ohk_handle = handle\<rparr> (ck_open_handles k)\<rparr>)"

definition parent_and_path_for_inode ::
    "CacheKernel \<Rightarrow> u64 \<Rightarrow> (FuseError + u64 \<times> string) \<times> CacheKernel" where
  "parent_and_path_for_inode k inode = with_cache_snapshot k (\<lambda>c.
    try_bind (cache_path_for_inode c inode) (\<lambda>p.
    try_bind (parent_inode_for_path c p) (\<lambda>parent. Ok (parent, p))))"

definition rename_paths ::
    "CacheKernel \<Rightarrow> u64 \<Rightarrow> string \<Rightarrow> u64 \<Rightarrow> string \<Rightarrow> (FuseError + string \<times> string) \<times> CacheKernel" where
  "rename_paths k old_parent old_name new_parent new_name = with_cache_snapshot k (\<lambda>c.
    try_bind (cache_child_path c old_parent old_name) (\<lambda>old.
    try_bind (cache_child_path c new_parent new_name) (\<lambda>new. Ok (old, new))))"

definition hardlink_paths ::
    "CacheKernel \<Rightarrow> u64 \<Rightarrow> u64 \<Rightarrow> string \<Rightarrow> (FuseError + string \<times> string) \<times> CacheKernel" where
  "hardlink_paths k inode new_parent new_name = with_cache_snapshot k (\<lambda>c.
    try_bind (cache_path_for_inode c inode) (\<lambda>existing.
    try_bind (cache_child_path c new_parent new_name) (\<lambda>new. Ok (existing, new))))"

definition copy_file_range_paths ::
    "CacheKernel \<Rightarrow> u64 \<Rightarrow> u64 \<Rightarrow> u64 \<Rightarrow> u64 \<Rightarrow> (FuseError + string \<times> string) \<times> CacheKernel" where
  "copy_file_range_paths k input_inode input_handle output_inode output_handle =
    with_cache_and_handles_snapshot k (\<lambda>c handles.
      try_bind (path_for_handle_bound_call c handles input_inode input_handle) (\<lambda>i.
      try_bind (path_for_handle_bound_call c handles output_inode output_handle) (\<lambda>out.
        Ok (i, out))))"

definition rename_handle_paths ::
    "string \<Rightarrow> string \<Rightarrow> (OpenHandleKey, string) hash_map \<Rightarrow> (OpenHandleKey, string) hash_map" where
  "rename_handle_paths old_path new_path handles =
    map (\<lambda>(key, p). (key,
      if cache_path_is_in_subtree p old_path then new_path @ subtree_suffix p old_path else p))
      handles"

section \<open>Applying invalidations\<close>

record InvalidationApplyOutcome =
  outcome_full_resync :: bool

text \<open>The cache update of a contiguous invalidation that is neither a rename nor a resync.\<close>

definition apply_kind :: "InvalidationKind \<Rightarrow> Invalidation \<Rightarrow> PathCache \<Rightarrow> PathCache" where
  "apply_kind kind i c =
    (case kind of
       Inv_Create \<Rightarrow>
         if inv_inode i = 0 then remove_path c (inv_path i)
         else cache_insert c (inv_path i) (inv_inode i)
     | Inv_Delete \<Rightarrow> remove_path c (inv_path i)
     | _ \<Rightarrow> c)"

definition apply_contiguous :: "InvalidationKind \<Rightarrow> Invalidation \<Rightarrow> CacheKernel
    \<Rightarrow> (FuseError + InvalidationApplyOutcome) \<times> CacheKernel" where
  "apply_contiguous kind i k =
    (if kind = Inv_Rename
     then (case cache_rename (ck_cache k) (inv_old_path i) (inv_new_path i) of
         Err error \<Rightarrow> (Err (FuseProtocol error), k\<lparr>ck_cache := cache_poison (ck_cache k)\<rparr>)
       | Ok c \<Rightarrow>
          (let k = lock_handles (k\<lparr>ck_cache := c\<rparr>)
           in (Ok \<lparr>outcome_full_resync = False\<rparr>,
               k\<lparr>ck_open_handles :=
                   rename_handle_paths (inv_old_path i) (inv_new_path i) (ck_open_handles k),
                 ck_cache := (ck_cache k)\<lparr>last_sequence := inv_sequence i\<rparr>\<rparr>)))
     else (Ok \<lparr>outcome_full_resync = False\<rparr>,
       k\<lparr>ck_cache := (apply_kind kind i (ck_cache k))\<lparr>last_sequence := inv_sequence i\<rparr>\<rparr>))"

definition apply_invalidation :: "string \<Rightarrow> Invalidation \<Rightarrow> bool \<Rightarrow> CacheKernel
    \<Rightarrow> (FuseError + InvalidationApplyOutcome) \<times> CacheKernel" where
  "apply_invalidation namespace i allow_empty_sequence_baseline k =
    (if inv_namespace i = []
     then (Err (FuseProtocol ''invalidation namespace must not be empty''), kernel_poison k)
     else if inv_namespace i \<noteq> namespace then (Ok \<lparr>outcome_full_resync = False\<rparr>, k)
     else case validate_invalidation i of
       Err error \<Rightarrow> (Err (FuseProtocol (protocol_error_to_string error)), kernel_poison k)
     | Ok _ \<Rightarrow>
        (case invalidation_kind_try_from (inv_kind i) of
           Err error \<Rightarrow> (Err (FuseProtocol (protocol_error_to_string error)), k)
         | Ok kind \<Rightarrow>
            (let k = lock_cache k in
             if kind = Inv_FullResync
             then (Ok \<lparr>outcome_full_resync = True\<rparr>,
                   k\<lparr>ck_cache := reset_with_sequence (ck_cache k) (inv_sequence i)\<rparr>)
             else if inv_sequence i \<noteq> last_sequence (ck_cache k) + 1
             then (let k = lock_handles k;
                       k = (if kind = Inv_Rename
                            then k\<lparr>ck_open_handles := rename_handle_paths (inv_old_path i)
                                (inv_new_path i) (ck_open_handles k)\<rparr>
                            else k)
                   in if inv_sequence i = 0 \<or> \<not> allow_empty_sequence_baseline
                         \<or> ck_open_handles k \<noteq> []
                         \<or> \<not> can_accept_noncontiguous_sequence (ck_cache k)
                      then (Err StaleCache, k\<lparr>ck_cache := cache_poison (ck_cache k)\<rparr>)
                      else apply_contiguous kind i
                        (k\<lparr>ck_cache := (ck_cache k)\<lparr>last_sequence := inv_sequence i - 1\<rparr>\<rparr>))
             else apply_contiguous kind i k)))"

definition kernel_apply_success_response_invalidation ::
    "string \<Rightarrow> Invalidation \<Rightarrow> CacheKernel \<Rightarrow> (FuseError + unit) \<times> CacheKernel" where
  "kernel_apply_success_response_invalidation namespace i k =
    (case apply_invalidation namespace i False k of
       (Ok _, k') \<Rightarrow> (Ok (), k')
     | (Err error, k') \<Rightarrow> (if error = StaleCache then Ok () else Err error, k'))"

section \<open>Coverage of mutations\<close>

datatype RequiredPathInvalidation =
  Required_Create string u64
  | Required_Delete string
  | Required_Rename string string
  | Required_Update string InvalidationKind

fun cache_invalidation_kind_for_effect :: "OperationEffect \<Rightarrow> InvalidationKind option" where
  "cache_invalidation_kind_for_effect Eff_ContentMutation = Some Inv_Modify"
| "cache_invalidation_kind_for_effect Eff_CreateNode = Some Inv_Create"
| "cache_invalidation_kind_for_effect Eff_RenameNode = Some Inv_Rename"
| "cache_invalidation_kind_for_effect Eff_DeleteNode = Some Inv_Delete"
| "cache_invalidation_kind_for_effect Eff_MetadataMutation = Some Inv_Metadata"
| "cache_invalidation_kind_for_effect Eff_XattrMutation = Some Inv_Xattr"
| "cache_invalidation_kind_for_effect _ = None"

text \<open>The part of \<open>for_request_and_response\<close> for requests other than an open.\<close>

definition required_for_effect ::
    "OperationEffect \<Rightarrow> RequestPayload \<Rightarrow> ResponsePayload \<Rightarrow> RequiredPathInvalidation option" where
  "required_for_effect effect request response =
    (case effect of
       Eff_CreateNode \<Rightarrow>
         Option.bind (primary_path request) (\<lambda>p.
         map_option (Required_Create p) (created_inode response))
     | Eff_DeleteNode \<Rightarrow> map_option Required_Delete (primary_path request)
     | Eff_RenameNode \<Rightarrow>
         Option.bind (path_for_role request Role_Source) (\<lambda>old_path.
         map_option (Required_Rename old_path) (path_for_role request Role_Target))
     | _ \<Rightarrow>
         Option.bind (cache_invalidation_kind_for_effect effect) (\<lambda>kind.
         map_option (\<lambda>p. Required_Update p kind) (primary_path request)))"

definition for_request_and_response ::
    "RequestPayload \<Rightarrow> ResponsePayload \<Rightarrow> RequiredPathInvalidation option" where
  "for_request_and_response request response =
    (case request of
       Req_Open value \<Rightarrow>
         if open_flags value AND OPEN_FLAG_TRUNCATE \<noteq> 0
         then map_option (\<lambda>p. Required_Update p Inv_Modify) (primary_path request)
         else None
     | _ \<Rightarrow> required_for_effect (os_effect (spec_for (request_operation request))) request response)"

definition required_matches ::
    "RequiredPathInvalidation \<Rightarrow> RequestEnvelope \<Rightarrow> Invalidation \<Rightarrow> bool" where
  "required_matches required request i =
    (if inv_namespace i \<noteq> req_namespace request \<or> inv_request_id i \<noteq> req_request_id request
     then False
     else case invalidation_kind_try_from (inv_kind i) of
       Err _ \<Rightarrow> False
     | Ok kind \<Rightarrow>
        (if kind = Inv_FullResync then True
         else case required of
           Required_Create p inode \<Rightarrow> kind = Inv_Create \<and> inv_path i = p \<and> inv_inode i = inode
         | Required_Delete p \<Rightarrow> kind = Inv_Delete \<and> inv_path i = p
         | Required_Rename old_path new_path \<Rightarrow>
             kind = Inv_Rename \<and> inv_old_path i = old_path \<and> inv_new_path i = new_path
         | Required_Update p expected \<Rightarrow> kind = expected \<and> inv_path i = p))"

definition request_requires_path_invalidation :: "RequestPayload \<Rightarrow> bool" where
  "request_requires_path_invalidation payload =
    (case payload of
       Req_Open value \<Rightarrow>
         if open_flags value AND OPEN_FLAG_TRUNCATE \<noteq> 0 then True
         else requires_path_invalidation (os_effect (spec_for (request_operation payload)))
     | _ \<Rightarrow> requires_path_invalidation (os_effect (spec_for (request_operation payload))))"

definition kernel_require_covering_path_invalidation ::
    "RequestEnvelope \<Rightarrow> ResponseEnvelope \<Rightarrow> CacheKernel \<Rightarrow> (FuseError + unit) \<times> CacheKernel" where
  "kernel_require_covering_path_invalidation request response k =
    (case resp_payload response of
       None \<Rightarrow> (Ok (), k)
     | Some payload \<Rightarrow>
        (case for_request_and_response (req_payload request) payload of
           None \<Rightarrow> (Ok (), k)
         | Some required \<Rightarrow>
            (if list_ex (required_matches required request) (resp_invalidations response)
             then (Ok (), k)
             else (Err StaleCache, kernel_poison k))))"

definition poison_after_uncertain_path_mutation ::
    "RequestEnvelope \<Rightarrow> CacheKernel \<Rightarrow> bool \<times> CacheKernel" where
  "poison_after_uncertain_path_mutation request k =
    (if request_requires_path_invalidation (req_payload request)
     then (True, kernel_poison k) else (False, k))"

section \<open>Consistency of the two maps\<close>

abbreviation pathmap :: "PathCache \<Rightarrow> string \<Rightarrow> u64 option" where
  "pathmap c \<equiv> hm_get (path_to_inode c)"

abbreviation inodemap :: "PathCache \<Rightarrow> u64 \<Rightarrow> string list option" where
  "inodemap c \<equiv> hm_get (inode_to_paths c)"

abbreviation countmap :: "PathCache \<Rightarrow> u64 \<Rightarrow> u64 option" where
  "countmap c \<equiv> hm_get (lookup_counts c)"

text \<open>
  The inode map is the inverse of the path map: it lists under an inode, in
  order, exactly the paths with that inode, and nothing under an inode without
  paths.
\<close>

definition linked :: "(string \<Rightarrow> u64 option) \<Rightarrow> (u64 \<Rightarrow> string list option) \<Rightarrow> bool" where
  "linked P I \<longleftrightarrow>
    (\<forall>i s. I i = Some s \<longrightarrow> s \<noteq> [] \<and> bts_wf s \<and> (\<forall>p. p \<in> set s \<longleftrightarrow> P p = Some i))
    \<and> (\<forall>p i. P p = Some i \<longrightarrow> I i \<noteq> None)"

definition counted :: "(u64 \<Rightarrow> u64 option) \<Rightarrow> (u64 \<Rightarrow> string list option) \<Rightarrow> bool" where
  "counted N I \<longleftrightarrow> (\<forall>i n. N i = Some n \<longrightarrow> n \<noteq> 0 \<and> i \<noteq> 1 \<and> I i \<noteq> None)"

definition unlink_map where
  "unlink_map I i p =
    (case I i of
       None \<Rightarrow> I
     | Some s \<Rightarrow> I(i := if bts_remove p s = [] then None else Some (bts_remove p s)))"

definition link_map where
  "link_map I i p = I(i \<mapsto> bts_insert p (case I i of None \<Rightarrow> [] | Some s \<Rightarrow> s))"

lemma linkedD:
  assumes "linked P I" "I i = Some s"
  shows "s \<noteq> []" "bts_wf s" "p \<in> set s \<longleftrightarrow> P p = Some i"
  using assms by (auto simp: linked_def)

lemma linked_mem: "linked P I \<Longrightarrow> P p = Some i \<Longrightarrow> \<exists>s. I i = Some s \<and> p \<in> set s"
  unfolding linked_def by blast

lemma linked_None: "linked P I \<Longrightarrow> I i = None \<longleftrightarrow> (\<forall>p. P p \<noteq> Some i)"
  unfolding linked_def by (metis last_in_set not_None_eq)

lemma linked_unlink:
  assumes l: "linked P I" and p: "P p = Some i"
  shows "linked (P(p := None)) (unlink_map I i p)"
proof -
  obtain s where s: "I i = Some s" "p \<in> set s" using linked_mem [OF l p] by blast
  note w = linkedD [OF l s(1)]
  have mem: "q \<in> set (bts_remove p s) \<longleftrightarrow> (P(p := None)) q = Some i" for q
    using w(2,3) by auto
  have other: "j \<noteq> i \<Longrightarrow> I j = Some t \<Longrightarrow> q \<in> set t \<longleftrightarrow> (P(p := None)) q = Some j" for j t q
    using linkedD(3) [OF l, of j t q] p by auto
  have ne: "bts_remove p s \<noteq> []" if "(P(p := None)) q = Some i" for q
    using mem [of q] that by auto
  show ?thesis
    unfolding linked_def
  proof (intro conjI allI impI)
    fix j t assume t: "unlink_map I i p j = Some t"
    show "t \<noteq> []" "bts_wf t"
      using t s w l by (auto simp: unlink_map_def dest: linkedD split: if_splits)
    show "q \<in> set t \<longleftrightarrow> (P(p := None)) q = Some j" for q
      using t s mem other by (cases "j = i") (auto simp: unlink_map_def split: if_splits)
  next
    fix q j assume q: "(P(p := None)) q = Some j"
    then have "P q = Some j" by (auto split: if_splits)
    with linked_mem [OF l this] q ne show "unlink_map I i p j \<noteq> None"
      using s by (auto simp: unlink_map_def)
  qed
qed

lemma linked_link:
  assumes l: "linked P I" and p: "P p = None"
  shows "linked (P(p \<mapsto> i)) (link_map I i p)"
proof -
  let ?s = "case I i of None \<Rightarrow> [] | Some s \<Rightarrow> s"
  have wf: "bts_wf ?s" using l by (auto dest: linkedD split: option.splits)
  have mem: "q \<in> set ?s \<longleftrightarrow> P q = Some i" for q
    using linkedD(3) [OF l] linked_None [OF l, of i] by (auto split: option.splits)
  show ?thesis
    unfolding linked_def
  proof (intro conjI allI impI)
    fix j t assume t: "link_map I i p j = Some t"
    show "t \<noteq> []" "bts_wf t"
      using t wf l by (auto simp: link_map_def dest: linkedD split: if_splits)
        (metis bts_insert_set empty_iff insertI1 list.set(1))
    show "q \<in> set t \<longleftrightarrow> (P(p \<mapsto> i)) q = Some j" for q
      using t mem linkedD(3) [OF l, of j t q] p by (cases "j = i") (auto simp: link_map_def)
  next
    fix q j assume "(P(p \<mapsto> i)) q = Some j"
    then show "link_map I i p j \<noteq> None"
      using linked_mem [OF l, of q j] by (auto simp: link_map_def split: if_splits)
  qed
qed

lemma link_known:
  assumes "linked P I" "P p = Some i"
  shows "link_map I i p = I"
  using linked_mem [OF assms] by (auto simp: link_map_def bts_insert_def)

section \<open>The operations on the maps\<close>

lemma remove_inode_path_maps [simp]:
  "path_to_inode (remove_inode_path c i p) = path_to_inode c"
  "inodemap (remove_inode_path c i p) = unlink_map (inodemap c) i p"
  "pc_poisoned (remove_inode_path c i p) = pc_poisoned c"
  "last_sequence (remove_inode_path c i p) = last_sequence c"
  by (auto simp: remove_inode_path_def unlink_map_def Let_def split: option.splits)

lemma remove_inode_path_counts:
  "countmap (remove_inode_path c i p) =
    (if unlink_map (inodemap c) i p i = None then (countmap c)(i := None) else countmap c)"
  by (auto simp: remove_inode_path_def unlink_map_def Let_def split: option.splits)

lemma detach_maps [simp]:
  "path_to_inode (detach_inode_path_for_rename c i p) = path_to_inode c"
  "inodemap (detach_inode_path_for_rename c i p) = unlink_map (inodemap c) i p"
  "lookup_counts (detach_inode_path_for_rename c i p) = lookup_counts c"
  by (auto simp: detach_inode_path_for_rename_def unlink_map_def Let_def split: option.splits)

lemma record_path_maps [simp]:
  "pathmap (record_path c p i) = (pathmap c)(p \<mapsto> i)"
  "inodemap (record_path c p i) = link_map (inodemap c) i p"
  "lookup_counts (record_path c p i) = lookup_counts c"
  "pc_poisoned (record_path c p i) = pc_poisoned c"
  "last_sequence (record_path c p i) = last_sequence c"
  by (simp_all add: record_path_def link_map_def)

definition maps_wf :: "PathCache \<Rightarrow> bool" where
  "maps_wf c \<longleftrightarrow> hm_wf (path_to_inode c) \<and> hm_wf (inode_to_paths c) \<and> hm_wf (lookup_counts c)"

lemma maps_wf_ops [simp]:
  "maps_wf c \<Longrightarrow> maps_wf (remove_inode_path c i p)"
  "maps_wf c \<Longrightarrow> maps_wf (detach_inode_path_for_rename c i p)"
  "maps_wf c \<Longrightarrow> maps_wf (record_path c p i)"
  "maps_wf c \<Longrightarrow> maps_wf (c\<lparr>path_to_inode := hm_remove p (path_to_inode c)\<rparr>)"
  by (auto simp: maps_wf_def remove_inode_path_def detach_inode_path_for_rename_def
      record_path_def Let_def split: option.splits)

text \<open>
  The cache invariant: the maps have unique keys, they are linked, lookups are
  only counted for inodes with a path, and inode zero is never cached.
\<close>

definition cache_ok :: "PathCache \<Rightarrow> bool" where
  "cache_ok c \<longleftrightarrow> maps_wf c \<and> linked (pathmap c) (inodemap c)
    \<and> counted (countmap c) (inodemap c) \<and> inodemap c 0 = None"

definition cache_wf :: "PathCache \<Rightarrow> bool" where
  "cache_wf c \<longleftrightarrow> cache_ok c \<and> pathmap c ''/'' = Some 1"

lemma counted_unlink:
  "counted N I \<Longrightarrow>
    counted (if unlink_map I i p i = None then N(i := None) else N) (unlink_map I i p)"
  by (auto simp: counted_def unlink_map_def split: option.splits if_splits)

lemma counted_link: "counted N I \<Longrightarrow> counted N (link_map I i p)"
  by (auto simp: counted_def link_map_def)

lemma counted_move: "counted N I \<Longrightarrow> counted N (link_map (unlink_map I i p) i q)"
  by (auto simp: counted_def link_map_def unlink_map_def split: option.splits if_splits)

lemma cache_insert_pathmap [simp]:
  "pathmap (cache_insert c p i) = (if i = 0 then pathmap c else (pathmap c)(p \<mapsto> i))"
  by (auto simp: cache_insert_def split: option.splits)

lemma cache_insert_fields [simp]:
  "pc_poisoned (cache_insert c p i) = pc_poisoned c"
  "last_sequence (cache_insert c p i) = last_sequence c"
  by (auto simp: cache_insert_def split: option.splits)

lemma cache_insert_ok:
  assumes c: "cache_ok c"
  shows "cache_ok (cache_insert c p i)"
proof (cases "i = 0")
  case True
  with c show ?thesis by (simp add: cache_insert_def)
next
  case i: False
  from c have l: "linked (pathmap c) (inodemap c)" and n: "counted (countmap c) (inodemap c)"
    and m: "maps_wf c" and z: "inodemap c 0 = None" by (simp_all add: cache_ok_def)
  show ?thesis
  proof (cases "pathmap c p")
    case None
    then show ?thesis
      using linked_link [OF l None] counted_link [OF n] m z i
      by (simp add: cache_insert_def cache_ok_def) (simp add: link_map_def)
  next
    case (Some old)
    show ?thesis
    proof (cases "old = i")
      case True
      with Some link_known [OF l Some] l n m z i show ?thesis
        by (simp add: cache_insert_def cache_ok_def fun_upd_idem)
    next
      case False
      let ?c = "remove_inode_path c old p"
      have l': "linked ((pathmap c)(p := None)) (inodemap ?c)" using linked_unlink [OF l Some] by simp
      from linked_link [OF this, of p i]
      have "linked ((pathmap c)(p \<mapsto> i)) (link_map (inodemap ?c) i p)" by simp
      moreover have "counted (countmap ?c) (inodemap ?c)"
        using counted_unlink [OF n] by (simp add: remove_inode_path_counts)
      then have "counted (countmap ?c) (link_map (inodemap ?c) i p)" by (rule counted_link)
      moreover have "link_map (inodemap ?c) i p 0 = None"
        using z i by (auto simp: link_map_def unlink_map_def split: option.splits)
      ultimately show ?thesis
        using Some False m i by (simp add: cache_insert_def cache_ok_def)
    qed
  qed
qed

lemma add_lookup_maps [simp]:
  "path_to_inode (add_lookup c i n) = path_to_inode c"
  "inode_to_paths (add_lookup c i n) = inode_to_paths c"
  "pc_poisoned (add_lookup c i n) = pc_poisoned c"
  "last_sequence (add_lookup c i n) = last_sequence c"
  by (simp_all add: add_lookup_def)

lemma add_lookup_ok: "cache_ok c \<Longrightarrow> cache_ok (add_lookup c i n)"
  by (auto simp: add_lookup_def cache_ok_def maps_wf_def counted_def
      saturating_add_nonzero)

section \<open>Dropping paths\<close>

lemma drop_cached_path_pathmap [simp]:
  "pathmap (drop_cached_path e c) = (pathmap c)(snd e := None)"
  by (simp add: drop_cached_path_def split: prod.splits)

lemma drop_cached_path_fields [simp]:
  "pc_poisoned (drop_cached_path e c) = pc_poisoned c"
  "last_sequence (drop_cached_path e c) = last_sequence c"
  by (simp_all add: drop_cached_path_def split: prod.splits)

lemma drop_cached_path_ok:
  assumes c: "cache_ok c" and e: "pathmap c (snd e) = Some (fst e)"
  shows "cache_ok (drop_cached_path e c)"
proof -
  obtain i p where ip: "e = (i, p)" by fastforce
  from c have l: "linked (pathmap c) (inodemap c)" and n: "counted (countmap c) (inodemap c)"
    and m: "maps_wf c" and z: "inodemap c 0 = None" by (simp_all add: cache_ok_def)
  let ?c = "c\<lparr>path_to_inode := hm_remove p (path_to_inode c)\<rparr>"
  have "linked ((pathmap c)(p := None)) (unlink_map (inodemap c) i p)"
    using linked_unlink [OF l] e ip by simp
  moreover have "counted (countmap (remove_inode_path ?c i p)) (unlink_map (inodemap c) i p)"
    using counted_unlink [OF n, of i p] by (auto simp: remove_inode_path_counts split: if_splits)
  moreover have "unlink_map (inodemap c) i p 0 = None"
    using z by (auto simp: unlink_map_def split: option.splits)
  ultimately show ?thesis using m ip by (simp add: cache_ok_def drop_cached_path_def)
qed

lemma fold_drop:
  assumes "cache_ok c" "distinct (map snd es)" "\<forall>e \<in> set es. pathmap c (snd e) = Some (fst e)"
  shows "cache_ok (fold drop_cached_path es c)
    \<and> pathmap (fold drop_cached_path es c) = (\<lambda>q. if q \<in> snd ` set es then None else pathmap c q)
    \<and> pc_poisoned (fold drop_cached_path es c) = pc_poisoned c
    \<and> last_sequence (fold drop_cached_path es c) = last_sequence c"
  using assms
proof (induction es arbitrary: c)
  case Nil
  then show ?case by simp
next
  case (Cons e es)
  let ?c = "drop_cached_path e c"
  have ok: "cache_ok ?c" using Cons.prems by (intro drop_cached_path_ok) auto
  have "\<forall>f \<in> set es. pathmap ?c (snd f) = Some (fst f)"
    using Cons.prems(2,3) by (force simp: image_iff)
  from Cons.IH [OF ok _ this] Cons.prems(2) show ?case by (auto simp: fun_eq_iff)
qed

lemma in_subtree_cache:
  "cache_path_is_in_subtree p root \<longleftrightarrow> root \<noteq> [] \<and> path_is_in_subtree p root"
  by (simp add: cache_path_is_in_subtree_def path_is_in_subtree_def)

lemma in_subtree_cache_iff:
  "cache_path_is_in_subtree p root \<longleftrightarrow>
    root \<noteq> [] \<and> (\<exists>t. p = root @ t \<and> (t = [] \<or> starts_with_char (CHR ''/'') t))"
  by (simp add: in_subtree_cache path_is_in_subtree_iff)

lemma root_not_in_subtree: "p \<noteq> ''/'' \<Longrightarrow> \<not> cache_path_is_in_subtree ''/'' p"
  by (auto simp: in_subtree_cache_iff Cons_eq_append_conv)

lemma paths_in_subtree_set:
  assumes "maps_wf c"
  shows "(i, q) \<in> set (paths_in_subtree c p) \<longleftrightarrow>
    pathmap c q = Some i \<and> cache_path_is_in_subtree q p"
  using assms by (auto simp: paths_in_subtree_def maps_wf_def hm_get_iff)

lemma paths_in_subtree_distinct: "maps_wf c \<Longrightarrow> distinct (map snd (paths_in_subtree c p))"
  by (auto simp: paths_in_subtree_def maps_wf_def hm_wf_def comp_def case_prod_beta
      intro: distinct_map_filter)

lemma paths_in_subtree_snd:
  assumes "maps_wf c"
  shows "q \<in> snd ` set (paths_in_subtree c p) \<longleftrightarrow>
    pathmap c q \<noteq> None \<and> cache_path_is_in_subtree q p"
proof
  assume "q \<in> snd ` set (paths_in_subtree c p)"
  then obtain i where "(i, q) \<in> set (paths_in_subtree c p)" by force
  then show "pathmap c q \<noteq> None \<and> cache_path_is_in_subtree q p"
    using paths_in_subtree_set [OF assms] by auto
next
  assume "pathmap c q \<noteq> None \<and> cache_path_is_in_subtree q p"
  then obtain i where "(i, q) \<in> set (paths_in_subtree c p)"
    using paths_in_subtree_set [OF assms] by auto
  then show "q \<in> snd ` set (paths_in_subtree c p)" by force
qed

lemma remove_path_spec:
  assumes "cache_ok c"
  shows "cache_ok (remove_path c p)
    \<and> pathmap (remove_path c p) =
      (if p = ''/'' then pathmap c
       else (\<lambda>q. if cache_path_is_in_subtree q p then None else pathmap c q))
    \<and> pc_poisoned (remove_path c p) = pc_poisoned c
    \<and> last_sequence (remove_path c p) = last_sequence c"
proof (cases "p = [] \<or> p = ''/''")
  case True
  with assms show ?thesis by (auto simp: remove_path_def in_subtree_cache)
next
  case False
  have m: "maps_wf c" using assms by (simp add: cache_ok_def)
  have "\<forall>e \<in> set (paths_in_subtree c p). pathmap c (snd e) = Some (fst e)"
    using paths_in_subtree_set [OF m] by auto
  from fold_drop [OF assms paths_in_subtree_distinct [OF m] this] False show ?thesis
    by (auto simp: remove_path_def paths_in_subtree_snd [OF m] fun_eq_iff)
qed

lemma remove_inode_pathmap:
  assumes "cache_ok c"
  shows "pathmap (remove_inode c i) =
    (\<lambda>q. if i \<noteq> 1 \<and> pathmap c q = Some i then None else pathmap c q)"
proof -
  have l: "linked (pathmap c) (inodemap c)" using assms by (simp add: cache_ok_def)
  show ?thesis
  proof (cases "inodemap c i")
    case None
    then have "pathmap c q \<noteq> Some i" for q using linked_None [OF l] by blast
    with None show ?thesis by (auto simp: remove_inode_def fun_eq_iff)
  next
    case (Some s)
    then have "q \<in> set s \<longleftrightarrow> pathmap c q = Some i" for q using linkedD(3) [OF l] by blast
    with Some show ?thesis
      by (auto simp: remove_inode_def fun_eq_iff hm.get_fold_rem)
  qed
qed

lemma remove_inode_maps:
  "i \<noteq> 1 \<Longrightarrow> inodemap (remove_inode c i) = (inodemap c)(i := None)"
  "i \<noteq> 1 \<Longrightarrow> countmap (remove_inode c i) = (countmap c)(i := None)"
  "pc_poisoned (remove_inode c i) = pc_poisoned c"
  "last_sequence (remove_inode c i) = last_sequence c"
  by (auto simp: remove_inode_def fun_eq_iff split: option.splits)

lemma remove_inode_ok:
  assumes "cache_ok c"
  shows "cache_ok (remove_inode c i)"
proof (cases "i = 1")
  case True
  with assms show ?thesis by (simp add: remove_inode_def)
next
  case False
  have "maps_wf (remove_inode c i)"
    using assms by (auto simp: remove_inode_def cache_ok_def maps_wf_def hm.wf_fold_rem
        split: option.splits)
  moreover have "linked (pathmap (remove_inode c i)) (inodemap (remove_inode c i))"
    using assms False unfolding remove_inode_pathmap [OF assms] remove_inode_maps(1) [OF False]
    by (auto simp: cache_ok_def linked_def)
  ultimately show ?thesis
    using assms False by (auto simp: cache_ok_def remove_inode_maps counted_def)
qed

lemma cache_ok_counts:
  "cache_ok c \<Longrightarrow> hm_wf n \<Longrightarrow> counted (hm_get n) (inodemap c) \<Longrightarrow> cache_ok (c\<lparr>lookup_counts := n\<rparr>)"
  by (simp add: cache_ok_def maps_wf_def)

lemma cache_forget_ok:
  assumes "cache_ok c"
  shows "cache_ok (cache_forget c i n)"
proof (cases "i = 1 \<or> n = 0")
  case True
  with assms show ?thesis by (auto simp: cache_forget_def)
next
  case False
  show ?thesis
  proof (cases "countmap c i")
    case None
    with False assms show ?thesis by (auto simp: cache_forget_def remove_inode_ok)
  next
    case (Some k)
    have wf: "hm_wf (lookup_counts c)" and n: "counted (countmap c) (inodemap c)"
      using assms by (auto simp: cache_ok_def maps_wf_def)
    show ?thesis
    proof (cases "k > n")
      case True
      then have "k - n \<noteq> 0" by auto
      with n Some have "counted ((countmap c)(i \<mapsto> k - n)) (inodemap c)"
        by (auto simp: counted_def)
      with True False Some assms wf show ?thesis
        by (simp add: cache_forget_def cache_ok_counts)
    next
      case le: False
      have "cache_ok (c\<lparr>lookup_counts := hm_remove i (lookup_counts c)\<rparr>)"
        using assms wf n by (intro cache_ok_counts) (auto simp: counted_def)
      from remove_inode_ok [OF this] le False Some show ?thesis by (simp add: cache_forget_def)
    qed
  qed
qed

section \<open>Renaming\<close>

lemma subtree_suffix_append [simp]: "subtree_suffix (root @ t) root = t"
  by (simp add: subtree_suffix_def)

lemma subtree_suffix_self [simp]: "subtree_suffix root root = []"
  using subtree_suffix_append [of root "[]"] by simp

lemma in_subtree_suffix: "cache_path_is_in_subtree p root \<Longrightarrow> p = root @ subtree_suffix p root"
  by (auto simp: in_subtree_cache_iff)

lemma in_subtree_string_linear:
  assumes "path_is_in_subtree p q" "path_is_in_subtree p r"
  shows "path_is_in_subtree q r \<or> path_is_in_subtree r q"
proof -
  from assms obtain t u where t: "p = q @ t" "t = [] \<or> starts_with_char (CHR ''/'') t"
    and u: "p = r @ u" "u = [] \<or> starts_with_char (CHR ''/'') u"
    unfolding path_is_in_subtree_iff by blast
  then obtain x where "q = r @ x \<and> x @ t = u \<or> r = q @ x \<and> x @ u = t"
    by (auto simp: append_eq_append_conv2)
  with t u show ?thesis
    by (cases x) (auto simp: path_is_in_subtree_iff starts_with_char_iff)
qed

lemma rename_disjoint:
  assumes "validate_rename_paths old new = Ok ()"
  shows "\<not> (cache_path_is_in_subtree p old \<and> cache_path_is_in_subtree p new)"
  using in_subtree_string_linear rename_paths_validD(3,4) [OF assms]
  by (auto simp: in_subtree_cache)

lemma remove_subtree_except_disjoint:
  assumes m: "maps_wf c" and v: "validate_rename_paths old new = Ok ()"
  shows "remove_subtree_except c new (paths_in_subtree c old)
    = fold drop_cached_path (paths_in_subtree c new) c"
proof -
  have "snd e \<notin> set (map snd (paths_in_subtree c old))" if "e \<in> set (paths_in_subtree c new)" for e
  proof -
    have "cache_path_is_in_subtree (snd e) new"
      using that paths_in_subtree_set [OF m, of "fst e" "snd e"] by simp
    then show ?thesis using rename_disjoint [OF v] paths_in_subtree_snd [OF m, of "snd e" old] by auto
  qed
  then show ?thesis unfolding remove_subtree_except_def by (intro fold_cong) auto
qed

lemma move_cached_path_pathmap [simp]:
  "pathmap (move_cached_path old new e c) =
    (pathmap c)(snd e := None, new @ subtree_suffix (snd e) old \<mapsto> fst e)"
  by (simp add: move_cached_path_def split: prod.splits)

lemma move_cached_path_fields [simp]:
  "lookup_counts (move_cached_path old new e c) = lookup_counts c"
  "pc_poisoned (move_cached_path old new e c) = pc_poisoned c"
  "last_sequence (move_cached_path old new e c) = last_sequence c"
  by (simp_all add: move_cached_path_def detach_inode_path_for_rename_def Let_def
      split: prod.splits option.splits)

lemma move_cached_path_ok:
  assumes c: "cache_ok c" and e: "pathmap c (snd e) = Some (fst e)"
    and t: "pathmap c (new @ subtree_suffix (snd e) old) = None"
  shows "cache_ok (move_cached_path old new e c)"
proof -
  obtain i p where ip: "e = (i, p)" by fastforce
  let ?t = "new @ subtree_suffix p old"
  from c have l: "linked (pathmap c) (inodemap c)" and n: "counted (countmap c) (inodemap c)"
    and m: "maps_wf c" and z: "inodemap c 0 = None" by (simp_all add: cache_ok_def)
  have "linked ((pathmap c)(p := None)) (unlink_map (inodemap c) i p)"
    using linked_unlink [OF l] e ip by simp
  from linked_link [OF this, of ?t i] t ip
  have "linked ((pathmap c)(p := None, ?t \<mapsto> i)) (link_map (unlink_map (inodemap c) i p) i ?t)"
    by simp
  moreover have "i \<noteq> 0" using linked_None [OF l, of 0] z e ip by auto
  then have "link_map (unlink_map (inodemap c) i p) i ?t 0 = None"
    using z by (auto simp: link_map_def unlink_map_def split: option.splits)
  ultimately show ?thesis
    using m ip counted_move [OF n, of i p ?t] by (simp add: cache_ok_def move_cached_path_def)
qed

definition moved_pathmap ::
    "string \<Rightarrow> string \<Rightarrow> (u64 \<times> string) list \<Rightarrow> (string \<Rightarrow> u64 option) \<Rightarrow> string \<Rightarrow> u64 option" where
  "moved_pathmap old new es P q =
    (case find (\<lambda>e. new @ subtree_suffix (snd e) old = q) es of
       Some e \<Rightarrow> Some (fst e)
     | None \<Rightarrow> if q \<in> snd ` set es then None else P q)"

lemma fold_move:
  assumes v: "validate_rename_paths old new = Ok ()"
    and "cache_ok c" "distinct (map snd es)"
    and "\<forall>e \<in> set es. pathmap c (snd e) = Some (fst e) \<and> cache_path_is_in_subtree (snd e) old
      \<and> pathmap c (new @ subtree_suffix (snd e) old) = None"
  shows "cache_ok (fold (move_cached_path old new) es c)
    \<and> pathmap (fold (move_cached_path old new) es c) = moved_pathmap old new es (pathmap c)
    \<and> lookup_counts (fold (move_cached_path old new) es c) = lookup_counts c
    \<and> pc_poisoned (fold (move_cached_path old new) es c) = pc_poisoned c
    \<and> last_sequence (fold (move_cached_path old new) es c) = last_sequence c"
  using assms(2-)
proof (induction es arbitrary: c)
  case Nil
  then show ?case by (simp add: moved_pathmap_def fun_eq_iff)
next
  case (Cons e es)
  let ?c = "move_cached_path old new e c"
  let ?t = "\<lambda>f. new @ subtree_suffix (snd f) old"
  have sub: "cache_path_is_in_subtree (snd f) old" if "f \<in> set (e # es)" for f
    using Cons.prems(3) that by blast
  have new: "cache_path_is_in_subtree (?t f) new" if "f \<in> set (e # es)" for f
  proof -
    have "new \<noteq> []"
      using rename_paths_validD(2) [OF v] by (auto simp: valid_non_root_iff validate_path_value_def)
    moreover have "snd f = old @ subtree_suffix (snd f) old" using sub [OF that] in_subtree_suffix by blast
    ultimately show ?thesis
      using sub [OF that] by (auto simp: in_subtree_cache_iff)
  qed
  have apart: "snd f \<noteq> ?t g" if "f \<in> set (e # es)" "g \<in> set (e # es)" for f g
    using rename_disjoint [OF v] sub [OF that(1)] new [OF that(2)] by metis
  have inj: "?t f \<noteq> ?t e" if "f \<in> set es" for f
  proof -
    have "snd f = old @ subtree_suffix (snd f) old" "snd e = old @ subtree_suffix (snd e) old"
      using sub that in_subtree_suffix by auto
    moreover have "snd f \<noteq> snd e" using Cons.prems(2) that by (auto simp: image_iff)
    ultimately show ?thesis by (metis same_append_eq)
  qed
  have ok: "cache_ok ?c" using Cons.prems by (intro move_cached_path_ok) auto
  have "\<forall>f \<in> set es. pathmap ?c (snd f) = Some (fst f) \<and> cache_path_is_in_subtree (snd f) old
      \<and> pathmap ?c (?t f) = None"
  proof
    fix f assume f: "f \<in> set es"
    then have "snd f \<noteq> snd e" using Cons.prems(2) by (auto simp: image_iff)
    then show "pathmap ?c (snd f) = Some (fst f) \<and> cache_path_is_in_subtree (snd f) old
        \<and> pathmap ?c (?t f) = None"
      using f Cons.prems(3) apart [of f e] apart [of e f] inj [OF f] by auto
  qed
  note ih = Cons.IH [OF ok _ this]
  have "moved_pathmap old new es (pathmap ?c) = moved_pathmap old new (e # es) (pathmap c)"
  proof
    fix q
    have fresh: "?t e \<notin> snd ` set es"
    proof
      assume "?t e \<in> snd ` set es"
      then obtain f where "f \<in> set es" "snd f = ?t e" by (metis imageE)
      with apart [of f e] show False by simp
    qed
    have self: "snd e \<noteq> ?t e" using apart [of e e] by simp
    have nf: "find (\<lambda>f. ?t f = ?t e) es = None" unfolding find_None_iff using inj by blast
    show "moved_pathmap old new es (pathmap ?c) q = moved_pathmap old new (e # es) (pathmap c) q"
    proof (cases "q = ?t e")
      case True
      then show ?thesis using fresh nf by (simp add: moved_pathmap_def)
    next
      case False
      then show ?thesis using self by (auto simp: moved_pathmap_def split: option.splits)
    qed
  qed
  then show ?case using ih Cons.prems(2) by (simp del: move_cached_path_pathmap)
qed

text \<open>
  What a rename does to the path map: the old subtree moves under the new path,
  whatever was there is dropped, and everything else stays.
\<close>

definition renamed_pathmap ::
    "string \<Rightarrow> string \<Rightarrow> (string \<Rightarrow> u64 option) \<Rightarrow> string \<Rightarrow> u64 option" where
  "renamed_pathmap old new P q =
    (if cache_path_is_in_subtree q new then P (old @ subtree_suffix q new)
     else if cache_path_is_in_subtree q old then None
     else P q)"

lemma cache_rename_spec:
  assumes c: "cache_ok c" and v: "validate_rename_paths old new = Ok ()"
  shows "\<exists>c'. cache_rename c old new = Ok c' \<and> cache_ok c'
    \<and> pathmap c' = renamed_pathmap old new (pathmap c)
    \<and> pc_poisoned c' = pc_poisoned c \<and> last_sequence c' = last_sequence c"
proof -
  have m: "maps_wf c" using c by (simp add: cache_ok_def)
  let ?es = "paths_in_subtree c old"
  let ?d = "fold drop_cached_path (paths_in_subtree c new) c"
  have mem: "\<forall>e \<in> set (paths_in_subtree c p). pathmap c (snd e) = Some (fst e)" for p
    using paths_in_subtree_set [OF m] by auto
  note d = fold_drop [OF c paths_in_subtree_distinct [OF m] mem, of new]
  have dp: "pathmap ?d = (\<lambda>q. if cache_path_is_in_subtree q new then None else pathmap c q)"
    using d by (auto simp: fun_eq_iff paths_in_subtree_snd [OF m])
  have ne: "new \<noteq> []" "old \<noteq> []"
    using rename_paths_validD(1,2) [OF v] by (auto simp: valid_non_root_iff validate_path_value_def)
  have pre: "\<forall>e \<in> set ?es. pathmap ?d (snd e) = Some (fst e) \<and> cache_path_is_in_subtree (snd e) old
      \<and> pathmap ?d (new @ subtree_suffix (snd e) old) = None"
  proof
    fix e assume "e \<in> set ?es"
    then have e: "pathmap c (snd e) = Some (fst e)" "cache_path_is_in_subtree (snd e) old"
      using paths_in_subtree_set [OF m, of "fst e" "snd e"] by auto
    then have "cache_path_is_in_subtree (new @ subtree_suffix (snd e) old) new"
      using ne in_subtree_suffix [OF e(2)] by (auto simp: in_subtree_cache_iff)
    with e rename_disjoint [OF v, of "snd e"] show "pathmap ?d (snd e) = Some (fst e)
        \<and> cache_path_is_in_subtree (snd e) old
        \<and> pathmap ?d (new @ subtree_suffix (snd e) old) = None"
      by (auto simp: dp)
  qed
  have fin: "moved_pathmap old new ?es (pathmap ?d) = renamed_pathmap old new (pathmap c)"
  proof
    fix q
    show "moved_pathmap old new ?es (pathmap ?d) q = renamed_pathmap old new (pathmap c) q"
    proof (cases "find (\<lambda>e. new @ subtree_suffix (snd e) old = q) ?es")
      case (Some e)
      then have e: "e \<in> set ?es" "new @ subtree_suffix (snd e) old = q"
        by (auto simp: find_Some_iff)
      then have o: "pathmap c (snd e) = Some (fst e)" "cache_path_is_in_subtree (snd e) old"
        using paths_in_subtree_set [OF m, of "fst e" "snd e"] by auto
      have "cache_path_is_in_subtree q new"
        using o(2) e(2) ne in_subtree_suffix [OF o(2)] by (auto simp: in_subtree_cache_iff)
      moreover have "old @ subtree_suffix q new = snd e"
        using e(2) in_subtree_suffix [OF o(2)] by (metis subtree_suffix_append)
      ultimately show ?thesis using Some o by (simp add: moved_pathmap_def renamed_pathmap_def)
    next
      case None
      then have n: "new @ subtree_suffix (snd e) old \<noteq> q" if "e \<in> set ?es" for e
        using that unfolding find_None_iff by blast
      show ?thesis
      proof (cases "cache_path_is_in_subtree q new")
        case True
        then have q: "q = new @ subtree_suffix q new" by (rule in_subtree_suffix)
        have "pathmap c (old @ subtree_suffix q new) = None"
        proof (rule ccontr)
          assume "pathmap c (old @ subtree_suffix q new) \<noteq> None"
          then obtain i where "pathmap c (old @ subtree_suffix q new) = Some i" by auto
          moreover have "cache_path_is_in_subtree (old @ subtree_suffix q new) old"
            using True ne by (auto simp: in_subtree_cache_iff)
          ultimately have "(i, old @ subtree_suffix q new) \<in> set ?es"
            using paths_in_subtree_set [OF m] by blast
          from n [OF this] q show False by simp
        qed
        with True None rename_disjoint [OF v, of q] show ?thesis
          by (auto simp: moved_pathmap_def renamed_pathmap_def dp paths_in_subtree_snd [OF m])
      next
        case False
        with None show ?thesis
          by (auto simp: moved_pathmap_def renamed_pathmap_def dp paths_in_subtree_snd [OF m])
      qed
    qed
  qed
  have "pc_poisoned ?d = pc_poisoned c" "last_sequence ?d = last_sequence c" "cache_ok ?d"
    using d by blast+
  with fold_move [OF v _ paths_in_subtree_distinct [OF m] pre, unfolded fin]
  show ?thesis
    by (simp add: cache_rename_def v remove_subtree_except_disjoint [OF m v])
qed

section \<open>The kernel invariant\<close>

lemma empty_cache_ok:
  "path_to_inode c = [] \<Longrightarrow> inode_to_paths c = [] \<Longrightarrow> lookup_counts c = [] \<Longrightarrow> cache_ok c"
  by (simp add: cache_ok_def maps_wf_def linked_def counted_def)

lemma root_cache_wf:
  assumes "path_to_inode c = []" "inode_to_paths c = []" "lookup_counts c = []"
  shows "cache_wf (cache_insert c ''/'' 1)"
  using cache_insert_ok [OF empty_cache_ok [OF assms]] by (simp add: cache_wf_def)

lemma cache_new_wf: "cache_wf PathCache_new"
  unfolding PathCache_new_def by (rule root_cache_wf) simp_all

lemma cache_poison_wf [simp]: "cache_wf (cache_poison c)"
  unfolding cache_poison_def by (rule root_cache_wf) simp_all

lemma reset_wf [simp]: "cache_wf (reset_with_sequence c n)"
  unfolding reset_with_sequence_def by (rule root_cache_wf) simp_all

lemma poison_reset_fields [simp]:
  "pc_poisoned (cache_poison c)" "last_sequence (cache_poison c) = last_sequence c"
  "\<not> pc_poisoned (reset_with_sequence c n)" "last_sequence (reset_with_sequence c n) = n"
  by (simp_all add: cache_poison_def reset_with_sequence_def)

lemma cache_insert_wf:
  "cache_wf c \<Longrightarrow> (p = ''/'' \<Longrightarrow> i = 1) \<Longrightarrow> cache_wf (cache_insert c p i)"
  by (auto simp: cache_wf_def cache_insert_ok)

lemma cache_insert_lookup_wf:
  "cache_wf c \<Longrightarrow> (p = ''/'' \<Longrightarrow> i = 1) \<Longrightarrow> cache_wf (cache_insert_lookup c p i n)"
  using cache_insert_wf [of c p i] by (simp add: cache_wf_def cache_insert_lookup_def add_lookup_ok)

lemma cache_forget_pathmap:
  assumes "cache_ok c"
  shows "pathmap (cache_forget c i n) =
    (if i \<noteq> 1 \<and> n \<noteq> 0 \<and> (case countmap c i of None \<Rightarrow> True | Some k \<Rightarrow> k \<le> n)
     then (\<lambda>q. if pathmap c q = Some i then None else pathmap c q) else pathmap c)"
proof -
  have "cache_ok (c\<lparr>lookup_counts := hm_remove i (lookup_counts c)\<rparr>)"
    using assms by (intro cache_ok_counts) (auto simp: cache_ok_def maps_wf_def counted_def)
  from remove_inode_pathmap [OF this] remove_inode_pathmap [OF assms]
  show ?thesis by (auto simp: cache_forget_def not_less split: option.splits)
qed

lemma cache_forget_wf: "cache_wf c \<Longrightarrow> cache_wf (cache_forget c i n)"
  by (auto simp: cache_wf_def cache_forget_ok cache_forget_pathmap)

lemma remove_path_wf: "cache_wf c \<Longrightarrow> cache_wf (remove_path c p)"
  using remove_path_spec [of c p] root_not_in_subtree [of p] by (auto simp: cache_wf_def)

lemma cache_rename_wf:
  assumes "cache_wf c" "cache_rename c old new = Ok c'"
  shows "cache_wf c'"
proof -
  have v: "validate_rename_paths old new = Ok ()"
    using assms(2) by (auto simp: cache_rename_def ok_iffs)
  have "old \<noteq> ''/''" "new \<noteq> ''/''" using rename_paths_validD(1,2) [OF v]
    by (auto simp: valid_non_root_iff)
  with cache_rename_spec [OF _ v, of c] assms root_not_in_subtree show ?thesis
    by (auto simp: cache_wf_def renamed_pathmap_def)
qed

lemma cache_wf_sequence [simp]: "cache_wf (c\<lparr>last_sequence := n\<rparr>) = cache_wf c"
  by (simp add: cache_wf_def cache_ok_def maps_wf_def)

definition kernel_wf :: "CacheKernel \<Rightarrow> bool" where
  "kernel_wf k \<longleftrightarrow> cache_wf (ck_cache k) \<and> hm_wf (ck_open_handles k)"

lemma lock_cache_wf [simp]: "kernel_wf k \<Longrightarrow> kernel_wf (lock_cache k)"
  by (simp add: kernel_wf_def lock_cache_def)

lemma lock_handles_wf [simp]: "kernel_wf k \<Longrightarrow> kernel_wf (lock_handles k)"
  by (simp add: kernel_wf_def lock_handles_def)

lemma with_cache_wf:
  "kernel_wf k \<Longrightarrow> (\<And>c. cache_wf c \<Longrightarrow> cache_wf (f c)) \<Longrightarrow> kernel_wf (with_cache f k)"
  using lock_cache_wf [of k] by (simp add: with_cache_def kernel_wf_def Let_def)

lemma kernel_poison_wf: "kernel_wf k \<Longrightarrow> kernel_wf (kernel_poison k)"
  unfolding kernel_poison_def by (rule with_cache_wf) simp_all

lemma rename_handle_paths_keys [simp]:
  "map fst (rename_handle_paths old new h) = map fst h"
  by (simp add: rename_handle_paths_def case_prod_beta)

lemma rename_handle_paths_wf [simp]: "hm_wf (rename_handle_paths old new h) = hm_wf h"
  by (simp add: hm_wf_def)

lemma rename_handle_paths_get:
  "hm_get (rename_handle_paths old new h) key = map_option (\<lambda>p.
    if cache_path_is_in_subtree p old then new @ subtree_suffix p old else p) (hm_get h key)"
  by (induction h) (auto simp: rename_handle_paths_def)

lemma apply_kind_wf:
  assumes "cache_wf c" "invalidation_paths_ok kind i"
  shows "cache_wf (apply_kind kind i c)"
  using assms
  by (cases kind) (auto simp: apply_kind_def remove_path_wf invalidation_paths_ok_def
      valid_non_root_iff intro!: cache_insert_wf)

lemma apply_contiguous_wf:
  assumes "kernel_wf k" "invalidation_paths_ok kind i"
  shows "kernel_wf (snd (apply_contiguous kind i k))"
proof (cases "kind = Inv_Rename")
  case True
  then show ?thesis
    using assms cache_rename_wf [of "ck_cache k" "inv_old_path i" "inv_new_path i"]
    by (auto simp: apply_contiguous_def kernel_wf_def lock_handles_def Let_def
        split: sum.splits)
next
  case False
  with assms show ?thesis by (simp add: apply_contiguous_def kernel_wf_def apply_kind_wf)
qed

lemma validated_kind_paths:
  assumes "validate_invalidation i = Ok ()" "invalidation_kind_try_from (inv_kind i) = Ok kind"
  shows "invalidation_paths_ok kind i"
  using assms validate_invalidation_kind [of i kind] by (simp add: invalidation_kind_iff)

lemma kernel_wf_upd:
  "kernel_wf (k\<lparr>ck_cache := c\<rparr>) \<longleftrightarrow> cache_wf c \<and> hm_wf (ck_open_handles k)"
  "kernel_wf (k\<lparr>ck_open_handles := h\<rparr>) \<longleftrightarrow> cache_wf (ck_cache k) \<and> hm_wf h"
  "kernel_wf (k\<lparr>ck_open_handles := h, ck_cache := c\<rparr>) \<longleftrightarrow> cache_wf c \<and> hm_wf h"
  by (simp_all add: kernel_wf_def)

lemma apply_invalidation_wf:
  assumes k: "kernel_wf k"
  shows "kernel_wf (snd (apply_invalidation namespace i allow k))"
proof -
  let ?k = "lock_cache k" and ?h = "lock_handles (lock_cache k)"
  have w: "cache_wf (ck_cache ?k)" "hm_wf (ck_open_handles ?k)"
    "cache_wf (ck_cache ?h)" "hm_wf (ck_open_handles ?h)" "kernel_wf ?k"
    using lock_cache_wf [OF k] lock_handles_wf [OF lock_cache_wf [OF k]]
    by (auto simp: kernel_wf_def)
  show ?thesis
    unfolding apply_invalidation_def Let_def
    by (auto simp: kernel_wf_upd w kernel_poison_wf [OF k] k validated_kind_paths
        split: sum.splits if_splits intro!: apply_contiguous_wf)
qed

text \<open>
  The operations on a cache kernel, with the panics that poison its mutexes. A
  lookup is recorded under the path of a child, never under the root.
\<close>

inductive kernel_step :: "CacheKernel \<Rightarrow> CacheKernel \<Rightarrow> bool" where
  lookup: "p \<noteq> ''/'' \<Longrightarrow> kernel_step k (insert_lookup k p inode count)"
| forget: "kernel_step k (FuseCache.forget k inode nlookup)"
| invalidate: "kernel_step k (snd (apply_invalidation namespace i allow k))"
| response: "kernel_step k (snd (kernel_apply_success_response_invalidation namespace i k))"
| cover: "kernel_step k (snd (kernel_require_covering_path_invalidation request response k))"
| uncertain: "kernel_step k (snd (poison_after_uncertain_path_mutation request k))"
| poison: "kernel_step k (kernel_poison k)"
| remember: "kernel_step k (remember_handle_path k inode handle p)"
| drop_handle: "kernel_step k (forget_handle_path k inode handle)"
| read_cache: "kernel_step k (lock_cache k)"
| read_both: "kernel_step k (lock_handles (lock_cache k))"
| cache_panic: "kernel_step k (k\<lparr>ck_cache_lock_poisoned := True\<rparr>)"
| handles_panic: "kernel_step k (k\<lparr>ck_handles_lock_poisoned := True\<rparr>)"

lemma apply_success_response_state:
  "snd (kernel_apply_success_response_invalidation namespace i k) =
    snd (apply_invalidation namespace i False k)"
  by (auto simp: kernel_apply_success_response_invalidation_def split: prod.splits sum.splits)

lemma kernel_step_wf:
  assumes "kernel_step k k'" "kernel_wf k"
  shows "kernel_wf k'"
  using assms
proof (induction rule: kernel_step.induct)
  case (lookup p k inode count)
  then show ?case unfolding insert_lookup_def
    by (intro with_cache_wf cache_insert_lookup_wf) auto
next
  case (forget k inode nlookup)
  then show ?case unfolding FuseCache.forget_def by (intro with_cache_wf cache_forget_wf)
next
  case (response k namespace i)
  then show ?case
    by (simp add: apply_success_response_state apply_invalidation_wf)
next
  case (cover k request response)
  then show ?case
    by (auto simp: kernel_require_covering_path_invalidation_def kernel_poison_wf
        split: option.splits)
next
  case (uncertain k request)
  then show ?case by (simp add: poison_after_uncertain_path_mutation_def kernel_poison_wf)
next
  case (remember k inode handle p)
  then show ?case using lock_handles_wf [OF remember]
    by (simp add: remember_handle_path_def Let_def kernel_wf_def)
next
  case (drop_handle k inode handle)
  then show ?case using lock_handles_wf [OF drop_handle]
    by (simp add: forget_handle_path_def Let_def kernel_wf_def)
qed (simp_all add: apply_invalidation_wf kernel_poison_wf, simp_all add: kernel_wf_def)

text \<open>
  C11: in every state the cache kernel can reach, by any sequence of lookups,
  forgets, invalidations, poisonings, handle updates and panics under its locks,
  the inode map is exactly the inverse of the path map, lookups are only counted
  for inodes that have a path, inode zero is not cached, and the root path has
  inode one.
\<close>

theorem cache_kernel_invariant:
  assumes "kernel_step\<^sup>*\<^sup>* CacheKernel_new k"
  shows "kernel_wf k"
  using assms
proof (induction rule: rtranclp_induct)
  case base
  show ?case by (simp add: kernel_wf_def CacheKernel_new_def cache_new_wf)
next
  case (step k k')
  then show ?case by (blast intro: kernel_step_wf)
qed

theorem cache_kernel_invariant_witness:
  "kernel_wf (insert_lookup CacheKernel_new ''/a'' 2 1)"
proof (rule cache_kernel_invariant)
  have "kernel_step CacheKernel_new (insert_lookup CacheKernel_new ''/a'' 2 1)"
    by (rule kernel_step.lookup) simp
  then show "kernel_step\<^sup>*\<^sup>* CacheKernel_new (insert_lookup CacheKernel_new ''/a'' 2 1)" by blast
qed

text \<open>
  Renaming in a well-formed cache moves every cached path below the old path,
  with its inode, to the corresponding path below the new one, drops what was
  cached there before, keeps every other path, and leaves the cache well formed;
  the result does not depend on the order in which the paths are visited.
\<close>

lemma cache_rename_moves:
  assumes "cache_wf c" "validate_rename_paths old new = Ok ()"
  shows "\<exists>c'. cache_rename c old new = Ok c' \<and> cache_wf c'
    \<and> pathmap c' = renamed_pathmap old new (pathmap c)"
proof -
  from assms obtain c' where "cache_rename c old new = Ok c'"
    "pathmap c' = renamed_pathmap old new (pathmap c)"
    using cache_rename_spec [of c old new] by (auto simp: cache_wf_def)
  then show ?thesis using cache_rename_wf [OF assms(1)] by blast
qed

definition sample_cache :: PathCache where
  "sample_cache = cache_insert (cache_insert (cache_insert PathCache_new ''/a'' 2) ''/a/x'' 3) ''/b'' 4"

lemma cache_rename_moves_witness:
  "\<exists>c'. cache_rename sample_cache ''/a'' ''/b'' = Ok c' \<and> pathmap c' ''/b/x'' = Some 3
    \<and> pathmap c' ''/b'' = Some 2 \<and> pathmap c' ''/a/x'' = None"
proof -
  have w: "cache_wf sample_cache"
    unfolding sample_cache_def by (intro cache_insert_wf cache_new_wf) auto
  have v: "validate_rename_paths ''/a'' ''/b'' = Ok ()" by code_simp
  have "renamed_pathmap ''/a'' ''/b'' (pathmap sample_cache) ''/b/x'' = Some 3"
    "renamed_pathmap ''/a'' ''/b'' (pathmap sample_cache) ''/b'' = Some 2"
    "renamed_pathmap ''/a'' ''/b'' (pathmap sample_cache) ''/a/x'' = None"
    by code_simp+
  with cache_rename_moves [OF w v] show ?thesis by metis
qed

end
