(* ===== verification/FuseCacheRefinement.thy ===== *)
theory FuseCacheRefinement
  imports FuseCache
begin

text \<open>
  What the cache kernel of \<open>fs-fuse/src/cache.rs\<close> promises its adapter: an
  invalidation in sequence has the effect it has on an abstract tree of paths, a
  gap poisons the cache until a full resync, open handles follow renames in every
  state of the cache, and lookups and forgets balance.
\<close>

section \<open>Refinement of an abstract tree of paths\<close>

text \<open>
  What an invalidation means for a finite map from paths to inodes, without
  sequence numbers, inverse maps or lookup counts.
\<close>

definition abstract_apply ::
    "InvalidationKind \<Rightarrow> Invalidation \<Rightarrow> (string \<Rightarrow> u64 option) \<Rightarrow> string \<Rightarrow> u64 option" where
  "abstract_apply kind i P =
    (case kind of
       Inv_Create \<Rightarrow>
         if inv_inode i = 0
         then (\<lambda>q. if cache_path_is_in_subtree q (inv_path i) then None else P q)
         else P(inv_path i \<mapsto> inv_inode i)
     | Inv_Delete \<Rightarrow> (\<lambda>q. if cache_path_is_in_subtree q (inv_path i) then None else P q)
     | Inv_Rename \<Rightarrow> renamed_pathmap (inv_old_path i) (inv_new_path i) P
     | Inv_FullResync \<Rightarrow> [''/'' \<mapsto> 1]
     | _ \<Rightarrow> P)"

lemma apply_kind_pathmap:
  assumes "cache_ok c" "invalidation_paths_ok kind i" "kind \<noteq> Inv_Rename" "kind \<noteq> Inv_FullResync"
  shows "pathmap (apply_kind kind i c) = abstract_apply kind i (pathmap c)
    \<and> pc_poisoned (apply_kind kind i c) = pc_poisoned c"
proof -
  have "inv_path i \<noteq> ''/''" if "kind = Inv_Create \<or> kind = Inv_Delete"
    using assms(2) that by (auto simp: invalidation_paths_ok_def valid_non_root_iff)
  then show ?thesis
    using remove_path_spec [OF assms(1), of "inv_path i"] assms(3,4)
    by (cases kind) (auto simp: apply_kind_def abstract_apply_def fun_eq_iff)
qed

lemma apply_contiguous_spec:
  assumes k: "kernel_wf k" and p: "invalidation_paths_ok kind i" and n: "kind \<noteq> Inv_FullResync"
  shows "fst (apply_contiguous kind i k) = Ok \<lparr>outcome_full_resync = False\<rparr>
    \<and> pathmap (ck_cache (snd (apply_contiguous kind i k)))
        = abstract_apply kind i (pathmap (ck_cache k))
    \<and> pc_poisoned (ck_cache (snd (apply_contiguous kind i k))) = pc_poisoned (ck_cache k)
    \<and> last_sequence (ck_cache (snd (apply_contiguous kind i k))) = inv_sequence i"
proof (cases "kind = Inv_Rename")
  case True
  then have "validate_rename_paths (inv_old_path i) (inv_new_path i) = Ok ()"
    using p by (simp add: invalidation_paths_ok_def)
  moreover have "cache_ok (ck_cache k)" using k by (simp add: kernel_wf_def cache_wf_def)
  ultimately obtain c' where "cache_rename (ck_cache k) (inv_old_path i) (inv_new_path i) = Ok c'"
    "pathmap c' = renamed_pathmap (inv_old_path i) (inv_new_path i) (pathmap (ck_cache k))"
    "pc_poisoned c' = pc_poisoned (ck_cache k)"
    using cache_rename_spec by blast
  with True show ?thesis
    by (simp add: apply_contiguous_def Let_def lock_handles_def abstract_apply_def)
next
  case False
  have "cache_ok (ck_cache k)" using k by (simp add: kernel_wf_def cache_wf_def)
  from apply_kind_pathmap [OF this p False n] False show ?thesis
    by (simp add: apply_contiguous_def)
qed

lemma apply_invalidation_valid:
  assumes "inv_namespace i = namespace" "validate_invalidation i = Ok ()"
    "inv_kind i = invalidation_wire_value kind"
  shows "apply_invalidation namespace i allow k =
    (let k = lock_cache k in
     if kind = Inv_FullResync
     then (Ok \<lparr>outcome_full_resync = True\<rparr>,
           k\<lparr>ck_cache := reset_with_sequence (ck_cache k) (inv_sequence i)\<rparr>)
     else if inv_sequence i \<noteq> last_sequence (ck_cache k) + 1
     then (let k = lock_handles k;
               k = (if kind = Inv_Rename
                    then k\<lparr>ck_open_handles := rename_handle_paths (inv_old_path i)
                        (inv_new_path i) (ck_open_handles k)\<rparr>
                    else k)
           in if inv_sequence i = 0 \<or> \<not> allow \<or> ck_open_handles k \<noteq> []
                 \<or> \<not> can_accept_noncontiguous_sequence (ck_cache k)
              then (Err StaleCache, k\<lparr>ck_cache := cache_poison (ck_cache k)\<rparr>)
              else apply_contiguous kind i
                (k\<lparr>ck_cache := (ck_cache k)\<lparr>last_sequence := inv_sequence i - 1\<rparr>\<rparr>))
     else apply_contiguous kind i k)"
proof -
  have "inv_namespace i \<noteq> []"
    using assms(2) validate_invalidation_kind [OF assms(3)] by simp
  moreover have "invalidation_kind_try_from (inv_kind i) = Ok kind"
    using assms(3) by (simp add: invalidation_kind_iff)
  ultimately show ?thesis using assms(1,2) by (simp add: apply_invalidation_def)
qed

definition kernel_healthy :: "CacheKernel \<Rightarrow> bool" where
  "kernel_healthy k \<longleftrightarrow> kernel_wf k \<and> \<not> ck_cache_lock_poisoned k \<and> \<not> ck_handles_lock_poisoned k"

lemma kernel_healthy_locks [simp]:
  "kernel_healthy k \<Longrightarrow> lock_cache k = k" "kernel_healthy k \<Longrightarrow> lock_handles k = k"
  by (simp_all add: kernel_healthy_def lock_cache_def lock_handles_def)

lemma apply_contiguous_locks:
  "ck_cache_lock_poisoned (snd (apply_contiguous kind i k)) = ck_cache_lock_poisoned k
    \<and> ck_handles_lock_poisoned (snd (apply_contiguous kind i k)) = ck_handles_lock_poisoned k"
  by (auto simp: apply_contiguous_def Let_def lock_handles_def split: sum.splits)

lemma apply_next_invalidation:
  assumes k: "kernel_healthy k" and ns: "inv_namespace i = namespace"
    and v: "validate_invalidation i = Ok ()" and kind: "inv_kind i = invalidation_wire_value kind"
    and s: "kind = Inv_FullResync \<or> inv_sequence i = last_sequence (ck_cache k) + 1"
  shows "case apply_invalidation namespace i allow k of (result, k') \<Rightarrow>
    result = Ok \<lparr>outcome_full_resync = (kind = Inv_FullResync)\<rparr> \<and> kernel_healthy k'
    \<and> pathmap (ck_cache k') = abstract_apply kind i (pathmap (ck_cache k))
    \<and> pc_poisoned (ck_cache k') = (pc_poisoned (ck_cache k) \<and> kind \<noteq> Inv_FullResync)
    \<and> last_sequence (ck_cache k') = inv_sequence i"
proof -
  have w: "kernel_wf k" using k by (simp add: kernel_healthy_def)
  have p: "invalidation_paths_ok kind i"
    using v validate_invalidation_kind [OF kind] by simp
  have h: "kernel_healthy (snd (apply_invalidation namespace i allow k))"
    using apply_invalidation_wf [OF w, of namespace i allow] k s apply_contiguous_locks [of kind i k]
    unfolding apply_invalidation_valid [OF ns v kind]
    by (auto simp: kernel_healthy_def lock_cache_def Let_def)
  show ?thesis
  proof (cases "kind = Inv_FullResync")
    case True
    with h k show ?thesis unfolding apply_invalidation_valid [OF ns v kind]
      by (simp add: Let_def abstract_apply_def reset_with_sequence_def)
  next
    case False
    with s have e: "apply_invalidation namespace i allow k = apply_contiguous kind i k"
      unfolding apply_invalidation_valid [OF ns v kind] using k by (simp add: Let_def)
    show ?thesis using apply_contiguous_spec [OF w p False] h False unfolding e
      by (simp add: case_prod_beta)
  qed
qed

text \<open>
  C10: a full resync, or the next invalidation of the sequence, is applied without
  error and does to the cache exactly what it means for the tree of paths; the
  cache stays well formed, records the sequence number, and only a full resync
  lifts the poison.
\<close>

theorem apply_invalidation_refines:
  assumes "kernel_healthy k" "inv_namespace i = namespace" "validate_invalidation i = Ok ()"
    "inv_kind i = invalidation_wire_value kind"
    "kind = Inv_FullResync \<or> inv_sequence i = last_sequence (ck_cache k) + 1"
  shows "case apply_invalidation namespace i allow k of (result, k') \<Rightarrow>
    result = Ok \<lparr>outcome_full_resync = (kind = Inv_FullResync)\<rparr> \<and> kernel_healthy k'
    \<and> pathmap (ck_cache k') = abstract_apply kind i (pathmap (ck_cache k))
    \<and> pc_poisoned (ck_cache k') = (pc_poisoned (ck_cache k) \<and> kind \<noteq> Inv_FullResync)
    \<and> last_sequence (ck_cache k') = inv_sequence i"
  by (rule apply_next_invalidation [OF assms])

definition sample_rename_invalidation :: "u64 \<Rightarrow> Invalidation" where
  "sample_rename_invalidation n =
    \<lparr>inv_namespace = ''n'', inv_sequence = n, inv_kind = invalidation_wire_value Inv_Rename,
     inv_path = [], inv_old_path = ''/a'', inv_new_path = ''/b'', inv_inode = 0, inv_handle = 0,
     inv_request_id = ''r''\<rparr>"

definition sample_kernel :: CacheKernel where
  "sample_kernel = insert_lookup CacheKernel_new ''/a'' 2 1"

lemma sample_kernel_maps:
  "pathmap (ck_cache sample_kernel) = [''/'' \<mapsto> 1, ''/a'' \<mapsto> 2]"
  "last_sequence (ck_cache sample_kernel) = 0" "pc_poisoned (ck_cache sample_kernel) = False"
  "ck_cache_lock_poisoned sample_kernel = False" "ck_handles_lock_poisoned sample_kernel = False"
  by (auto simp: sample_kernel_def insert_lookup_def with_cache_def lock_cache_def
      CacheKernel_new_def cache_insert_lookup_def PathCache_new_def fun_eq_iff)

lemma sample_kernel_healthy: "kernel_healthy sample_kernel"
proof -
  have "kernel_wf CacheKernel_new" by (simp add: kernel_wf_def CacheKernel_new_def cache_new_wf)
  then have "kernel_wf sample_kernel"
    using kernel_step_wf [OF kernel_step.lookup, of "''/a''" CacheKernel_new 2 1]
    by (simp add: sample_kernel_def)
  moreover have "\<not> ck_cache_lock_poisoned sample_kernel" "\<not> ck_handles_lock_poisoned sample_kernel"
    by (simp_all add: sample_kernel_maps)
  ultimately show ?thesis by (simp add: kernel_healthy_def)
qed

theorem apply_invalidation_refines_witness:
  "pathmap (ck_cache (snd (apply_invalidation ''n'' (sample_rename_invalidation 1) False sample_kernel)))
    ''/b'' = Some 2"
proof -
  have v: "validate_invalidation (sample_rename_invalidation 1) = Ok ()" by code_simp
  have n: "inv_namespace (sample_rename_invalidation 1) = ''n''"
    "inv_kind (sample_rename_invalidation 1) = invalidation_wire_value Inv_Rename"
    by (simp_all add: sample_rename_invalidation_def)
  have s: "Inv_Rename = Inv_FullResync
      \<or> inv_sequence (sample_rename_invalidation 1) = last_sequence (ck_cache sample_kernel) + 1"
    by (simp add: sample_kernel_maps sample_rename_invalidation_def)
  have "abstract_apply Inv_Rename (sample_rename_invalidation 1) (pathmap (ck_cache sample_kernel)) ''/b''
      = Some 2"
    by (simp add: sample_kernel_maps sample_rename_invalidation_def abstract_apply_def
        renamed_pathmap_def cache_path_is_in_subtree_def)
  with apply_invalidation_refines [OF sample_kernel_healthy n(1) v n(2) s, of False]
  show ?thesis by (simp add: case_prod_beta)
qed

section \<open>Poison, gaps and recovery\<close>

text \<open>The poison survives every update of the maps.\<close>

lemma fold_poisoned:
  assumes "\<And>x c. pc_poisoned (f x c) = pc_poisoned c"
  shows "pc_poisoned (fold f xs c) = pc_poisoned c"
  by (induction xs arbitrary: c) (simp_all add: assms)

lemma remove_path_poisoned [simp]: "pc_poisoned (remove_path c p) = pc_poisoned c"
  by (simp add: remove_path_def fold_poisoned)

lemma add_lookup_poisoned [simp]: "pc_poisoned (add_lookup c i n) = pc_poisoned c"
  by (simp add: add_lookup_def)

lemma cache_insert_lookup_poisoned [simp]:
  "pc_poisoned (cache_insert_lookup c p i n) = pc_poisoned c"
  by (simp add: cache_insert_lookup_def)

lemma remove_inode_poisoned [simp]: "pc_poisoned (remove_inode c i) = pc_poisoned c"
  by (auto simp: remove_inode_def fold_poisoned split: option.splits)

lemma cache_forget_poisoned [simp]: "pc_poisoned (cache_forget c i n) = pc_poisoned c"
  by (auto simp: cache_forget_def Let_def split: option.splits)

lemma apply_kind_poisoned [simp]: "pc_poisoned (apply_kind kind i c) = pc_poisoned c"
  by (cases kind) (auto simp: apply_kind_def)

lemma cache_rename_poisoned:
  assumes "cache_rename c old new = Ok c'"
  shows "pc_poisoned c' = pc_poisoned c"
  using assms
  by (auto simp: cache_rename_def Let_def remove_subtree_except_def fold_poisoned ok_iffs)

lemma apply_contiguous_poisoned:
  "pc_poisoned (ck_cache k) \<Longrightarrow> pc_poisoned (ck_cache (snd (apply_contiguous kind i k)))"
  by (auto simp: apply_contiguous_def Let_def lock_handles_def dest: cache_rename_poisoned
      split: sum.splits)

lemma with_cache_poisoned:
  "(\<And>c. pc_poisoned c \<Longrightarrow> pc_poisoned (f c)) \<Longrightarrow> pc_poisoned (ck_cache k)
    \<Longrightarrow> pc_poisoned (ck_cache (with_cache f k))"
  by (simp add: with_cache_def lock_cache_def Let_def)

lemma kernel_poison_poisoned [simp]: "pc_poisoned (ck_cache (kernel_poison k))"
  by (simp add: kernel_poison_def with_cache_def Let_def)

lemma lock_cache_poisoned: "pc_poisoned (ck_cache k) \<Longrightarrow> pc_poisoned (ck_cache (lock_cache k))"
  by (simp add: lock_cache_def)

text \<open>A valid full resync of the served namespace.\<close>

definition full_resync_for :: "string \<Rightarrow> Invalidation \<Rightarrow> bool" where
  "full_resync_for namespace i \<longleftrightarrow> inv_namespace i = namespace
    \<and> validate_invalidation i = Ok () \<and> inv_kind i = invalidation_wire_value Inv_FullResync"

lemma validate_invalidation_has_kind:
  assumes "validate_invalidation i = Ok ()"
  shows "\<exists>kind. inv_kind i = invalidation_wire_value kind"
proof (cases "invalidation_kind_try_from (inv_kind i)")
  case (Inl e)
  with assms show ?thesis by (simp add: validate_invalidation_def split: if_splits)
next
  case (Inr kind)
  then show ?thesis by (auto simp: invalidation_kind_iff)
qed

lemma apply_invalidation_poisoned:
  assumes p: "pc_poisoned (ck_cache k)" and n: "\<not> full_resync_for namespace i"
  shows "pc_poisoned (ck_cache (snd (apply_invalidation namespace i allow k)))"
proof (cases "inv_namespace i = namespace \<and> validate_invalidation i = Ok ()")
  case True
  then obtain kind where kind: "inv_kind i = invalidation_wire_value kind"
    using validate_invalidation_has_kind by blast
  with True n have "kind \<noteq> Inv_FullResync" by (auto simp: full_resync_for_def)
  with p True show ?thesis
    unfolding apply_invalidation_valid [OF conjunct1 [OF True] conjunct2 [OF True] kind]
    by (simp add: Let_def lock_cache_poisoned apply_contiguous_poisoned lock_handles_def)
next
  case False
  with p show ?thesis by (auto simp: apply_invalidation_def split: sum.splits)
qed

lemma poisoned_queries:
  assumes "pc_poisoned (ck_cache k)"
  shows "fst (kernel_path_for_inode k inode) = Err StaleCache" "fst (kernel_parent_inode k inode) = Err StaleCache"
    "fst (parent_and_path_for_inode k inode) = Err StaleCache"
    "fst (kernel_child_path k inode name) = try_seq (validate_child_name name) (Err StaleCache)"
    "fst (rename_paths k inode name inode' name') = try_seq (validate_child_name name) (Err StaleCache)"
    "fst (hardlink_paths k inode inode' name) = Err StaleCache"
  using lock_cache_poisoned [OF assms]
  by (simp_all add: kernel_path_for_inode_def kernel_parent_inode_def parent_and_path_for_inode_def kernel_child_path_def
      rename_paths_def hardlink_paths_def with_cache_snapshot_def Let_def cache_path_for_inode_def cache_parent_inode_def
      cache_child_path_def try_seq_def try_bind_def split: sum.split)

text \<open>The paths of open handles are kept apart from the cache.\<close>

lemma poisoned_handle_queries:
  assumes "pc_poisoned (ck_cache k)"
  shows "fst (kernel_path_for_handle_bound_call k inode handle)
      = ok_or StaleCache (hm_get (ck_open_handles (lock_handles k)) \<lparr>ohk_inode = inode, ohk_handle = handle\<rparr>)"
    "fst (path_for_release k inode handle)
      = ok_or StaleCache (hm_get (ck_open_handles (lock_handles k)) \<lparr>ohk_inode = inode, ohk_handle = handle\<rparr>)"
    "fst (copy_file_range_paths k inode handle inode' handle')
      = try_bind (fst (kernel_path_for_handle_bound_call k inode handle)) (\<lambda>p.
        map_ok (Pair p) (fst (kernel_path_for_handle_bound_call k inode' handle')))"
proof -
  have locked: "ck_open_handles (lock_handles (lock_cache k)) = ck_open_handles (lock_handles k)"
    "pc_poisoned (ck_cache (lock_handles (lock_cache k)))"
    using lock_cache_poisoned [OF assms] by (simp_all add: lock_handles_def lock_cache_def)
  have bound: "path_for_handle_bound_call c handles i h
      = ok_or StaleCache (hm_get handles \<lparr>ohk_inode = i, ohk_handle = h\<rparr>)"
    if "pc_poisoned c" for c handles i h
    using that by (simp add: path_for_handle_bound_call_def split: option.split)
  show q: "fst (kernel_path_for_handle_bound_call k inode handle)
      = ok_or StaleCache (hm_get (ck_open_handles (lock_handles k)) \<lparr>ohk_inode = inode, ohk_handle = handle\<rparr>)"
    for inode handle
    using locked by (simp add: kernel_path_for_handle_bound_call_def with_cache_and_handles_snapshot_def Let_def bound)
  then show "fst (path_for_release k inode handle)
      = ok_or StaleCache (hm_get (ck_open_handles (lock_handles k)) \<lparr>ohk_inode = inode, ohk_handle = handle\<rparr>)"
    by (simp add: path_for_release_def)
  show "fst (copy_file_range_paths k inode handle inode' handle')
      = try_bind (fst (kernel_path_for_handle_bound_call k inode handle)) (\<lambda>p.
        map_ok (Pair p) (fst (kernel_path_for_handle_bound_call k inode' handle')))"
    unfolding q using locked
    by (simp add: copy_file_range_paths_def with_cache_and_handles_snapshot_def Let_def bound try_bind_def map_ok_def
        cong: sum.case_cong)
qed

text \<open>
  C22: once poisoned the cache is not used to answer for a path. The queries for the path
  and the parent of an inode, for the path of a child, and for the paths of a rename and of
  a hard link end with a stale error, unless the name of the child is refused first. A query
  bound to an open handle, a release among them, is answered with the path retained for
  the handle and otherwise ends with a stale error as well. (The accessor \<open>cached_path\<close>,
  which shows the cached path of an inode as it is, does not look at the poison.) No step of
  the adapter lifts the poison except a valid full resync of its own namespace.
\<close>

theorem poison_until_full_resync:
  assumes "kernel_step k k'" "pc_poisoned (ck_cache k)"
  shows "fst (kernel_path_for_inode k inode) = Err StaleCache
    \<and> fst (kernel_parent_inode k inode) = Err StaleCache
    \<and> fst (parent_and_path_for_inode k inode) = Err StaleCache
    \<and> fst (kernel_child_path k inode name) = try_seq (validate_child_name name) (Err StaleCache)
    \<and> fst (rename_paths k inode name inode' name') = try_seq (validate_child_name name) (Err StaleCache)
    \<and> fst (hardlink_paths k inode inode' name) = Err StaleCache
    \<and> fst (kernel_path_for_handle_bound_call k inode handle)
        = ok_or StaleCache (hm_get (ck_open_handles (lock_handles k)) \<lparr>ohk_inode = inode, ohk_handle = handle\<rparr>)
    \<and> fst (path_for_release k inode handle)
        = ok_or StaleCache (hm_get (ck_open_handles (lock_handles k)) \<lparr>ohk_inode = inode, ohk_handle = handle\<rparr>)
    \<and> fst (copy_file_range_paths k inode handle inode' handle')
        = try_bind (fst (kernel_path_for_handle_bound_call k inode handle)) (\<lambda>p.
          map_ok (Pair p) (fst (kernel_path_for_handle_bound_call k inode' handle')))
    \<and> (pc_poisoned (ck_cache k')
       \<or> (\<exists>namespace i allow. full_resync_for namespace i
            \<and> k' = snd (apply_invalidation namespace i allow k)))"
proof (intro conjI poisoned_queries poisoned_handle_queries assms(2))
  show "pc_poisoned (ck_cache k') \<or> (\<exists>namespace i allow. full_resync_for namespace i
      \<and> k' = snd (apply_invalidation namespace i allow k))"
    using assms
  proof (cases rule: kernel_step.cases)
    case (invalidate namespace i allow)
    then show ?thesis using apply_invalidation_poisoned [OF assms(2)] by blast
  next
    case (response namespace i)
    then show ?thesis
      using apply_invalidation_poisoned [OF assms(2)] unfolding apply_success_response_state by blast
  next
    case (cover request resp)
    then show ?thesis using assms(2)
      by (auto simp: kernel_require_covering_path_invalidation_def split: option.splits)
  qed (use assms(2) in \<open>simp_all add: insert_lookup_def FuseCache.forget_def
      with_cache_poisoned poison_after_uncertain_path_mutation_def remember_handle_path_def
      forget_handle_path_def lock_handles_def lock_cache_def Let_def\<close>)
qed

definition sample_poisoned_kernel :: CacheKernel where
  "sample_poisoned_kernel = kernel_poison (remember_handle_path sample_kernel 2 7 ''/a'')"

theorem poison_until_full_resync_witness:
  "fst (kernel_child_path sample_poisoned_kernel 1 ''x'') = Err StaleCache
    \<and> fst (kernel_path_for_handle_bound_call sample_poisoned_kernel 2 7) = Ok ''/a''
    \<and> fst (path_for_release sample_poisoned_kernel 2 8) = Err StaleCache
    \<and> (pc_poisoned (ck_cache (kernel_poison sample_poisoned_kernel))
      \<or> (\<exists>namespace i allow. full_resync_for namespace i
          \<and> kernel_poison sample_poisoned_kernel = snd (apply_invalidation namespace i allow sample_poisoned_kernel)))"
proof -
  have p: "pc_poisoned (ck_cache sample_poisoned_kernel)"
    by (simp add: sample_poisoned_kernel_def kernel_poison_poisoned)
  have v: "validate_child_name ''x'' = Ok ()" by code_simp
  have "ck_open_handles sample_kernel = []"
    by (simp add: sample_kernel_def insert_lookup_def with_cache_def lock_cache_def CacheKernel_new_def)
  then have "ck_open_handles (lock_handles sample_poisoned_kernel) = hm_insert \<lparr>ohk_inode = 2, ohk_handle = 7\<rparr> ''/a'' []"
    by (simp add: sample_poisoned_kernel_def kernel_poison_def with_cache_def lock_cache_def lock_handles_def
        remember_handle_path_def sample_kernel_maps)
  then have h: "hm_get (ck_open_handles (lock_handles sample_poisoned_kernel)) \<lparr>ohk_inode = 2, ohk_handle = 7\<rparr> = Some ''/a''"
    "hm_get (ck_open_handles (lock_handles sample_poisoned_kernel)) \<lparr>ohk_inode = 2, ohk_handle = 8\<rparr> = None"
    by simp_all
  note q = poison_until_full_resync [OF kernel_step.poison p]
  have "fst (kernel_child_path sample_poisoned_kernel 1 ''x'') = try_seq (validate_child_name ''x'') (Err StaleCache)"
    "fst (kernel_path_for_handle_bound_call sample_poisoned_kernel 2 7)
      = ok_or StaleCache (hm_get (ck_open_handles (lock_handles sample_poisoned_kernel)) \<lparr>ohk_inode = 2, ohk_handle = 7\<rparr>)"
    "fst (path_for_release sample_poisoned_kernel 2 8)
      = ok_or StaleCache (hm_get (ck_open_handles (lock_handles sample_poisoned_kernel)) \<lparr>ohk_inode = 2, ohk_handle = 8\<rparr>)"
    using q by blast+
  moreover have "pc_poisoned (ck_cache (kernel_poison sample_poisoned_kernel))
      \<or> (\<exists>namespace i allow. full_resync_for namespace i
          \<and> kernel_poison sample_poisoned_kernel = snd (apply_invalidation namespace i allow sample_poisoned_kernel))"
    using q by blast
  ultimately show ?thesis by (simp only: v h result_simps simp_thms)
qed

text \<open>
  C23: an invalidation that is not the next of the sequence, and that the cache may
  not take as a new baseline, is refused as stale and poisons the cache; the next
  full resync restores a clean one that holds the root alone.
\<close>

theorem sequence_gap_poisons:
  assumes "kernel_healthy k" "inv_namespace i = namespace" "validate_invalidation i = Ok ()"
    "inv_kind i \<noteq> invalidation_wire_value Inv_FullResync"
    "inv_sequence i \<noteq> last_sequence (ck_cache k) + 1"
    "\<not> allow \<or> inv_sequence i = 0 \<or> ck_open_handles k \<noteq> []
      \<or> \<not> can_accept_noncontiguous_sequence (ck_cache k)"
    "full_resync_for namespace r"
  shows "case apply_invalidation namespace i allow k of (result, k') \<Rightarrow>
    result = Err StaleCache \<and> pc_poisoned (ck_cache k')
    \<and> (case apply_invalidation namespace r allow' k' of (result, k'') \<Rightarrow>
        result = Ok \<lparr>outcome_full_resync = True\<rparr> \<and> kernel_healthy k''
        \<and> \<not> pc_poisoned (ck_cache k'') \<and> pathmap (ck_cache k'') = [''/'' \<mapsto> 1]
        \<and> last_sequence (ck_cache k'') = inv_sequence r)"
proof -
  obtain kind where kind: "inv_kind i = invalidation_wire_value kind"
    using assms(3) validate_invalidation_has_kind by blast
  let ?k = "snd (apply_invalidation namespace i allow k)"
  have w: "kernel_wf ?k"
    using apply_invalidation_wf assms(1) by (simp add: kernel_healthy_def)
  have ne: "rename_handle_paths old new h = [] \<longleftrightarrow> h = []" for old new h
    by (metis rename_handle_paths_keys map_is_Nil_conv)
  have g: "fst (apply_invalidation namespace i allow k) = Err StaleCache
      \<and> pc_poisoned (ck_cache ?k) \<and> ck_cache_lock_poisoned ?k = ck_cache_lock_poisoned k
      \<and> ck_handles_lock_poisoned ?k = ck_handles_lock_poisoned k"
    using assms kind unfolding apply_invalidation_valid [OF assms(2,3) kind]
    by (auto simp: Let_def ne)
  then have h: "kernel_healthy ?k" using w assms(1) by (simp add: kernel_healthy_def)
  from assms(7) have r: "inv_namespace r = namespace" "validate_invalidation r = Ok ()"
    "inv_kind r = invalidation_wire_value Inv_FullResync" by (simp_all add: full_resync_for_def)
  from apply_next_invalidation [OF h r, of allow'] g show ?thesis
    by (simp add: case_prod_beta abstract_apply_def)
qed

definition sample_resync_invalidation :: Invalidation where
  "sample_resync_invalidation =
    \<lparr>inv_namespace = ''n'', inv_sequence = 6, inv_kind = invalidation_wire_value Inv_FullResync,
     inv_path = [], inv_old_path = [], inv_new_path = [], inv_inode = 0, inv_handle = 0,
     inv_request_id = ''r''\<rparr>"

theorem sequence_gap_poisons_witness:
  "fst (apply_invalidation ''n'' (sample_rename_invalidation 5) False sample_kernel) = Err StaleCache"
proof -
  have v: "validate_invalidation (sample_rename_invalidation 5) = Ok ()" by code_simp
  have n: "inv_namespace (sample_rename_invalidation 5) = ''n''"
    "inv_kind (sample_rename_invalidation 5) \<noteq> invalidation_wire_value Inv_FullResync"
    "inv_sequence (sample_rename_invalidation 5) \<noteq> last_sequence (ck_cache sample_kernel) + 1"
    by (simp_all add: sample_rename_invalidation_def sample_kernel_maps)
  have "full_resync_for ''n'' sample_resync_invalidation"
    unfolding full_resync_for_def by code_simp
  from sequence_gap_poisons [OF sample_kernel_healthy n(1) v n(2,3) _ this, of False False]
  show ?thesis by (simp add: case_prod_beta)
qed

section \<open>Open handles\<close>

text \<open>The path of an open handle after a rename.\<close>

definition renamed_path :: "string \<Rightarrow> string \<Rightarrow> string \<Rightarrow> string" where
  "renamed_path old new p =
    (if cache_path_is_in_subtree p old then new @ subtree_suffix p old else p)"

lemma handle_bound_retained:
  assumes "\<not> ck_handles_lock_poisoned k"
    "hm_get (ck_open_handles k) \<lparr>ohk_inode = inode, ohk_handle = handle\<rparr> = Some p"
  shows "fst (kernel_path_for_handle_bound_call k inode handle) = Ok p"
  using assms
  by (simp add: kernel_path_for_handle_bound_call_def with_cache_and_handles_snapshot_def
      path_for_handle_bound_call_def lock_handles_def lock_cache_def Let_def)

lemma rename_get_renamed:
  "hm_get h key = Some p \<Longrightarrow>
    hm_get (rename_handle_paths old new h) key = Some (renamed_path old new p)"
  by (simp add: rename_handle_paths_get renamed_path_def)

lemma renamed_handle_path:
  assumes "\<not> ck_handles_lock_poisoned k"
    "hm_get (ck_open_handles k) \<lparr>ohk_inode = inode, ohk_handle = handle\<rparr> = Some p"
    "inv_namespace i = namespace" "validate_invalidation i = Ok ()"
    "inv_kind i = invalidation_wire_value Inv_Rename"
  shows "fst (kernel_path_for_handle_bound_call (snd (apply_invalidation namespace i allow k))
      inode handle) = Ok (renamed_path (inv_old_path i) (inv_new_path i) p)"
proof -
  have v: "validate_rename_paths (inv_old_path i) (inv_new_path i) = Ok ()"
    using assms(4) validate_invalidation_kind [OF assms(5)] by (simp add: invalidation_paths_ok_def)
  have ne: "rename_handle_paths old new (ck_open_handles k) \<noteq> []" for old new
    using assms(2) by (metis rename_handle_paths_keys map_is_Nil_conv map_of.simps(1) option.distinct(1))
  show ?thesis
    unfolding apply_invalidation_valid [OF assms(3-5)] using assms(1) ne v
    by (auto intro!: handle_bound_retained rename_get_renamed assms(2)
        simp: Let_def lock_cache_def lock_handles_def apply_contiguous_def cache_rename_def ok_iffs)
qed

text \<open>
  A rename carries every open handle along, whatever the state of the path
  cache: even where the rename is out of sequence, is refused and poisons the cache,
  calls bound to the handle go on under the renamed path.
\<close>

lemma open_handle_follows_rename:
  assumes "\<not> ck_handles_lock_poisoned k"
    "hm_get (ck_open_handles k) \<lparr>ohk_inode = inode, ohk_handle = handle\<rparr> = Some p"
    "inv_namespace i = namespace" "validate_invalidation i = Ok ()"
    "inv_kind i = invalidation_wire_value Inv_Rename"
  shows "fst (kernel_path_for_handle_bound_call (snd (apply_invalidation namespace i allow k))
      inode handle) = Ok (renamed_path (inv_old_path i) (inv_new_path i) p)"
  using assms by (rule renamed_handle_path)

definition sample_open_kernel :: CacheKernel where
  "sample_open_kernel = remember_handle_path CacheKernel_new 2 7 ''/a/x''"

lemma open_handle_follows_rename_witness:
  "fst (kernel_path_for_handle_bound_call
      (snd (apply_invalidation ''n'' (sample_rename_invalidation 9) True sample_open_kernel)) 2 7)
    = Ok ''/b/x''"
proof -
  have v: "validate_invalidation (sample_rename_invalidation 9) = Ok ()" by code_simp
  have "\<not> ck_handles_lock_poisoned sample_open_kernel"
    "hm_get (ck_open_handles sample_open_kernel) \<lparr>ohk_inode = 2, ohk_handle = 7\<rparr> = Some ''/a/x''"
    by (simp_all add: sample_open_kernel_def remember_handle_path_def lock_handles_def
        CacheKernel_new_def)
  from open_handle_follows_rename [OF this _ v, of "''n''" True] show ?thesis
    by (simp add: sample_rename_invalidation_def renamed_path_def cache_path_is_in_subtree_def
        subtree_suffix_def)
qed

section \<open>A panic under the cache lock\<close>

lemma apply_invalidation_lock:
  "ck_cache_lock_poisoned (snd (apply_invalidation namespace i allow k)) = ck_cache_lock_poisoned k"
  by (auto simp: apply_invalidation_def Let_def kernel_poison_def with_cache_def lock_cache_def
      lock_handles_def apply_contiguous_locks split: sum.splits)

text \<open>
  A panic while the cache mutex is held is final. The mutex keeps its poison
  flag, so every later acquisition poisons the cache again, and no invalidation, a
  full resync included, makes a path query succeed.
\<close>

lemma panic_under_cache_lock_is_final:
  assumes "ck_cache_lock_poisoned k"
  shows "fst (kernel_path_for_inode (snd (apply_invalidation namespace i allow k)) inode)
    = Err StaleCache"
  using assms
  by (simp add: kernel_path_for_inode_def with_cache_snapshot_def Let_def cache_path_for_inode_def
      lock_cache_def apply_invalidation_lock)

lemma panic_under_cache_lock_is_final_witness:
  "full_resync_for ''n'' sample_resync_invalidation
    \<and> fst (kernel_path_for_inode (snd (apply_invalidation ''n'' sample_resync_invalidation True
        (CacheKernel_new\<lparr>ck_cache_lock_poisoned := True\<rparr>))) 1) = Err StaleCache"
proof
  show "full_resync_for ''n'' sample_resync_invalidation"
    unfolding full_resync_for_def by code_simp
qed (rule panic_under_cache_lock_is_final, simp)

section \<open>Lookup counts\<close>

text \<open>The lookups counted for an inode; none is the same as zero.\<close>

definition lookups :: "PathCache \<Rightarrow> u64 \<Rightarrow> nat" where
  "lookups c i = (case countmap c i of None \<Rightarrow> 0 | Some n \<Rightarrow> unat n)"

lemma cache_insert_counts:
  assumes "linked (pathmap c) (inodemap c)"
  shows "countmap (cache_insert c p i) i = countmap c i"
proof -
  have "unlink_map (inodemap c) j p j \<noteq> None \<or> i \<noteq> j" if "pathmap c p = Some j" "j \<noteq> i" for j
    using that by simp
  then show ?thesis
    by (auto simp: cache_insert_def remove_inode_path_counts split: option.splits)
qed

lemma cache_insert_known:
  assumes "i \<noteq> 0"
  shows "inodemap (cache_insert c p i) i \<noteq> None"
  using assms by (simp add: cache_insert_def link_map_def)

lemma lookups_insert_lookup:
  assumes "cache_wf c" "i \<noteq> 0" "i \<noteq> 1" "n \<noteq> 0"
  shows "lookups (cache_insert_lookup c p i n) i = min (lookups c i + unat n) (2 ^ 64 - 1)"
proof -
  have "linked (pathmap c) (inodemap c)" using assms(1) by (simp add: cache_wf_def cache_ok_def)
  from cache_insert_counts [OF this, of p i] cache_insert_known [OF assms(2), of c p] assms
  show ?thesis
    by (auto simp: lookups_def cache_insert_lookup_def add_lookup_def unat_saturating_add
        split: option.splits)
qed

lemma cache_insert_lookup_pathmap:
  "i \<noteq> 0 \<Longrightarrow> pathmap (cache_insert_lookup c p i n) = (pathmap c)(p \<mapsto> i)"
  by (simp add: cache_insert_lookup_def)

lemma repeated_lookups:
  assumes c: "cache_wf c" "lookups c i = 0" and i: "i \<noteq> 0" "i \<noteq> 1" and p: "p \<noteq> ''/''"
  defines "f \<equiv> \<lambda>n. ((\<lambda>c. cache_insert_lookup c p i 1) ^^ n) c"
  shows "cache_wf (f n) \<and> lookups (f n) i = min n (2 ^ 64 - 1) \<and> (n \<noteq> 0 \<longrightarrow> pathmap (f n) p = Some i)"
proof (induction n)
  case 0
  show ?case by (simp add: f_def c)
next
  case (Suc n)
  have f: "f (Suc n) = cache_insert_lookup (f n) p i 1" by (simp add: f_def)
  have "cache_wf (f (Suc n))" unfolding f using Suc p by (simp add: cache_insert_lookup_wf)
  moreover have "lookups (f (Suc n)) i = min (Suc n) (2 ^ 64 - 1)"
    unfolding f using Suc lookups_insert_lookup [of "f n" i 1 p] i by simp
  ultimately show ?case using i by (simp add: f cache_insert_lookup_pathmap)
qed

text \<open>
  C24: an inode looked up \<open>n\<close> times under a path stays cached until the kernel has
  forgotten \<open>n\<close> lookups, counted up to the largest 64-bit number: a smaller forget
  keeps the path, one at least as large drops it.
\<close>

theorem forget_balances_lookups:
  assumes "cache_wf c" "lookups c i = 0" "i \<noteq> 0" "i \<noteq> 1" "p \<noteq> ''/''" "0 < n" "0 < m"
  shows "pathmap (cache_forget (((\<lambda>c. cache_insert_lookup c p i 1) ^^ n) c) i m) p =
    (if unat m < min n (2 ^ 64 - 1) then Some i else None)"
proof -
  let ?c = "((\<lambda>c. cache_insert_lookup c p i 1) ^^ n) c"
  have l: "cache_wf ?c" "lookups ?c i = min n (2 ^ 64 - 1)" "pathmap ?c p = Some i"
    using repeated_lookups [OF assms(1-5), of n] assms(6) by simp_all
  then obtain k where k: "countmap ?c i = Some k" "unat k = min n (2 ^ 64 - 1)"
    using assms(6) by (auto simp: lookups_def split: option.splits)
  have "cache_ok ?c" using l(1) by (simp add: cache_wf_def)
  from cache_forget_pathmap [OF this, of i m] k l(3) assms(4,7)
  show ?thesis by (auto simp: word_le_nat_alt)
qed

theorem forget_balances_lookups_witness:
  "pathmap (cache_forget (((\<lambda>c. cache_insert_lookup c ''/a'' 2 1) ^^ 2) PathCache_new) 2 1) ''/a''
    = Some 2"
proof -
  have "lookups PathCache_new 2 = 0"
    by (simp add: lookups_def PathCache_new_def cache_insert_def record_path_def)
  from forget_balances_lookups [OF cache_new_wf this, of "''/a''" 2 1] show ?thesis by simp
qed

end
