(* ===== verification/FsCodec.thy ===== *)
theory FsCodec
  imports FsEnvelope
begin

text \<open>
  The wire codec, \<open>fs-protocol/src/codec.rs\<close> and the encoding methods of
  \<open>payload.rs\<close>. The protobuf encoding of a single message is generated by prost: it
  is an argument, one encoder and one decoder per message type, each failing with
  prost's error text. What the code relies on is that decoding an encoded message
  gives it back. The lemmas show that envelopes survive the wire and that what
  is decoded has been validated.
\<close>

section \<open>Message codecs\<close>

record 'm codec =
  enc :: "'m \<Rightarrow> string + bytes"
  dec :: "bytes \<Rightarrow> string + 'm"

text \<open>
  The documented behaviour of a prost message: writing it to a growable buffer
  succeeds, and reading the bytes back gives the message.
\<close>

definition roundtrips :: "'m codec \<Rightarrow> 'm \<Rightarrow> bool" where
  "roundtrips c m = (case enc c m of Ok b \<Rightarrow> dec c b = Ok m | Err _ \<Rightarrow> False)"

definition encode_message :: "'m codec \<Rightarrow> 'm \<Rightarrow> ProtocolError + bytes" where
  "encode_message c m = map_err Encode (enc c m)"

definition decode_message :: "'m codec \<Rightarrow> bytes \<Rightarrow> ProtocolError + 'm" where
  "decode_message c b = map_err Decode (dec c b)"

record request_codecs =
  rq_lookup :: "LookupRequest codec"
  rq_getattr :: "GetattrRequest codec"
  rq_readdir :: "ReaddirRequest codec"
  rq_open :: "OpenRequest codec"
  rq_read :: "ReadRequest codec"
  rq_write :: "WriteRequest codec"
  rq_create :: "CreateRequest codec"
  rq_rename :: "RenameRequest codec"
  rq_unlink :: "UnlinkRequest codec"
  rq_mkdir :: "MkdirRequest codec"
  rq_rmdir :: "RmdirRequest codec"
  rq_statfs :: "StatfsRequest codec"
  rq_getxattr :: "GetxattrRequest codec"
  rq_setxattr :: "SetxattrRequest codec"
  rq_listxattr :: "ListxattrRequest codec"
  rq_removexattr :: "RemovexattrRequest codec"
  rq_release :: "ReleaseRequest codec"
  rq_readlink :: "ReadlinkRequest codec"
  rq_symlink :: "SymlinkRequest codec"
  rq_hardlink :: "HardlinkRequest codec"
  rq_setattr :: "SetattrRequest codec"
  rq_flush :: "FlushRequest codec"
  rq_fsync :: "FsyncRequest codec"
  rq_fsyncdir :: "FsyncdirRequest codec"
  rq_getlk :: "GetlkRequest codec"
  rq_setlk :: "SetlkRequest codec"
  rq_flock :: "FlockRequest codec"
  rq_copyfilerange :: "CopyFileRangeRequest codec"
  rq_fallocate :: "FallocateRequest codec"
  rq_lseek :: "LseekRequest codec"

record response_codecs =
  rs_lookup :: "LookupResponse codec"
  rs_getattr :: "GetattrResponse codec"
  rs_readdir :: "ReaddirResponse codec"
  rs_open :: "OpenResponse codec"
  rs_read :: "ReadResponse codec"
  rs_write :: "WriteResponse codec"
  rs_create :: "CreateResponse codec"
  rs_empty :: "EmptyResponse codec"
  rs_statfs :: "StatfsResponse codec"
  rs_getxattr :: "GetxattrResponse codec"
  rs_listxattr :: "ListxattrResponse codec"
  rs_readlink :: "ReadlinkResponse codec"
  rs_symlink :: "SymlinkResponse codec"
  rs_hardlink :: "HardlinkResponse codec"
  rs_setattr :: "SetattrResponse codec"
  rs_getlk :: "GetlkResponse codec"
  rs_copyfilerange :: "CopyFileRangeResponse codec"
  rs_lseek :: "LseekResponse codec"

record wire_codecs =
  wc_requests :: request_codecs
  wc_responses :: response_codecs
  wc_request :: "PbRequestEnvelope codec"
  wc_response :: "PbResponseEnvelope codec"

section \<open>Payloads\<close>

fun encode_request_payload :: "request_codecs \<Rightarrow> RequestPayload \<Rightarrow> ProtocolError + bytes" where
  "encode_request_payload cs (Req_Lookup v) = encode_message (rq_lookup cs) v"
| "encode_request_payload cs (Req_Getattr v) = encode_message (rq_getattr cs) v"
| "encode_request_payload cs (Req_Readdir v) = encode_message (rq_readdir cs) v"
| "encode_request_payload cs (Req_Open v) = encode_message (rq_open cs) v"
| "encode_request_payload cs (Req_Read v) = encode_message (rq_read cs) v"
| "encode_request_payload cs (Req_Write v) = encode_message (rq_write cs) v"
| "encode_request_payload cs (Req_Create v) = encode_message (rq_create cs) v"
| "encode_request_payload cs (Req_Rename v) = encode_message (rq_rename cs) v"
| "encode_request_payload cs (Req_Unlink v) = encode_message (rq_unlink cs) v"
| "encode_request_payload cs (Req_Mkdir v) = encode_message (rq_mkdir cs) v"
| "encode_request_payload cs (Req_Rmdir v) = encode_message (rq_rmdir cs) v"
| "encode_request_payload cs (Req_Statfs v) = encode_message (rq_statfs cs) v"
| "encode_request_payload cs (Req_Getxattr v) = encode_message (rq_getxattr cs) v"
| "encode_request_payload cs (Req_Setxattr v) = encode_message (rq_setxattr cs) v"
| "encode_request_payload cs (Req_Listxattr v) = encode_message (rq_listxattr cs) v"
| "encode_request_payload cs (Req_Removexattr v) = encode_message (rq_removexattr cs) v"
| "encode_request_payload cs (Req_Release v) = encode_message (rq_release cs) v"
| "encode_request_payload cs (Req_Readlink v) = encode_message (rq_readlink cs) v"
| "encode_request_payload cs (Req_Symlink v) = encode_message (rq_symlink cs) v"
| "encode_request_payload cs (Req_Hardlink v) = encode_message (rq_hardlink cs) v"
| "encode_request_payload cs (Req_Setattr v) = encode_message (rq_setattr cs) v"
| "encode_request_payload cs (Req_Flush v) = encode_message (rq_flush cs) v"
| "encode_request_payload cs (Req_Fsync v) = encode_message (rq_fsync cs) v"
| "encode_request_payload cs (Req_Fsyncdir v) = encode_message (rq_fsyncdir cs) v"
| "encode_request_payload cs (Req_Getlk v) = encode_message (rq_getlk cs) v"
| "encode_request_payload cs (Req_Setlk v) = encode_message (rq_setlk cs) v"
| "encode_request_payload cs (Req_Flock v) = encode_message (rq_flock cs) v"
| "encode_request_payload cs (Req_CopyFileRange v) = encode_message (rq_copyfilerange cs) v"
| "encode_request_payload cs (Req_Fallocate v) = encode_message (rq_fallocate cs) v"
| "encode_request_payload cs (Req_Lseek v) = encode_message (rq_lseek cs) v"

text \<open>The payload of an operation, before it is validated.\<close>

fun decode_request_body :: "request_codecs \<Rightarrow> Operation \<Rightarrow> bytes \<Rightarrow> ProtocolError + RequestPayload" where
  "decode_request_body cs Op_Lookup b = map_ok Req_Lookup (decode_message (rq_lookup cs) b)"
| "decode_request_body cs Op_Getattr b = map_ok Req_Getattr (decode_message (rq_getattr cs) b)"
| "decode_request_body cs Op_Readdir b = map_ok Req_Readdir (decode_message (rq_readdir cs) b)"
| "decode_request_body cs Op_Open b = map_ok Req_Open (decode_message (rq_open cs) b)"
| "decode_request_body cs Op_Read b = map_ok Req_Read (decode_message (rq_read cs) b)"
| "decode_request_body cs Op_Write b = map_ok Req_Write (decode_message (rq_write cs) b)"
| "decode_request_body cs Op_Create b = map_ok Req_Create (decode_message (rq_create cs) b)"
| "decode_request_body cs Op_Rename b = map_ok Req_Rename (decode_message (rq_rename cs) b)"
| "decode_request_body cs Op_Unlink b = map_ok Req_Unlink (decode_message (rq_unlink cs) b)"
| "decode_request_body cs Op_Mkdir b = map_ok Req_Mkdir (decode_message (rq_mkdir cs) b)"
| "decode_request_body cs Op_Rmdir b = map_ok Req_Rmdir (decode_message (rq_rmdir cs) b)"
| "decode_request_body cs Op_Statfs b = map_ok Req_Statfs (decode_message (rq_statfs cs) b)"
| "decode_request_body cs Op_Getxattr b = map_ok Req_Getxattr (decode_message (rq_getxattr cs) b)"
| "decode_request_body cs Op_Setxattr b = map_ok Req_Setxattr (decode_message (rq_setxattr cs) b)"
| "decode_request_body cs Op_Listxattr b = map_ok Req_Listxattr (decode_message (rq_listxattr cs) b)"
| "decode_request_body cs Op_Removexattr b = map_ok Req_Removexattr (decode_message (rq_removexattr cs) b)"
| "decode_request_body cs Op_Release b = map_ok Req_Release (decode_message (rq_release cs) b)"
| "decode_request_body cs Op_Readlink b = map_ok Req_Readlink (decode_message (rq_readlink cs) b)"
| "decode_request_body cs Op_Symlink b = map_ok Req_Symlink (decode_message (rq_symlink cs) b)"
| "decode_request_body cs Op_Hardlink b = map_ok Req_Hardlink (decode_message (rq_hardlink cs) b)"
| "decode_request_body cs Op_Setattr b = map_ok Req_Setattr (decode_message (rq_setattr cs) b)"
| "decode_request_body cs Op_Flush b = map_ok Req_Flush (decode_message (rq_flush cs) b)"
| "decode_request_body cs Op_Fsync b = map_ok Req_Fsync (decode_message (rq_fsync cs) b)"
| "decode_request_body cs Op_Fsyncdir b = map_ok Req_Fsyncdir (decode_message (rq_fsyncdir cs) b)"
| "decode_request_body cs Op_Getlk b = map_ok Req_Getlk (decode_message (rq_getlk cs) b)"
| "decode_request_body cs Op_Setlk b = map_ok Req_Setlk (decode_message (rq_setlk cs) b)"
| "decode_request_body cs Op_Flock b = map_ok Req_Flock (decode_message (rq_flock cs) b)"
| "decode_request_body cs Op_CopyFileRange b = map_ok Req_CopyFileRange (decode_message (rq_copyfilerange cs) b)"
| "decode_request_body cs Op_Fallocate b = map_ok Req_Fallocate (decode_message (rq_fallocate cs) b)"
| "decode_request_body cs Op_Lseek b = map_ok Req_Lseek (decode_message (rq_lseek cs) b)"

definition decode_request_payload ::
    "request_codecs \<Rightarrow> Operation \<Rightarrow> bytes \<Rightarrow> ProtocolError + RequestPayload" where
  "decode_request_payload cs op b =
    try_bind (decode_request_body cs op b) (\<lambda>payload.
    try_seq (validate_request_payload payload) (Ok payload))"

fun encode_response_payload :: "response_codecs \<Rightarrow> ResponsePayload \<Rightarrow> ProtocolError + bytes" where
  "encode_response_payload cs (Resp_Lookup v) = encode_message (rs_lookup cs) v"
| "encode_response_payload cs (Resp_Getattr v) = encode_message (rs_getattr cs) v"
| "encode_response_payload cs (Resp_Readdir v) = encode_message (rs_readdir cs) v"
| "encode_response_payload cs (Resp_Open v) = encode_message (rs_open cs) v"
| "encode_response_payload cs (Resp_Read v) = encode_message (rs_read cs) v"
| "encode_response_payload cs (Resp_Write v) = encode_message (rs_write cs) v"
| "encode_response_payload cs (Resp_Create v) = encode_message (rs_create cs) v"
| "encode_response_payload cs (Resp_Rename v) = encode_message (rs_empty cs) v"
| "encode_response_payload cs (Resp_Unlink v) = encode_message (rs_empty cs) v"
| "encode_response_payload cs (Resp_Mkdir v) = encode_message (rs_lookup cs) v"
| "encode_response_payload cs (Resp_Rmdir v) = encode_message (rs_empty cs) v"
| "encode_response_payload cs (Resp_Statfs v) = encode_message (rs_statfs cs) v"
| "encode_response_payload cs (Resp_Getxattr v) = encode_message (rs_getxattr cs) v"
| "encode_response_payload cs (Resp_Setxattr v) = encode_message (rs_empty cs) v"
| "encode_response_payload cs (Resp_Listxattr v) = encode_message (rs_listxattr cs) v"
| "encode_response_payload cs (Resp_Removexattr v) = encode_message (rs_empty cs) v"
| "encode_response_payload cs (Resp_Release v) = encode_message (rs_empty cs) v"
| "encode_response_payload cs (Resp_Readlink v) = encode_message (rs_readlink cs) v"
| "encode_response_payload cs (Resp_Symlink v) = encode_message (rs_symlink cs) v"
| "encode_response_payload cs (Resp_Hardlink v) = encode_message (rs_hardlink cs) v"
| "encode_response_payload cs (Resp_Setattr v) = encode_message (rs_setattr cs) v"
| "encode_response_payload cs (Resp_Flush v) = encode_message (rs_empty cs) v"
| "encode_response_payload cs (Resp_Fsync v) = encode_message (rs_empty cs) v"
| "encode_response_payload cs (Resp_Fsyncdir v) = encode_message (rs_empty cs) v"
| "encode_response_payload cs (Resp_Getlk v) = encode_message (rs_getlk cs) v"
| "encode_response_payload cs (Resp_Setlk v) = encode_message (rs_empty cs) v"
| "encode_response_payload cs (Resp_Flock v) = encode_message (rs_empty cs) v"
| "encode_response_payload cs (Resp_CopyFileRange v) = encode_message (rs_copyfilerange cs) v"
| "encode_response_payload cs (Resp_Fallocate v) = encode_message (rs_empty cs) v"
| "encode_response_payload cs (Resp_Lseek v) = encode_message (rs_lseek cs) v"

fun decode_response_body :: "response_codecs \<Rightarrow> Operation \<Rightarrow> bytes \<Rightarrow> ProtocolError + ResponsePayload" where
  "decode_response_body cs Op_Lookup b = map_ok Resp_Lookup (decode_message (rs_lookup cs) b)"
| "decode_response_body cs Op_Getattr b = map_ok Resp_Getattr (decode_message (rs_getattr cs) b)"
| "decode_response_body cs Op_Readdir b = map_ok Resp_Readdir (decode_message (rs_readdir cs) b)"
| "decode_response_body cs Op_Open b = map_ok Resp_Open (decode_message (rs_open cs) b)"
| "decode_response_body cs Op_Read b = map_ok Resp_Read (decode_message (rs_read cs) b)"
| "decode_response_body cs Op_Write b = map_ok Resp_Write (decode_message (rs_write cs) b)"
| "decode_response_body cs Op_Create b = map_ok Resp_Create (decode_message (rs_create cs) b)"
| "decode_response_body cs Op_Rename b = map_ok Resp_Rename (decode_message (rs_empty cs) b)"
| "decode_response_body cs Op_Unlink b = map_ok Resp_Unlink (decode_message (rs_empty cs) b)"
| "decode_response_body cs Op_Mkdir b = map_ok Resp_Mkdir (decode_message (rs_lookup cs) b)"
| "decode_response_body cs Op_Rmdir b = map_ok Resp_Rmdir (decode_message (rs_empty cs) b)"
| "decode_response_body cs Op_Statfs b = map_ok Resp_Statfs (decode_message (rs_statfs cs) b)"
| "decode_response_body cs Op_Getxattr b = map_ok Resp_Getxattr (decode_message (rs_getxattr cs) b)"
| "decode_response_body cs Op_Setxattr b = map_ok Resp_Setxattr (decode_message (rs_empty cs) b)"
| "decode_response_body cs Op_Listxattr b = map_ok Resp_Listxattr (decode_message (rs_listxattr cs) b)"
| "decode_response_body cs Op_Removexattr b = map_ok Resp_Removexattr (decode_message (rs_empty cs) b)"
| "decode_response_body cs Op_Release b = map_ok Resp_Release (decode_message (rs_empty cs) b)"
| "decode_response_body cs Op_Readlink b = map_ok Resp_Readlink (decode_message (rs_readlink cs) b)"
| "decode_response_body cs Op_Symlink b = map_ok Resp_Symlink (decode_message (rs_symlink cs) b)"
| "decode_response_body cs Op_Hardlink b = map_ok Resp_Hardlink (decode_message (rs_hardlink cs) b)"
| "decode_response_body cs Op_Setattr b = map_ok Resp_Setattr (decode_message (rs_setattr cs) b)"
| "decode_response_body cs Op_Flush b = map_ok Resp_Flush (decode_message (rs_empty cs) b)"
| "decode_response_body cs Op_Fsync b = map_ok Resp_Fsync (decode_message (rs_empty cs) b)"
| "decode_response_body cs Op_Fsyncdir b = map_ok Resp_Fsyncdir (decode_message (rs_empty cs) b)"
| "decode_response_body cs Op_Getlk b = map_ok Resp_Getlk (decode_message (rs_getlk cs) b)"
| "decode_response_body cs Op_Setlk b = map_ok Resp_Setlk (decode_message (rs_empty cs) b)"
| "decode_response_body cs Op_Flock b = map_ok Resp_Flock (decode_message (rs_empty cs) b)"
| "decode_response_body cs Op_CopyFileRange b = map_ok Resp_CopyFileRange (decode_message (rs_copyfilerange cs) b)"
| "decode_response_body cs Op_Fallocate b = map_ok Resp_Fallocate (decode_message (rs_empty cs) b)"
| "decode_response_body cs Op_Lseek b = map_ok Resp_Lseek (decode_message (rs_lseek cs) b)"

definition decode_response_payload ::
    "response_codecs \<Rightarrow> Operation \<Rightarrow> bytes \<Rightarrow> ProtocolError + ResponsePayload" where
  "decode_response_payload cs op b =
    try_bind (decode_response_body cs op b) (\<lambda>payload.
    try_seq (validate_response_payload payload) (Ok payload))"

section \<open>Envelopes\<close>

definition TraceContext_default :: TraceContext where
  "TraceContext_default = \<lparr>trace_trace_id = [], trace_parent_id = [], trace_entries = []\<rparr>"

definition raw_request :: "RequestEnvelope \<Rightarrow> bytes \<Rightarrow> PbRequestEnvelope" where
  "raw_request env payload =
    \<lparr>pbreq_protocol_version = req_protocol_version env, pbreq_request_id = req_request_id env,
     pbreq_operation = wire_value (req_operation env), pbreq_namespace = req_namespace env,
     pbreq_deadline_unix_nanos = req_deadline_unix_nanos env, pbreq_trace = Some (req_trace env),
     pbreq_payload = payload,
     pbreq_payload_operation = wire_value (request_operation (req_payload env)),
     pbreq_observations = req_observations env, pbreq_caller = req_caller env\<rparr>"

definition encode_request :: "wire_codecs \<Rightarrow> RequestEnvelope \<Rightarrow> ProtocolError + bytes" where
  "encode_request cs env =
    try_seq (validate_request env)
    (try_bind (encode_request_payload (wc_requests cs) (req_payload env)) (\<lambda>payload.
      encode_message (wc_request cs) (raw_request env payload)))"

definition decode_request :: "wire_codecs \<Rightarrow> bytes \<Rightarrow> ProtocolError + RequestEnvelope" where
  "decode_request cs b =
    try_bind (decode_message (wc_request cs) b) (\<lambda>raw.
      if pbreq_protocol_version raw \<noteq> PROTOCOL_VERSION
      then Err (UnsupportedVersion (pbreq_protocol_version raw))
      else if pbreq_request_id raw = []
      then Err (InvalidEnvelope ''request_id must not be empty'')
      else if pbreq_namespace raw = []
      then Err (InvalidEnvelope ''namespace must not be empty'')
      else try_bind (operation_try_from (pbreq_operation raw)) (\<lambda>operation.
        try_bind (operation_try_from (pbreq_payload_operation raw)) (\<lambda>payload_operation.
        if operation \<noteq> payload_operation
        then Err (PayloadMismatch operation payload_operation)
        else try_bind (decode_request_payload (wc_requests cs) operation (pbreq_payload raw))
          (\<lambda>payload. Ok
            \<lparr>req_protocol_version = pbreq_protocol_version raw,
             req_request_id = pbreq_request_id raw, req_operation = operation,
             req_namespace = pbreq_namespace raw,
             req_deadline_unix_nanos = pbreq_deadline_unix_nanos raw,
             req_trace = (case pbreq_trace raw of None \<Rightarrow> TraceContext_default | Some t \<Rightarrow> t),
             req_caller = pbreq_caller raw, req_payload = payload,
             req_observations = pbreq_observations raw\<rparr>))))"

definition raw_response ::
    "ResponseEnvelope \<Rightarrow> bytes \<Rightarrow> Operation \<Rightarrow> Errno \<Rightarrow> PbResponseEnvelope" where
  "raw_response env payload payload_operation errno =
    \<lparr>pbresp_protocol_version = resp_protocol_version env, pbresp_request_id = resp_request_id env,
     pbresp_operation = wire_value (resp_operation env), pbresp_namespace = resp_namespace env,
     pbresp_deadline_unix_nanos = resp_deadline_unix_nanos env,
     pbresp_trace = Some (resp_trace env), pbresp_payload = payload, pbresp_ok = resp_ok env,
     pbresp_errno = errno_wire_value errno, pbresp_error_message = resp_error_message env,
     pbresp_observations = resp_observations env,
     pbresp_invalidations = resp_invalidations env,
     pbresp_payload_operation = wire_value payload_operation\<rparr>"

definition encode_response :: "wire_codecs \<Rightarrow> ResponseEnvelope \<Rightarrow> ProtocolError + bytes" where
  "encode_response cs env =
    try_seq (validate_response env)
    (try_bind
      (if resp_ok env then
         try_bind (ok_or (InvalidResponseState ''missing success payload'') (resp_payload env))
           (\<lambda>payload. try_bind (encode_response_payload (wc_responses cs) payload)
             (\<lambda>b. Ok (b, response_operation payload, Success)))
       else
         try_bind (ok_or (InvalidResponseState ''missing error errno'')
             (Option.bind (resp_errno env) (\<lambda>e. if is_error e then Some e else None)))
           (\<lambda>errno. Ok ([], resp_operation env, errno)))
      (\<lambda>(payload, payload_operation, errno).
        encode_message (wc_response cs) (raw_response env payload payload_operation errno)))"

definition decoded_response ::
    "PbResponseEnvelope \<Rightarrow> Operation \<Rightarrow> bool \<Rightarrow> Errno option \<Rightarrow> ResponsePayload option
      \<Rightarrow> ResponseEnvelope" where
  "decoded_response raw operation success errno payload =
    \<lparr>resp_protocol_version = pbresp_protocol_version raw,
     resp_request_id = pbresp_request_id raw, resp_operation = operation,
     resp_namespace = pbresp_namespace raw,
     resp_deadline_unix_nanos = pbresp_deadline_unix_nanos raw,
     resp_trace = (case pbresp_trace raw of None \<Rightarrow> TraceContext_default | Some t \<Rightarrow> t),
     resp_ok = success, resp_errno = errno,
     resp_error_message = pbresp_error_message raw, resp_payload = payload,
     resp_observations = pbresp_observations raw,
     resp_invalidations = pbresp_invalidations raw\<rparr>"

definition decode_response :: "wire_codecs \<Rightarrow> bytes \<Rightarrow> ProtocolError + ResponseEnvelope" where
  "decode_response cs b =
    try_bind (decode_message (wc_response cs) b) (\<lambda>raw.
      if pbresp_protocol_version raw \<noteq> PROTOCOL_VERSION
      then Err (UnsupportedVersion (pbresp_protocol_version raw))
      else if pbresp_request_id raw = []
      then Err (InvalidEnvelope ''request_id must not be empty'')
      else if pbresp_namespace raw = []
      then Err (InvalidEnvelope ''namespace must not be empty'')
      else try_bind (operation_try_from (pbresp_operation raw)) (\<lambda>operation.
        try_bind (operation_try_from (pbresp_payload_operation raw)) (\<lambda>payload_operation.
        if operation \<noteq> payload_operation
        then Err (PayloadMismatch operation payload_operation)
        else try_bind (errno_try_from (pbresp_errno raw)) (\<lambda>errno.
          try_seq (try_each validate_invalidation (pbresp_invalidations raw))
          (if pbresp_ok raw then
             (if errno \<noteq> Success
              then Err (InvalidResponseState ''successful response carried errno'')
              else try_bind
                (decode_response_payload (wc_responses cs) operation (pbresp_payload raw))
                (\<lambda>payload. Ok (decoded_response raw operation True None (Some payload))))
           else
             (if errno = Success
              then Err (InvalidResponseState ''error response missing errno'')
              else if pbresp_payload raw \<noteq> []
              then Err (InvalidResponseState ''error response carried payload'')
              else Ok (decoded_response raw operation False (Some errno) None)))))))"

section \<open>Decoded values are valid\<close>

lemma decode_request_body_operation:
  "decode_request_body cs op b = Ok p \<Longrightarrow> request_operation p = op"
  by (cases op) (auto simp: map_ok_eq_Ok_iff)

lemma decode_response_body_operation:
  "decode_response_body cs op b = Ok p \<Longrightarrow> response_operation p = op"
  by (cases op) (auto simp: map_ok_eq_Ok_iff)

text \<open>
  Whatever bytes arrive, a request that decodes is a valid request.
\<close>

lemma decode_request_valid:
  "case decode_request cs b of Ok env \<Rightarrow> validate_request env = Ok () | Err _ \<Rightarrow> True"
proof (cases "decode_request cs b")
  case (Inr env)
  then have "validate_request env = Ok ()"
    by (auto simp: decode_request_def decode_request_payload_def ok_iffs validate_request_ok
        dest: decode_request_body_operation split: if_splits)
  with Inr show ?thesis by simp
qed simp

lemma identity_and_payload_ok:
  "validate_identity_and_payload env = Ok () \<longleftrightarrow>
    resp_protocol_version env = PROTOCOL_VERSION \<and> resp_request_id env \<noteq> []
    \<and> resp_namespace env \<noteq> []
    \<and> (if resp_ok env
       then resp_errno env = None \<and> (\<exists>p. resp_payload env = Some p
          \<and> response_operation p = resp_operation env \<and> validate_response_payload p = Ok ())
       else resp_payload env = None \<and> (\<exists>e. resp_errno env = Some e \<and> e \<noteq> Success))"
  by (cases "resp_payload env"; cases "resp_errno env")
    (auto simp: validate_identity_and_payload_def ok_iffs is_error_iff split: if_splits)

lemma validate_response_ok:
  "validate_response env = Ok () \<longleftrightarrow>
    validate_identity_and_payload env = Ok ()
    \<and> (\<forall>i \<in> set (resp_invalidations env). validate_invalidation i = Ok ())"
  by (auto simp: validate_response_def ok_iffs)

text \<open>
  Whatever bytes arrive, a response that decodes is a valid response.
\<close>

lemma decode_response_valid:
  "case decode_response cs b of Ok env \<Rightarrow> validate_response env = Ok () | Err _ \<Rightarrow> True"
proof (cases "decode_response cs b")
  case (Inr env)
  then have "validate_response env = Ok ()"
    by (auto simp: decode_response_def decode_response_payload_def decoded_response_def ok_iffs
        validate_response_ok identity_and_payload_ok
        dest: decode_response_body_operation split: if_splits)
  with Inr show ?thesis by simp
qed simp

section \<open>Round trips\<close>

fun request_payload_roundtrips :: "request_codecs \<Rightarrow> RequestPayload \<Rightarrow> bool" where
  "request_payload_roundtrips cs (Req_Lookup v) = roundtrips (rq_lookup cs) v"
| "request_payload_roundtrips cs (Req_Getattr v) = roundtrips (rq_getattr cs) v"
| "request_payload_roundtrips cs (Req_Readdir v) = roundtrips (rq_readdir cs) v"
| "request_payload_roundtrips cs (Req_Open v) = roundtrips (rq_open cs) v"
| "request_payload_roundtrips cs (Req_Read v) = roundtrips (rq_read cs) v"
| "request_payload_roundtrips cs (Req_Write v) = roundtrips (rq_write cs) v"
| "request_payload_roundtrips cs (Req_Create v) = roundtrips (rq_create cs) v"
| "request_payload_roundtrips cs (Req_Rename v) = roundtrips (rq_rename cs) v"
| "request_payload_roundtrips cs (Req_Unlink v) = roundtrips (rq_unlink cs) v"
| "request_payload_roundtrips cs (Req_Mkdir v) = roundtrips (rq_mkdir cs) v"
| "request_payload_roundtrips cs (Req_Rmdir v) = roundtrips (rq_rmdir cs) v"
| "request_payload_roundtrips cs (Req_Statfs v) = roundtrips (rq_statfs cs) v"
| "request_payload_roundtrips cs (Req_Getxattr v) = roundtrips (rq_getxattr cs) v"
| "request_payload_roundtrips cs (Req_Setxattr v) = roundtrips (rq_setxattr cs) v"
| "request_payload_roundtrips cs (Req_Listxattr v) = roundtrips (rq_listxattr cs) v"
| "request_payload_roundtrips cs (Req_Removexattr v) = roundtrips (rq_removexattr cs) v"
| "request_payload_roundtrips cs (Req_Release v) = roundtrips (rq_release cs) v"
| "request_payload_roundtrips cs (Req_Readlink v) = roundtrips (rq_readlink cs) v"
| "request_payload_roundtrips cs (Req_Symlink v) = roundtrips (rq_symlink cs) v"
| "request_payload_roundtrips cs (Req_Hardlink v) = roundtrips (rq_hardlink cs) v"
| "request_payload_roundtrips cs (Req_Setattr v) = roundtrips (rq_setattr cs) v"
| "request_payload_roundtrips cs (Req_Flush v) = roundtrips (rq_flush cs) v"
| "request_payload_roundtrips cs (Req_Fsync v) = roundtrips (rq_fsync cs) v"
| "request_payload_roundtrips cs (Req_Fsyncdir v) = roundtrips (rq_fsyncdir cs) v"
| "request_payload_roundtrips cs (Req_Getlk v) = roundtrips (rq_getlk cs) v"
| "request_payload_roundtrips cs (Req_Setlk v) = roundtrips (rq_setlk cs) v"
| "request_payload_roundtrips cs (Req_Flock v) = roundtrips (rq_flock cs) v"
| "request_payload_roundtrips cs (Req_CopyFileRange v) = roundtrips (rq_copyfilerange cs) v"
| "request_payload_roundtrips cs (Req_Fallocate v) = roundtrips (rq_fallocate cs) v"
| "request_payload_roundtrips cs (Req_Lseek v) = roundtrips (rq_lseek cs) v"

fun response_payload_roundtrips :: "response_codecs \<Rightarrow> ResponsePayload \<Rightarrow> bool" where
  "response_payload_roundtrips cs (Resp_Lookup v) = roundtrips (rs_lookup cs) v"
| "response_payload_roundtrips cs (Resp_Getattr v) = roundtrips (rs_getattr cs) v"
| "response_payload_roundtrips cs (Resp_Readdir v) = roundtrips (rs_readdir cs) v"
| "response_payload_roundtrips cs (Resp_Open v) = roundtrips (rs_open cs) v"
| "response_payload_roundtrips cs (Resp_Read v) = roundtrips (rs_read cs) v"
| "response_payload_roundtrips cs (Resp_Write v) = roundtrips (rs_write cs) v"
| "response_payload_roundtrips cs (Resp_Create v) = roundtrips (rs_create cs) v"
| "response_payload_roundtrips cs (Resp_Rename v) = roundtrips (rs_empty cs) v"
| "response_payload_roundtrips cs (Resp_Unlink v) = roundtrips (rs_empty cs) v"
| "response_payload_roundtrips cs (Resp_Mkdir v) = roundtrips (rs_lookup cs) v"
| "response_payload_roundtrips cs (Resp_Rmdir v) = roundtrips (rs_empty cs) v"
| "response_payload_roundtrips cs (Resp_Statfs v) = roundtrips (rs_statfs cs) v"
| "response_payload_roundtrips cs (Resp_Getxattr v) = roundtrips (rs_getxattr cs) v"
| "response_payload_roundtrips cs (Resp_Setxattr v) = roundtrips (rs_empty cs) v"
| "response_payload_roundtrips cs (Resp_Listxattr v) = roundtrips (rs_listxattr cs) v"
| "response_payload_roundtrips cs (Resp_Removexattr v) = roundtrips (rs_empty cs) v"
| "response_payload_roundtrips cs (Resp_Release v) = roundtrips (rs_empty cs) v"
| "response_payload_roundtrips cs (Resp_Readlink v) = roundtrips (rs_readlink cs) v"
| "response_payload_roundtrips cs (Resp_Symlink v) = roundtrips (rs_symlink cs) v"
| "response_payload_roundtrips cs (Resp_Hardlink v) = roundtrips (rs_hardlink cs) v"
| "response_payload_roundtrips cs (Resp_Setattr v) = roundtrips (rs_setattr cs) v"
| "response_payload_roundtrips cs (Resp_Flush v) = roundtrips (rs_empty cs) v"
| "response_payload_roundtrips cs (Resp_Fsync v) = roundtrips (rs_empty cs) v"
| "response_payload_roundtrips cs (Resp_Fsyncdir v) = roundtrips (rs_empty cs) v"
| "response_payload_roundtrips cs (Resp_Getlk v) = roundtrips (rs_getlk cs) v"
| "response_payload_roundtrips cs (Resp_Setlk v) = roundtrips (rs_empty cs) v"
| "response_payload_roundtrips cs (Resp_Flock v) = roundtrips (rs_empty cs) v"
| "response_payload_roundtrips cs (Resp_CopyFileRange v) = roundtrips (rs_copyfilerange cs) v"
| "response_payload_roundtrips cs (Resp_Fallocate v) = roundtrips (rs_empty cs) v"
| "response_payload_roundtrips cs (Resp_Lseek v) = roundtrips (rs_lseek cs) v"

lemma roundtripsE:
  assumes "roundtrips c m"
  obtains b where "enc c m = Ok b" "dec c b = Ok m"
  using assms by (auto simp: roundtrips_def split: sum.splits)

lemma message_roundtrip:
  "roundtrips c m \<Longrightarrow> \<exists>b. encode_message c m = Ok b \<and> decode_message c b = Ok m"
  by (auto elim!: roundtripsE simp: encode_message_def decode_message_def)

lemma request_payload_roundtrip:
  assumes "request_payload_roundtrips cs p"
  shows "\<exists>b. encode_request_payload cs p = Ok b
    \<and> decode_request_body cs (request_operation p) b = Ok p"
  using assms by (cases p) (auto dest!: message_roundtrip)

lemma response_payload_roundtrip:
  assumes "response_payload_roundtrips cs p"
  shows "\<exists>b. encode_response_payload cs p = Ok b
    \<and> decode_response_body cs (response_operation p) b = Ok p"
  using assms by (cases p) (auto dest!: message_roundtrip)

text \<open>
  The behaviour of the message codecs an exchange relies on: for the payload and
  for the envelope around its encoding.
\<close>

definition request_roundtrips :: "wire_codecs \<Rightarrow> RequestEnvelope \<Rightarrow> bool" where
  "request_roundtrips cs env \<longleftrightarrow>
    request_payload_roundtrips (wc_requests cs) (req_payload env)
    \<and> (case encode_request_payload (wc_requests cs) (req_payload env) of
         Ok b \<Rightarrow> roundtrips (wc_request cs) (raw_request env b) | Err _ \<Rightarrow> True)"

definition response_roundtrips :: "wire_codecs \<Rightarrow> ResponseEnvelope \<Rightarrow> bool" where
  "response_roundtrips cs env \<longleftrightarrow>
    (case resp_payload env of
       Some p \<Rightarrow> response_payload_roundtrips (wc_responses cs) p
         \<and> (case encode_response_payload (wc_responses cs) p of
              Ok b \<Rightarrow> roundtrips (wc_response cs)
                (raw_response env b (response_operation p) Success)
            | Err _ \<Rightarrow> True)
     | None \<Rightarrow> (case resp_errno env of
         Some e \<Rightarrow> roundtrips (wc_response cs) (raw_response env [] (resp_operation env) e)
       | None \<Rightarrow> True))"

lemma operation_try_from_wire [simp]: "operation_try_from (wire_value op) = Ok op"
  using spec_for_mem [of op]
  by (simp add: operation_try_from_def operation_for_wire_value_def wire_value_def
      wire_table.find_row)

lemma errno_try_from_wire [simp]: "errno_try_from (errno_wire_value e) = Ok e"
  by (cases e) (simp add: errno_try_from_def)

lemma decode_raw_request:
  assumes "decode_message (wc_request cs) b = Ok (raw_request env payload)"
    "decode_request_body (wc_requests cs) (request_operation (req_payload env)) payload
      = Ok (req_payload env)"
    "validate_request env = Ok ()"
  shows "decode_request cs b = Ok env"
  using assms
  by (simp add: decode_request_def validate_request_ok raw_request_def decode_request_payload_def)

lemma request_roundtrip_aux:
  assumes "validate_request env = Ok ()" "request_roundtrips cs env"
  shows "\<exists>b. encode_request cs env = Ok b \<and> decode_request cs b = Ok env"
proof -
  from assms(2) have "request_payload_roundtrips (wc_requests cs) (req_payload env)"
    by (simp add: request_roundtrips_def)
  from request_payload_roundtrip [OF this] obtain p where
    p: "encode_request_payload (wc_requests cs) (req_payload env) = Ok p"
      "decode_request_body (wc_requests cs) (request_operation (req_payload env)) p
        = Ok (req_payload env)" by blast
  with assms(2) have "roundtrips (wc_request cs) (raw_request env p)"
    by (simp add: request_roundtrips_def)
  from message_roundtrip [OF this] obtain b where
    b: "encode_message (wc_request cs) (raw_request env p) = Ok b"
      "decode_message (wc_request cs) b = Ok (raw_request env p)" by blast
  have "encode_request cs env = Ok b" using assms(1) p b by (simp add: encode_request_def)
  moreover have "decode_request cs b = Ok env" by (rule decode_raw_request [OF b(2) p(2) assms(1)])
  ultimately show ?thesis by blast
qed

lemma response_invalidations_checked:
  "validate_response env = Ok () \<Longrightarrow>
    try_each validate_invalidation (resp_invalidations env) = Ok ()"
  by (simp add: validate_response_ok try_each_eq_Ok_iff)

lemma decode_raw_success:
  assumes "decode_message (wc_response cs) b
      = Ok (raw_response env payload (response_operation p) Success)"
    "decode_response_body (wc_responses cs) (response_operation p) payload = Ok p"
    "validate_response env = Ok ()" "resp_ok env" "resp_payload env = Some p"
  shows "decode_response cs b = Ok env"
  using assms response_invalidations_checked [OF assms(3)]
  by (simp add: decode_response_def validate_response_ok identity_and_payload_ok raw_response_def
      decode_response_payload_def decoded_response_def)

lemma decode_raw_failure:
  assumes "decode_message (wc_response cs) b = Ok (raw_response env [] (resp_operation env) e)"
    "validate_response env = Ok ()" "\<not> resp_ok env" "resp_errno env = Some e"
  shows "decode_response cs b = Ok env"
  using assms response_invalidations_checked [OF assms(2)]
  by (simp add: decode_response_def validate_response_ok identity_and_payload_ok raw_response_def
      decoded_response_def)

lemma response_roundtrip_aux:
  assumes v: "validate_response env = Ok ()" and r: "response_roundtrips cs env"
  shows "\<exists>b. encode_response cs env = Ok b \<and> decode_response cs b = Ok env"
proof (cases "resp_ok env")
  case True
  with v obtain p where p: "resp_payload env = Some p" "response_operation p = resp_operation env"
    by (auto simp: validate_response_ok identity_and_payload_ok)
  with r have "response_payload_roundtrips (wc_responses cs) p" by (simp add: response_roundtrips_def)
  from response_payload_roundtrip [OF this] obtain b where
    b: "encode_response_payload (wc_responses cs) p = Ok b"
      "decode_response_body (wc_responses cs) (response_operation p) b = Ok p" by blast
  with r p have "roundtrips (wc_response cs) (raw_response env b (response_operation p) Success)"
    by (simp add: response_roundtrips_def)
  from message_roundtrip [OF this] obtain w where
    w: "encode_message (wc_response cs) (raw_response env b (response_operation p) Success) = Ok w"
      "decode_message (wc_response cs) w = Ok (raw_response env b (response_operation p) Success)"
    by blast
  have "encode_response cs env = Ok w" using v True p b w by (simp add: encode_response_def)
  moreover have "decode_response cs w = Ok env"
    by (rule decode_raw_success [OF w(2) b(2) v True p(1)])
  ultimately show ?thesis by blast
next
  case False
  with v obtain e where e: "resp_payload env = None" "resp_errno env = Some e" "e \<noteq> Success"
    by (auto simp: validate_response_ok identity_and_payload_ok)
  with r have "roundtrips (wc_response cs) (raw_response env [] (resp_operation env) e)"
    by (simp add: response_roundtrips_def)
  from message_roundtrip [OF this] obtain w where
    w: "encode_message (wc_response cs) (raw_response env [] (resp_operation env) e) = Ok w"
      "decode_message (wc_response cs) w = Ok (raw_response env [] (resp_operation env) e)"
    by blast
  have "encode_response cs env = Ok w"
    using v False e w by (simp add: encode_response_def is_error_iff)
  moreover have "decode_response cs w = Ok env" by (rule decode_raw_failure [OF w(2) v False e(2)])
  ultimately show ?thesis by blast
qed

text \<open>
  C29: a valid request crosses the wire unchanged: it is encoded without error and
  the bytes decode to the same request, given that the message codec gives back
  the payload and the envelope.
\<close>

theorem request_roundtrip:
  assumes "validate_request env = Ok ()" "request_roundtrips cs env"
  shows "\<exists>b. encode_request cs env = Ok b \<and> decode_request cs b = Ok env"
  by (rule request_roundtrip_aux [OF assms])

text \<open>
  A codec that handles one message type and one envelope, to evaluate the round
  trips on.
\<close>

definition null_codec :: "'m codec" where
  "null_codec = \<lparr>enc = (\<lambda>_. Err ''unused''), dec = (\<lambda>_. Err ''unused'')\<rparr>"

definition constant_codec :: "'m \<Rightarrow> 'm codec" where
  "constant_codec m = \<lparr>enc = (\<lambda>_. Ok [1]), dec = (\<lambda>_. Ok m)\<rparr>"

definition unlink_codec :: "UnlinkRequest codec" where
  "unlink_codec =
    \<lparr>enc = (\<lambda>v. Ok (case unlink_path v of
        None \<Rightarrow> [] | Some d \<Rightarrow> 1 # map (\<lambda>c. of_nat (of_char c)) (dto_path d))),
     dec = (\<lambda>b. Ok \<lparr>unlink_path = (case b of
        [] \<Rightarrow> None | _ # cs \<Rightarrow> Some \<lparr>dto_path = map (\<lambda>c. char_of (unat c)) cs\<rparr>)\<rparr>)\<rparr>"

definition sample_request_codecs :: request_codecs where
  "sample_request_codecs =
    \<lparr>rq_lookup = null_codec, rq_getattr = null_codec, rq_readdir = null_codec,
     rq_open = null_codec, rq_read = null_codec, rq_write = null_codec,
     rq_create = null_codec, rq_rename = null_codec, rq_unlink = unlink_codec,
     rq_mkdir = null_codec, rq_rmdir = null_codec, rq_statfs = null_codec,
     rq_getxattr = null_codec, rq_setxattr = null_codec, rq_listxattr = null_codec,
     rq_removexattr = null_codec, rq_release = null_codec, rq_readlink = null_codec,
     rq_symlink = null_codec, rq_hardlink = null_codec, rq_setattr = null_codec,
     rq_flush = null_codec, rq_fsync = null_codec, rq_fsyncdir = null_codec,
     rq_getlk = null_codec, rq_setlk = null_codec, rq_flock = null_codec,
     rq_copyfilerange = null_codec, rq_fallocate = null_codec, rq_lseek = null_codec\<rparr>"

definition sample_response_codecs :: response_codecs where
  "sample_response_codecs =
    \<lparr>rs_lookup = null_codec, rs_getattr = null_codec, rs_readdir = null_codec,
     rs_open = null_codec, rs_read = null_codec, rs_write = null_codec,
     rs_create = null_codec, rs_empty = null_codec, rs_statfs = null_codec,
     rs_getxattr = null_codec, rs_listxattr = null_codec, rs_readlink = null_codec,
     rs_symlink = null_codec, rs_hardlink = null_codec, rs_setattr = null_codec,
     rs_getlk = null_codec, rs_copyfilerange = null_codec, rs_lseek = null_codec\<rparr>"

definition sample_wire :: "PbRequestEnvelope \<Rightarrow> PbResponseEnvelope \<Rightarrow> wire_codecs" where
  "sample_wire q r =
    \<lparr>wc_requests = sample_request_codecs, wc_responses = sample_response_codecs,
     wc_request = constant_codec q, wc_response = constant_codec r\<rparr>"

definition sample_remote_unlink :: RequestEnvelope where
  "sample_remote_unlink =
    \<lparr>req_protocol_version = 2, req_request_id = ''r'', req_operation = Op_Unlink,
     req_namespace = ''n'', req_deadline_unix_nanos = 0, req_trace = TraceContext_default,
     req_caller = None, req_payload = Req_Unlink \<lparr>unlink_path = Some \<lparr>dto_path = ''/a''\<rparr>\<rparr>,
     req_observations = []\<rparr>"

definition sample_failure :: ResponseEnvelope where
  "sample_failure = failure_for sample_remote_unlink NotFound ''gone''"

definition sample_codecs :: wire_codecs where
  "sample_codecs = sample_wire (raw_request sample_remote_unlink [1, 47, 97])
    (raw_response sample_failure [] Op_Unlink NotFound)"

theorem request_roundtrip_witness:
  "\<exists>b. encode_request sample_codecs sample_remote_unlink = Ok b
    \<and> decode_request sample_codecs b = Ok sample_remote_unlink"
proof (rule request_roundtrip)
  show "validate_request sample_remote_unlink = Ok ()" by code_simp
  show "request_roundtrips sample_codecs sample_remote_unlink" by code_simp
qed

text \<open>
  C30: a valid response, success or failure, crosses the wire unchanged under the
  same assumption on the message codec.
\<close>

theorem response_roundtrip:
  assumes "validate_response env = Ok ()" "response_roundtrips cs env"
  shows "\<exists>b. encode_response cs env = Ok b \<and> decode_response cs b = Ok env"
  by (rule response_roundtrip_aux [OF assms])

theorem response_roundtrip_witness:
  "\<exists>b. encode_response sample_codecs sample_failure = Ok b
    \<and> decode_response sample_codecs b = Ok sample_failure"
proof (rule response_roundtrip)
  show "validate_response sample_failure = Ok ()" by code_simp
  show "response_roundtrips sample_codecs sample_failure" by code_simp
qed

end
