(* ===== verification/LocalTransport.thy ===== *)
theory LocalTransport
  imports FsCore FsCodec
begin

text \<open>
  The in-process transport, \<open>fs-transport-local/src/lib.rs\<close>: a client that hands a
  request to the dispatcher directly or through the wire codec. The two clock
  readings of a call (metadata, then dispatch) are arguments. The lemmas show
  that the serialized mode is transparent and that a failing transport leaves the
  dispatcher alone.
\<close>

section \<open>The client\<close>

datatype LocalMode = Direct | Serialized

record 's LocalClient =
  lc_dispatcher :: "'s Dispatcher"
  lc_mode :: LocalMode
  lc_max_frame_bytes :: nat
  lc_connected :: bool

definition LocalClient_new :: "'s Dispatcher \<Rightarrow> LocalMode \<Rightarrow> 's LocalClient" where
  "LocalClient_new dispatcher mode =
    \<lparr>lc_dispatcher = dispatcher, lc_mode = mode, lc_max_frame_bytes = 4 * 1024 * 1024,
     lc_connected = True\<rparr>"

definition with_max_frame_bytes :: "'s LocalClient \<Rightarrow> nat \<Rightarrow> 's LocalClient" where
  "with_max_frame_bytes c n = c\<lparr>lc_max_frame_bytes := n\<rparr>"

definition disconnect :: "'s LocalClient \<Rightarrow> 's LocalClient" where
  "disconnect c = c\<lparr>lc_connected := False\<rparr>"

definition reconnect :: "'s LocalClient \<Rightarrow> 's LocalClient" where
  "reconnect c = c\<lparr>lc_connected := True\<rparr>"

definition ensure_connected :: "'s LocalClient \<Rightarrow> RpcError + unit" where
  "ensure_connected c = (if lc_connected c then Ok () else Err ConnectionClosed)"

definition check_frame_len :: "'s LocalClient \<Rightarrow> nat \<Rightarrow> RpcError + unit" where
  "check_frame_len c n = (if n \<le> lc_max_frame_bytes c then Ok () else Err FrameTooLarge)"

definition malformed :: "ProtocolError \<Rightarrow> RpcError" where
  "malformed error = Malformed (protocol_error_to_string error)"

definition call_bytes :: "wire_codecs \<Rightarrow> u64 \<Rightarrow> u64 \<Rightarrow> 's LocalClient \<Rightarrow> bytes
    \<Rightarrow> (RpcError + bytes) \<times> 's LocalClient" where
  "call_bytes cs received now c request_bytes =
    (case try_seq (ensure_connected c) (try_seq (check_frame_len c (length request_bytes))
        (map_err malformed (decode_request cs request_bytes))) of
       Err e \<Rightarrow> (Err e, c)
     | Ok request \<Rightarrow>
        (case dispatch now (lc_dispatcher c) request
            (RpcMetadata_for_request received request (of_nat (length request_bytes))) of
           (response, d) \<Rightarrow>
            (try_bind (map_err malformed (encode_response cs response)) (\<lambda>response_bytes.
               try_seq (check_frame_len c (length response_bytes)) (Ok response_bytes)),
             c\<lparr>lc_dispatcher := d\<rparr>)))"

definition call_direct :: "u64 \<Rightarrow> u64 \<Rightarrow> 's LocalClient \<Rightarrow> RequestEnvelope
    \<Rightarrow> (RpcError + ResponseEnvelope) \<times> 's LocalClient" where
  "call_direct received now c request =
    (case ensure_connected c of
       Err e \<Rightarrow> (Err e, c)
     | Ok _ \<Rightarrow>
        (case dispatch now (lc_dispatcher c) request
            (RpcMetadata_for_request received request 0) of
           (response, d) \<Rightarrow> (Ok response, c\<lparr>lc_dispatcher := d\<rparr>)))"

definition call_serialized :: "wire_codecs \<Rightarrow> u64 \<Rightarrow> u64 \<Rightarrow> 's LocalClient \<Rightarrow> RequestEnvelope
    \<Rightarrow> (RpcError + ResponseEnvelope) \<times> 's LocalClient" where
  "call_serialized cs received now c request =
    (case map_err malformed (encode_request cs request) of
       Err e \<Rightarrow> (Err e, c)
     | Ok request_bytes \<Rightarrow>
        (case call_bytes cs received now c request_bytes of
           (result, c') \<Rightarrow>
            (try_bind result (\<lambda>response_bytes.
               map_err malformed (decode_response cs response_bytes)), c')))"

definition local_call :: "wire_codecs \<Rightarrow> u64 \<Rightarrow> u64 \<Rightarrow> 's LocalClient \<Rightarrow> RequestEnvelope
    \<Rightarrow> (RpcError + ResponseEnvelope) \<times> 's LocalClient" where
  "local_call cs received now c request =
    (case lc_mode c of
       Direct \<Rightarrow> call_direct received now c request
     | Serialized \<Rightarrow> call_serialized cs received now c request)"

definition local_drain_invalidations :: "'s LocalClient \<Rightarrow> string \<Rightarrow> RpcError + Invalidation list" where
  "local_drain_invalidations c namespace = try_seq (ensure_connected c) (Ok [])"

section \<open>Transparency\<close>

text \<open>
  A dispatcher whose handlers and authorizer do not read the length of the frame
  that carried the request.
\<close>

definition ignores_length :: "'s Dispatcher \<Rightarrow> bool" where
  "ignores_length d \<longleftrightarrow>
    (\<forall>s payload m n. call_handler (disp_service d) s payload (m\<lparr>md_payload_len := n\<rparr>)
      = call_handler (disp_service d) s payload m)
    \<and> (\<forall>m request n. disp_authorizer d (m\<lparr>md_payload_len := n\<rparr>) request = disp_authorizer d m request)"

lemma check_limits_length:
  assumes "n \<le> max_envelope_bytes limits"
  shows "check_limits limits request (m\<lparr>md_payload_len := n\<rparr>)
    = check_limits limits request (m\<lparr>md_payload_len := 0\<rparr>)"
proof -
  have "\<not> max_envelope_bytes limits < n" using assms by (simp only: not_less)
  then show ?thesis by (simp add: check_limits_def)
qed

lemma dispatch_ignores_length:
  assumes "ignores_length d" "n \<le> max_envelope_bytes (disp_limits d)"
  shows "dispatch now d request (RpcMetadata_for_request received request n)
    = dispatch now d request (RpcMetadata_for_request received request 0)"
proof -
  define m where "m = RpcMetadata_for_request received request 0"
  have md: "RpcMetadata_for_request received request n = m\<lparr>md_payload_len := n\<rparr>"
    "RpcMetadata_for_request received request 0 = m\<lparr>md_payload_len := 0\<rparr>"
    by (simp_all add: m_def RpcMetadata_for_request_def)
  have handled: "call_handler (disp_service d) s payload (m\<lparr>md_payload_len := i\<rparr>)
      = call_handler (disp_service d) s payload m"
    "disp_authorizer d (m\<lparr>md_payload_len := i\<rparr>) request = disp_authorizer d m request" for s payload i
    using assms(1) by (simp_all add: ignores_length_def)
  show ?thesis
    unfolding md dispatch_def validate_before_handler_def handled check_limits_length [OF assms(2)] by simp
qed

text \<open>
  C31: a serialized call of a valid request is the dispatch of that very request,
  with the frame length in its metadata, and returns the dispatcher's very
  response, as long as the message codec gives back what it encoded and both
  frames fit. A direct call of the request, which reports the length zero, then has the same
  result and leaves the client in the same state, unless the request frame is above the
  envelope limit of the dispatcher, which only the serialized call is held to. The handlers
  and the authorizer must not read the length; those of the file service do not
  (\<open>fabricfs_service_ignores_length\<close>).
\<close>

theorem serialized_call_transparent:
  assumes "lc_connected c" "validate_request request = Ok ()" "request_roundtrips cs request"
    and q: "encode_request cs request = Ok qb" "length qb \<le> lc_max_frame_bytes c"
    and d: "dispatch now (lc_dispatcher c) request
        (RpcMetadata_for_request received request (of_nat (length qb))) = (response, d')"
    and r: "response_roundtrips cs response"
      "encode_response cs response = Ok rb" "length rb \<le> lc_max_frame_bytes c"
  shows "call_serialized cs received now c request = (Ok response, c\<lparr>lc_dispatcher := d'\<rparr>)
    \<and> (ignores_length (lc_dispatcher c)
        \<and> of_nat (length qb) \<le> max_envelope_bytes (disp_limits (lc_dispatcher c))
      \<longrightarrow> call_direct received now c request = call_serialized cs received now c request)"
proof -
  from request_roundtrip_aux [OF assms(2,3)] q(1) have dq: "decode_request cs qb = Ok request"
    by simp
  have "validate_response response = Ok ()"
    using dispatch_valid_aux [of now "lc_dispatcher c" request] d by (metis fst_conv)
  from response_roundtrip_aux [OF this r(1)] r(2) have "decode_response cs rb = Ok response"
    by simp
  with assms(1) q d r dq have s: "call_serialized cs received now c request = (Ok response, c\<lparr>lc_dispatcher := d'\<rparr>)"
    by (simp add: call_serialized_def call_bytes_def ensure_connected_def check_frame_len_def)
  have "call_direct received now c request = (Ok response, c\<lparr>lc_dispatcher := d'\<rparr>)"
    if "ignores_length (lc_dispatcher c)" "of_nat (length qb) \<le> max_envelope_bytes (disp_limits (lc_dispatcher c))"
    using assms(1) d dispatch_ignores_length [OF that, of now request received]
    by (simp add: call_direct_def ensure_connected_def)
  with s show ?thesis by simp
qed

definition sample_local_client :: "nat LocalClient" where
  "sample_local_client =
    \<lparr>lc_dispatcher = sample_dispatcher\<lparr>disp_service := default_service\<rparr>, lc_mode = Serialized,
     lc_max_frame_bytes = 64, lc_connected = True\<rparr>"

definition sample_local_response :: ResponseEnvelope where
  "sample_local_response = failure_for sample_remote_unlink NotSupported
    ''operation unlink is not implemented''"

definition sample_local_codecs :: wire_codecs where
  "sample_local_codecs = sample_wire (raw_request sample_remote_unlink [1, 47, 97])
    (raw_response sample_local_response [] Op_Unlink NotSupported)"

lemma sample_local_client_ignores_length: "ignores_length (lc_dispatcher sample_local_client)"
proof -
  have "call_handler default_service s payload (m\<lparr>md_payload_len := n\<rparr>) = call_handler default_service s payload m"
    for s :: nat and payload m n
    by (cases payload) (simp_all add: default_service_def)
  then show ?thesis
    by (simp add: ignores_length_def sample_local_client_def sample_dispatcher_def AllowAll_authorize_def)
qed

theorem serialized_call_transparent_witness:
  "fst (call_serialized sample_local_codecs 0 0 sample_local_client sample_remote_unlink)
    = Ok sample_local_response
  \<and> call_direct 0 0 sample_local_client sample_remote_unlink
    = call_serialized sample_local_codecs 0 0 sample_local_client sample_remote_unlink"
proof -
  obtain response d' where d: "dispatch 0 (lc_dispatcher sample_local_client) sample_remote_unlink
      (RpcMetadata_for_request 0 sample_remote_unlink (of_nat (length [1::8 word])))
      = (response, d')" by fastforce
  have "fst (dispatch 0 (lc_dispatcher sample_local_client) sample_remote_unlink
      (RpcMetadata_for_request 0 sample_remote_unlink (of_nat (length [1::8 word]))))
      = sample_local_response" by code_simp
  with d have r: "response = sample_local_response" by simp
  have "lc_connected sample_local_client"
    "validate_request sample_remote_unlink = Ok ()"
    "request_roundtrips sample_local_codecs sample_remote_unlink"
    "encode_request sample_local_codecs sample_remote_unlink = Ok [1]"
    "length [1::8 word] \<le> lc_max_frame_bytes sample_local_client"
    "response_roundtrips sample_local_codecs sample_local_response"
    "encode_response sample_local_codecs sample_local_response = Ok [1]"
    by code_simp+
  moreover have "of_nat (length [1::8 word]) \<le> max_envelope_bytes (disp_limits (lc_dispatcher sample_local_client))"
    by code_simp
  ultimately show ?thesis
    using serialized_call_transparent [OF _ _ _ _ _ d, unfolded r] sample_local_client_ignores_length by auto
qed

lemma call_bytes_error_before_dispatch:
  "\<not> lc_connected c \<Longrightarrow> call_bytes cs received now c b = (Err ConnectionClosed, c)"
  by (simp add: call_bytes_def ensure_connected_def)

text \<open>
  A call that the transport refuses (a closed connection, a request that is
  not valid, or a request frame over the limit) returns an error and leaves
  client and dispatcher as they were.
\<close>

lemma local_call_refused:
  assumes "\<not> lc_connected c
    \<or> (lc_mode c = Serialized \<and> validate_request request \<noteq> Ok ())
    \<or> (lc_mode c = Serialized
        \<and> (\<exists>b. encode_request cs request = Ok b \<and> length b > lc_max_frame_bytes c))"
  shows "\<exists>e. local_call cs received now c request = (Err e, c)"
proof (cases "lc_mode c")
  case Direct
  with assms show ?thesis by (simp add: local_call_def call_direct_def ensure_connected_def)
next
  case Serialized
  show ?thesis
  proof (cases "encode_request cs request")
    case (Inl e)
    then show ?thesis by (simp add: local_call_def Serialized call_serialized_def)
  next
    case (Inr b)
    then have "validate_request request = Ok ()" by (simp add: encode_request_def ok_iffs)
    with assms Serialized Inr have "\<not> lc_connected c \<or> length b > lc_max_frame_bytes c" by auto
    then show ?thesis
      using Inr by (auto simp: local_call_def Serialized call_serialized_def call_bytes_def
          ensure_connected_def check_frame_len_def)
  qed
qed

lemma local_call_refused_witness:
  "\<exists>e. local_call sample_local_codecs 0 0 (disconnect sample_local_client) sample_remote_unlink
    = (Err e, disconnect sample_local_client)"
  by (rule local_call_refused) (simp add: disconnect_def)

end
