(* ===== verification/FuseAdapter.thy ===== *)
theory FuseAdapter
  imports FuseCacheRefinement LocalTransport
begin

text \<open>
  The FUSE adapter of \<open>fs-fuse/src/lib.rs\<close>: each file-system call drains the
  pending invalidations, finds its paths in the cache kernel, sends one request
  through an RPC client and applies the invalidations of the answer. The client is
  any implementation of the trait \<open>RpcClient\<close>, a record of its two methods. A method
  of the adapter is a function of the adapter's state to a result and the new state.
  The thread-local caller context of the source is a field of that state; the
  latency histogram, which only records wall-clock time, is left out of the metrics.
\<close>

section \<open>State\<close>

record 'c RpcClient =
  rpc_call :: "RequestEnvelope \<Rightarrow> 'c \<Rightarrow> (RpcError + ResponseEnvelope) \<times> 'c"
  rpc_drain_invalidations :: "string \<Rightarrow> 'c \<Rightarrow> (RpcError + Invalidation list) \<times> 'c"

record FuseEntry =
  entry_attr :: FileAttr

record FuseHandle =
  fh_handle :: u64
  fh_flags :: u32

record FuseWrite =
  fw_bytes_written :: u32

record FuseSetlk =
  fsl_handle :: u64
  fsl_owner :: u64
  fsl_start :: u64
  fsl_end :: u64
  fsl_typ :: i32
  fsl_pid :: u32
  fsl_wait :: bool

record FuseStatFs =
  fs_stat :: StatFs

record AdapterMetrics =
  calls_total :: u64
  call_failures :: u64
  stale_cache_total :: u64
  invalidation_drains_total :: u64
  invalidation_errors_total :: u64
  cache_poison_total :: u64

definition AdapterMetrics_default :: AdapterMetrics where
  "AdapterMetrics_default =
    \<lparr>calls_total = 0, call_failures = 0, stale_cache_total = 0, invalidation_drains_total = 0,
     invalidation_errors_total = 0, cache_poison_total = 0\<rparr>"

record 'c FuseAdapter =
  fa_client :: 'c
  fa_namespace :: string
  fa_cache :: CacheKernel
  fa_next_request_id :: u64
  fa_metrics :: AdapterMetrics
  fa_caller :: "CallerContext option"

definition FuseAdapter_new :: "'c \<Rightarrow> string \<Rightarrow> 'c FuseAdapter" where
  "FuseAdapter_new client namespace =
    \<lparr>fa_client = client, fa_namespace = namespace, fa_cache = CacheKernel_new,
     fa_next_request_id = 1, fa_metrics = AdapterMetrics_default, fa_caller = None\<rparr>"

type_synonym ('c, 'a) adapter_call = "'c FuseAdapter \<Rightarrow> (FuseError + 'a) \<times> 'c FuseAdapter"

text \<open>The question mark of the source, a result without an effect, and access to the cache.\<close>

definition and_then :: "('c, 'a) adapter_call \<Rightarrow> ('a \<Rightarrow> ('c, 'b) adapter_call) \<Rightarrow> ('c, 'b) adapter_call" where
  "and_then m f a = (case m a of (Ok x, a') \<Rightarrow> f x a' | (Err e, a') \<Rightarrow> (Err e, a'))"

definition give :: "FuseError + 'a \<Rightarrow> ('c, 'a) adapter_call" where
  "give r a = (r, a)"

definition with_kernel ::
    "(CacheKernel \<Rightarrow> (FuseError + 'a) \<times> CacheKernel) \<Rightarrow> ('c, 'a) adapter_call" where
  "with_kernel f a = (case f (fa_cache a) of (r, k) \<Rightarrow> (r, a\<lparr>fa_cache := k\<rparr>))"

definition update_kernel :: "(CacheKernel \<Rightarrow> CacheKernel) \<Rightarrow> ('c, unit) adapter_call" where
  "update_kernel f a = (Ok (), a\<lparr>fa_cache := f (fa_cache a)\<rparr>)"

definition bump :: "(AdapterMetrics \<Rightarrow> AdapterMetrics) \<Rightarrow> 'c FuseAdapter \<Rightarrow> 'c FuseAdapter" where
  "bump f a = a\<lparr>fa_metrics := f (fa_metrics a)\<rparr>"

section \<open>Caller context\<close>

definition bind_caller_context ::
    "CallerContext \<Rightarrow> 'c FuseAdapter \<Rightarrow> CallerContext option \<times> 'c FuseAdapter" where
  "bind_caller_context caller a = (fa_caller a, a\<lparr>fa_caller := Some caller\<rparr>)"

definition drop_caller_guard :: "CallerContext option \<Rightarrow> 'c FuseAdapter \<Rightarrow> 'c FuseAdapter" where
  "drop_caller_guard previous a = a\<lparr>fa_caller := previous\<rparr>"

definition with_caller_context :: "CallerContext \<Rightarrow> ('c, 'a) adapter_call \<Rightarrow> ('c, 'a) adapter_call" where
  "with_caller_context caller operation a =
    (case bind_caller_context caller a of (previous, a) \<Rightarrow>
     case operation a of (result, a) \<Rightarrow> (result, drop_caller_guard previous a))"

section \<open>Draining invalidations\<close>

definition path_dto :: "string \<Rightarrow> FuseError + PathDto" where
  "path_dto value = map_err (\<lambda>error. FuseProtocol (protocol_error_to_string error)) (path value)"

definition take_payload :: "ResponseEnvelope \<Rightarrow> FuseError + ResponsePayload" where
  "take_payload response =
    ok_or (FuseProtocol ''successful response missing payload'') (resp_payload response)"

definition required_attr :: "FileAttr option \<Rightarrow> Operation \<Rightarrow> FuseError + FileAttr" where
  "required_attr value operation = ok_or (UnexpectedPayload operation) value"

definition map_transport_error :: "RpcError \<Rightarrow> FuseError" where
  "map_transport_error error = FuseTransport (rpc_error_errno error) (rpc_error_to_string error)"

definition poison_cache :: "'c FuseAdapter \<Rightarrow> 'c FuseAdapter" where
  "poison_cache a =
    (let a = bump (cache_poison_total_update (\<lambda>n. n + 1)) a
     in a\<lparr>fa_cache := kernel_poison (fa_cache a)\<rparr>)"

text \<open>The loop over a drained batch, with the first error since the last full resync.\<close>

fun apply_batch :: "Invalidation list \<Rightarrow> FuseError option \<Rightarrow> 'c FuseAdapter
    \<Rightarrow> FuseError option \<times> 'c FuseAdapter" where
  "apply_batch [] batch_error a = (batch_error, a)"
| "apply_batch (i # is) batch_error a =
    (case apply_invalidation (fa_namespace a) i True (fa_cache a) of
       (Ok outcome, k) \<Rightarrow>
         apply_batch is (if outcome_full_resync outcome then None else batch_error)
           (a\<lparr>fa_cache := k\<rparr>)
     | (Err error, k) \<Rightarrow>
         apply_batch is (if batch_error = None then Some error else batch_error)
           (a\<lparr>fa_cache := k\<rparr>))"

definition drain_remote_invalidations :: "'c RpcClient \<Rightarrow> ('c, unit) adapter_call" where
  "drain_remote_invalidations rpc a =
    (let a = bump (invalidation_drains_total_update (\<lambda>n. n + 1)) a in
     case rpc_drain_invalidations rpc (fa_namespace a) (fa_client a) of (drained, c) \<Rightarrow>
     let a = a\<lparr>fa_client := c\<rparr> in
     case drained of
       Err error \<Rightarrow>
         (Err (map_transport_error error),
          poison_cache (bump (invalidation_errors_total_update (\<lambda>n. n + 1)) a))
     | Ok invalidations \<Rightarrow>
        (case apply_batch invalidations None a of
           (Some error, a) \<Rightarrow>
             (Err error, bump (invalidation_errors_total_update (\<lambda>n. n + 1)) a)
         | (None, a) \<Rightarrow> (Ok (), a)))"

section \<open>Calls\<close>

definition poison_cache_after_uncertain_path_mutation ::
    "RequestEnvelope \<Rightarrow> 'c FuseAdapter \<Rightarrow> 'c FuseAdapter" where
  "poison_cache_after_uncertain_path_mutation request a =
    (case poison_after_uncertain_path_mutation request (fa_cache a) of (poisoned, k) \<Rightarrow>
     let a = a\<lparr>fa_cache := k\<rparr>
     in if poisoned then bump (cache_poison_total_update (\<lambda>n. n + 1)) a else a)"

definition require_covering_path_invalidation ::
    "RequestEnvelope \<Rightarrow> ResponseEnvelope \<Rightarrow> ('c, unit) adapter_call" where
  "require_covering_path_invalidation request response a =
    (case kernel_require_covering_path_invalidation request response (fa_cache a) of (result, k) \<Rightarrow>
     let a = a\<lparr>fa_cache := k\<rparr>
     in (result, if result = Err StaleCache
                 then bump (cache_poison_total_update (\<lambda>n. n + 1)) a else a))"

definition apply_success_response_invalidation :: "Invalidation \<Rightarrow> ('c, unit) adapter_call" where
  "apply_success_response_invalidation i a =
    with_kernel (kernel_apply_success_response_invalidation (fa_namespace a) i) a"

fun apply_response_invalidations :: "Invalidation list \<Rightarrow> ('c, unit) adapter_call" where
  "apply_response_invalidations [] = give (Ok ())"
| "apply_response_invalidations (i # is) =
    and_then (apply_success_response_invalidation i) (\<lambda>_. apply_response_invalidations is)"

text \<open>What a call does with an answer of its client.\<close>

definition accept_response ::
    "RequestEnvelope \<Rightarrow> ResponseEnvelope \<Rightarrow> ('c, ResponseEnvelope) adapter_call" where
  "accept_response request response a =
    (let failed = bump (call_failures_update (\<lambda>n. n + 1)) a in
     if resp_ok response
     then (case validate_identity_and_payload_for_request response request of
         Err error \<Rightarrow>
           (Err (FuseProtocol (protocol_error_to_string error)),
            poison_cache_after_uncertain_path_mutation request failed)
       | Ok _ \<Rightarrow>
           and_then (apply_response_invalidations (resp_invalidations response)) (\<lambda>_.
           and_then (require_covering_path_invalidation request response) (\<lambda>_.
           give (Ok response))) a)
     else (case validate_for_request response request of
         Err error \<Rightarrow>
           (Err (FuseProtocol (protocol_error_to_string error)),
            poison_cache_after_uncertain_path_mutation request failed)
       | Ok _ \<Rightarrow>
           (Err (FuseResponse (case resp_errno response of None \<Rightarrow> Io | Some e \<Rightarrow> e)
              (resp_error_message response)), failed)))"

definition send_request :: "'c RpcClient \<Rightarrow> RequestPayload \<Rightarrow> ('c, ResponseEnvelope) adapter_call" where
  "send_request rpc payload a =
    (let request_id = fa_next_request_id a;
         a = a\<lparr>fa_next_request_id := request_id + 1\<rparr>
     in case RequestEnvelope_new (''fuse-'' @ show_nat (unat request_id)) (fa_namespace a) 0
         TraceContext_default payload of
       Err error \<Rightarrow> (Err (FuseProtocol (protocol_error_to_string error)), a)
     | Ok request \<Rightarrow>
        (let request = request\<lparr>req_caller := fa_caller a\<rparr> in
         case rpc_call rpc request (fa_client a) of (result, c) \<Rightarrow>
         let a = a\<lparr>fa_client := c\<rparr> in
         case result of
           Err error \<Rightarrow>
             (Err (map_transport_error error),
              poison_cache_after_uncertain_path_mutation request
                (bump (call_failures_update (\<lambda>n. n + 1)) a))
         | Ok response \<Rightarrow> accept_response request response a))"

definition call_with_cache_policy ::
    "'c RpcClient \<Rightarrow> RequestPayload \<Rightarrow> bool \<Rightarrow> bool \<Rightarrow> ('c, ResponseEnvelope) adapter_call" where
  "call_with_cache_policy rpc payload require_healthy_cache drain_before_call a =
    and_then (if drain_before_call then drain_remote_invalidations rpc else give (Ok ()))
      (\<lambda>_ a.
        case (if require_healthy_cache then kernel_poisoned (fa_cache a) else (False, fa_cache a)) of
          (stale, k) \<Rightarrow>
            let a = a\<lparr>fa_cache := k\<rparr>
            in if stale
               then (Err StaleCache, bump (stale_cache_total_update (\<lambda>n. n + 1)) a)
               else send_request rpc payload a)
      (bump (calls_total_update (\<lambda>n. n + 1)) a)"

definition call :: "'c RpcClient \<Rightarrow> RequestPayload \<Rightarrow> ('c, ResponseEnvelope) adapter_call" where
  "call rpc payload = call_with_cache_policy rpc payload True False"

definition call_handle_bound :: "'c RpcClient \<Rightarrow> RequestPayload \<Rightarrow> ('c, ResponseEnvelope) adapter_call" where
  "call_handle_bound rpc payload = call_with_cache_policy rpc payload False False"

definition call_release :: "'c RpcClient \<Rightarrow> RequestPayload \<Rightarrow> ('c, ResponseEnvelope) adapter_call" where
  "call_release rpc payload = call_with_cache_policy rpc payload False False"

section \<open>Paths\<close>

definition adapter_path_for_inode :: "'c RpcClient \<Rightarrow> u64 \<Rightarrow> ('c, string) adapter_call" where
  "adapter_path_for_inode rpc inode =
    and_then (drain_remote_invalidations rpc) (\<lambda>_.
    with_kernel (\<lambda>k. kernel_path_for_inode k inode))"

definition adapter_path_for_handle_bound_call ::
    "'c RpcClient \<Rightarrow> u64 \<Rightarrow> u64 \<Rightarrow> ('c, string) adapter_call" where
  "adapter_path_for_handle_bound_call rpc inode handle =
    and_then (drain_remote_invalidations rpc) (\<lambda>_.
    with_kernel (\<lambda>k. kernel_path_for_handle_bound_call k inode handle))"

definition adapter_child_path :: "'c RpcClient \<Rightarrow> u64 \<Rightarrow> string \<Rightarrow> ('c, string) adapter_call" where
  "adapter_child_path rpc parent name =
    and_then (drain_remote_invalidations rpc) (\<lambda>_.
    with_kernel (\<lambda>k. kernel_child_path k parent name))"

section \<open>File-system calls\<close>

definition fuse_lookup :: "'c RpcClient \<Rightarrow> u64 \<Rightarrow> string \<Rightarrow> ('c, FuseEntry) adapter_call" where
  "fuse_lookup rpc parent name =
    and_then (adapter_child_path rpc parent name) (\<lambda>path.
    and_then (give (path_dto path)) (\<lambda>dto.
    and_then (call rpc (Req_Lookup \<lparr>lookup_path = Some dto\<rparr>)) (\<lambda>response.
    and_then (give (take_payload response)) (\<lambda>payload.
      case payload of
        Resp_Lookup value \<Rightarrow> 
          and_then (give (required_attr (lookup_resp_attr value) Op_Lookup)) (\<lambda>attr.
          and_then (update_kernel (\<lambda>k. insert_lookup k path (attr_inode attr) 1)) (\<lambda>_.
          give (Ok \<lparr>entry_attr = attr\<rparr>)))
      | _ \<Rightarrow> give (Err (UnexpectedPayload Op_Lookup))))))"

definition fuse_getattr :: "'c RpcClient \<Rightarrow> u64 \<Rightarrow> ('c, FuseEntry) adapter_call" where
  "fuse_getattr rpc inode =
    and_then (adapter_path_for_inode rpc inode) (\<lambda>path.
    and_then (give (path_dto path)) (\<lambda>dto.
    and_then (call rpc (Req_Getattr \<lparr>getattr_path = Some dto\<rparr>)) (\<lambda>response.
    and_then (give (take_payload response)) (\<lambda>payload.
      case payload of
        Resp_Getattr value \<Rightarrow> 
          and_then (give (required_attr (getattr_resp_attr value) Op_Getattr)) (\<lambda>attr.
          give (Ok \<lparr>entry_attr = attr\<rparr>))
      | _ \<Rightarrow> give (Err (UnexpectedPayload Op_Getattr))))))"

definition fuse_readdir_path ::
    "'c RpcClient \<Rightarrow> string \<Rightarrow> u64 \<Rightarrow> u32 \<Rightarrow> ('c, DirectoryEntry list) adapter_call" where
  "fuse_readdir_path rpc p offset max_entries =
    and_then (give (path_dto p)) (\<lambda>dto.
    and_then (call rpc (Req_Readdir \<lparr>readdir_path = Some dto, readdir_offset = offset,
      readdir_max_entries = max_entries\<rparr>)) (\<lambda>response.
    and_then (give (take_payload response)) (\<lambda>payload.
      case payload of
        Resp_Readdir value \<Rightarrow> give (Ok (readdir_resp_entries value))
      | _ \<Rightarrow> give (Err (UnexpectedPayload Op_Readdir)))))"

definition fuse_readdir :: "'c RpcClient \<Rightarrow> u64 \<Rightarrow> u64 \<Rightarrow> u32 \<Rightarrow> ('c, DirectoryEntry list) adapter_call" where
  "fuse_readdir rpc inode offset max_entries =
    and_then (drain_remote_invalidations rpc) (\<lambda>_.
    and_then (with_kernel (\<lambda>k. kernel_path_for_inode k inode)) (\<lambda>path.
    fuse_readdir_path rpc path offset max_entries))"

definition fuse_readdir_with_parent ::
    "'c RpcClient \<Rightarrow> u64 \<Rightarrow> u64 \<Rightarrow> u32 \<Rightarrow> ('c, u64 \<times> DirectoryEntry list) adapter_call" where
  "fuse_readdir_with_parent rpc inode offset max_entries =
    and_then (drain_remote_invalidations rpc) (\<lambda>_.
    and_then (with_kernel (\<lambda>k. parent_and_path_for_inode k inode)) (\<lambda>(parent, path).
    and_then (fuse_readdir_path rpc path offset max_entries) (\<lambda>entries.
    give (Ok (parent, entries)))))"

definition fuse_open_with_kind :: "'c RpcClient \<Rightarrow> u64 \<Rightarrow> u32 \<Rightarrow> OpenKind \<Rightarrow> ('c, FuseHandle) adapter_call" where
  "fuse_open_with_kind rpc inode flags kind =
    and_then (adapter_path_for_inode rpc inode) (\<lambda>path.
    and_then (give (path_dto path)) (\<lambda>dto.
    and_then (call rpc (Req_Open \<lparr>open_path = Some dto,
      open_flags = flags, open_kind = open_kind_value kind\<rparr>)) (\<lambda>response.
    and_then (give (take_payload response)) (\<lambda>payload.
      case payload of
        Resp_Open value \<Rightarrow> 
          and_then (update_kernel (\<lambda>k.
            remember_handle_path k inode (open_resp_handle value) path)) (\<lambda>_.
          give (Ok \<lparr>fh_handle = open_resp_handle value, fh_flags = open_resp_flags value\<rparr>))
      | _ \<Rightarrow> give (Err (UnexpectedPayload Op_Open))))))"

definition fuse_open :: "'c RpcClient \<Rightarrow> u64 \<Rightarrow> u32 \<Rightarrow> ('c, FuseHandle) adapter_call" where
  "fuse_open rpc inode flags =
    fuse_open_with_kind rpc inode flags Open_File"

definition fuse_opendir :: "'c RpcClient \<Rightarrow> u64 \<Rightarrow> u32 \<Rightarrow> ('c, FuseHandle) adapter_call" where
  "fuse_opendir rpc inode flags =
    fuse_open_with_kind rpc inode flags Open_Directory"

definition fuse_read :: "'c RpcClient \<Rightarrow> u64 \<Rightarrow> u64 \<Rightarrow> u64 \<Rightarrow> u32 \<Rightarrow> ('c, bytes) adapter_call" where
  "fuse_read rpc inode handle offset n =
    and_then (adapter_path_for_handle_bound_call rpc inode handle) (\<lambda>path.
    and_then (give (path_dto path)) (\<lambda>dto.
    and_then (call_handle_bound rpc (Req_Read \<lparr>read_path = Some dto,
      read_handle = handle, read_offset = offset, read_size = n\<rparr>)) (\<lambda>response.
    and_then (give (take_payload response)) (\<lambda>payload.
      case payload of
        Resp_Read value \<Rightarrow> give (Ok (read_resp_data value))
      | _ \<Rightarrow> give (Err (UnexpectedPayload Op_Read))))))"

definition fuse_write :: "'c RpcClient \<Rightarrow> u64 \<Rightarrow> u64 \<Rightarrow> u64 \<Rightarrow> bytes \<Rightarrow> ('c, FuseWrite) adapter_call" where
  "fuse_write rpc inode handle offset data =
    and_then (adapter_path_for_handle_bound_call rpc inode handle) (\<lambda>path.
    and_then (give (path_dto path)) (\<lambda>dto.
    and_then (call_handle_bound rpc (Req_Write \<lparr>write_path = Some dto,
      write_handle = handle, write_offset = offset, write_data = data\<rparr>)) (\<lambda>response.
    and_then (give (take_payload response)) (\<lambda>payload.
      case payload of
        Resp_Write value \<Rightarrow> 
          give (Ok \<lparr>fw_bytes_written = write_resp_bytes_written value\<rparr>)
      | _ \<Rightarrow> give (Err (UnexpectedPayload Op_Write))))))"

definition fuse_create ::
    "'c RpcClient \<Rightarrow> u64 \<Rightarrow> string \<Rightarrow> u32 \<Rightarrow> u32 \<Rightarrow> ('c, FuseEntry \<times> FuseHandle) adapter_call" where
  "fuse_create rpc parent name flags mode =
    and_then (adapter_child_path rpc parent name) (\<lambda>path.
    and_then (give (path_dto path)) (\<lambda>dto.
    and_then (call rpc (Req_Create \<lparr>create_path = Some dto,
      create_flags = flags, create_mode = mode\<rparr>)) (\<lambda>response.
    and_then (give (take_payload response)) (\<lambda>payload.
      case payload of
        Resp_Create value \<Rightarrow> 
          and_then (give (required_attr (create_resp_attr value) Op_Create)) (\<lambda>attr.
          and_then (update_kernel (\<lambda>k. insert_lookup k path (attr_inode attr) 1)) (\<lambda>_.
          and_then (update_kernel (\<lambda>k.
            remember_handle_path k (attr_inode attr) (create_resp_handle value) path)) (\<lambda>_.
          give (Ok (\<lparr>entry_attr = attr\<rparr>,
            \<lparr>fh_handle = create_resp_handle value, fh_flags = 0\<rparr>)))))
      | _ \<Rightarrow> give (Err (UnexpectedPayload Op_Create))))))"

definition fuse_rename :: "'c RpcClient \<Rightarrow> u64 \<Rightarrow> string \<Rightarrow> u64 \<Rightarrow> string \<Rightarrow> ('c, unit) adapter_call" where
  "fuse_rename rpc old_parent old_name new_parent new_name =
    and_then (drain_remote_invalidations rpc) (\<lambda>_.
    and_then (with_kernel (\<lambda>k. rename_paths k old_parent old_name new_parent new_name))
      (\<lambda>(old_path, new_path).
    and_then (give (path_dto old_path)) (\<lambda>old_dto.
    and_then (give (path_dto new_path)) (\<lambda>new_dto.
    and_then (call rpc (Req_Rename \<lparr>rename_old_path = Some old_dto,
      rename_new_path = Some new_dto\<rparr>)) (\<lambda>response.
    and_then (give (take_payload response)) (\<lambda>payload.
      case payload of
        Resp_Rename _ \<Rightarrow> give (Ok ())
      | _ \<Rightarrow> give (Err (UnexpectedPayload Op_Rename))))))))"

definition fuse_unlink :: "'c RpcClient \<Rightarrow> u64 \<Rightarrow> string \<Rightarrow> ('c, unit) adapter_call" where
  "fuse_unlink rpc parent name =
    and_then (adapter_child_path rpc parent name) (\<lambda>path.
    and_then (give (path_dto path)) (\<lambda>dto.
    and_then (call rpc (Req_Unlink \<lparr>unlink_path = Some dto\<rparr>)) (\<lambda>response.
    and_then (give (take_payload response)) (\<lambda>payload.
      case payload of
        Resp_Unlink _ \<Rightarrow> give (Ok ())
      | _ \<Rightarrow> give (Err (UnexpectedPayload Op_Unlink))))))"

definition fuse_mkdir :: "'c RpcClient \<Rightarrow> u64 \<Rightarrow> string \<Rightarrow> u32 \<Rightarrow> ('c, FuseEntry) adapter_call" where
  "fuse_mkdir rpc parent name mode =
    and_then (adapter_child_path rpc parent name) (\<lambda>path.
    and_then (give (path_dto path)) (\<lambda>dto.
    and_then (call rpc (Req_Mkdir \<lparr>mkdir_path = Some dto,
      mkdir_mode = mode\<rparr>)) (\<lambda>response.
    and_then (give (take_payload response)) (\<lambda>payload.
      case payload of
        Resp_Mkdir value \<Rightarrow> 
          and_then (give (required_attr (lookup_resp_attr value) Op_Mkdir)) (\<lambda>attr.
          and_then (update_kernel (\<lambda>k. insert_lookup k path (attr_inode attr) 1)) (\<lambda>_.
          give (Ok \<lparr>entry_attr = attr\<rparr>)))
      | _ \<Rightarrow> give (Err (UnexpectedPayload Op_Mkdir))))))"

definition fuse_rmdir :: "'c RpcClient \<Rightarrow> u64 \<Rightarrow> string \<Rightarrow> ('c, unit) adapter_call" where
  "fuse_rmdir rpc parent name =
    and_then (adapter_child_path rpc parent name) (\<lambda>path.
    and_then (give (path_dto path)) (\<lambda>dto.
    and_then (call rpc (Req_Rmdir \<lparr>rmdir_path = Some dto\<rparr>)) (\<lambda>response.
    and_then (give (take_payload response)) (\<lambda>payload.
      case payload of
        Resp_Rmdir _ \<Rightarrow> give (Ok ())
      | _ \<Rightarrow> give (Err (UnexpectedPayload Op_Rmdir))))))"

definition fuse_statfs :: "'c RpcClient \<Rightarrow> u64 \<Rightarrow> ('c, FuseStatFs) adapter_call" where
  "fuse_statfs rpc inode =
    and_then (adapter_path_for_inode rpc inode) (\<lambda>path.
    and_then (give (path_dto path)) (\<lambda>dto.
    and_then (call rpc (Req_Statfs \<lparr>statfs_path = Some dto\<rparr>)) (\<lambda>response.
    and_then (give (take_payload response)) (\<lambda>payload.
      case payload of
        Resp_Statfs value \<Rightarrow> 
          and_then (give (ok_or (FuseProtocol ''missing statfs payload'') (statfs_resp_stat value)))
            (\<lambda>stat. give (Ok \<lparr>fs_stat = stat\<rparr>))
      | _ \<Rightarrow> give (Err (UnexpectedPayload Op_Statfs))))))"

definition fuse_getxattr :: "'c RpcClient \<Rightarrow> u64 \<Rightarrow> string \<Rightarrow> u32 \<Rightarrow> ('c, bytes) adapter_call" where
  "fuse_getxattr rpc inode name n =
    and_then (adapter_path_for_inode rpc inode) (\<lambda>path.
    and_then (give (path_dto path)) (\<lambda>dto.
    and_then (call rpc (Req_Getxattr \<lparr>getxattr_path = Some dto,
      getxattr_name = name, getxattr_size = n\<rparr>)) (\<lambda>response.
    and_then (give (take_payload response)) (\<lambda>payload.
      case payload of
        Resp_Getxattr value \<Rightarrow> give (Ok (getxattr_resp_value value))
      | _ \<Rightarrow> give (Err (UnexpectedPayload Op_Getxattr))))))"

definition fuse_setxattr :: "'c RpcClient \<Rightarrow> u64 \<Rightarrow> string \<Rightarrow> bytes \<Rightarrow> u32 \<Rightarrow> ('c, unit) adapter_call" where
  "fuse_setxattr rpc inode name value flags =
    and_then (adapter_path_for_inode rpc inode) (\<lambda>path.
    and_then (give (path_dto path)) (\<lambda>dto.
    and_then (call rpc (Req_Setxattr \<lparr>setxattr_path = Some dto,
      setxattr_name = name, setxattr_value = value, setxattr_flags = flags\<rparr>)) (\<lambda>response.
    and_then (give (take_payload response)) (\<lambda>payload.
      case payload of
        Resp_Setxattr _ \<Rightarrow> give (Ok ())
      | _ \<Rightarrow> give (Err (UnexpectedPayload Op_Setxattr))))))"

definition fuse_listxattr :: "'c RpcClient \<Rightarrow> u64 \<Rightarrow> u32 \<Rightarrow> ('c, string list) adapter_call" where
  "fuse_listxattr rpc inode n =
    and_then (adapter_path_for_inode rpc inode) (\<lambda>path.
    and_then (give (path_dto path)) (\<lambda>dto.
    and_then (call rpc (Req_Listxattr \<lparr>listxattr_path = Some dto,
      listxattr_size = n\<rparr>)) (\<lambda>response.
    and_then (give (take_payload response)) (\<lambda>payload.
      case payload of
        Resp_Listxattr value \<Rightarrow> give (Ok (listxattr_resp_names value))
      | _ \<Rightarrow> give (Err (UnexpectedPayload Op_Listxattr))))))"

definition fuse_removexattr :: "'c RpcClient \<Rightarrow> u64 \<Rightarrow> string \<Rightarrow> ('c, unit) adapter_call" where
  "fuse_removexattr rpc inode name =
    and_then (adapter_path_for_inode rpc inode) (\<lambda>path.
    and_then (give (path_dto path)) (\<lambda>dto.
    and_then (call rpc (Req_Removexattr \<lparr>removexattr_path = Some dto,
      removexattr_name = name\<rparr>)) (\<lambda>response.
    and_then (give (take_payload response)) (\<lambda>payload.
      case payload of
        Resp_Removexattr _ \<Rightarrow> give (Ok ())
      | _ \<Rightarrow> give (Err (UnexpectedPayload Op_Removexattr))))))"

definition fuse_release :: "'c RpcClient \<Rightarrow> u64 \<Rightarrow> u64 \<Rightarrow> u32 \<Rightarrow> ('c, unit) adapter_call" where
  "fuse_release rpc inode handle flags =
    and_then (with_kernel (\<lambda>k. path_for_release k inode handle)) (\<lambda>path.
    and_then (give (path_dto path)) (\<lambda>dto a.
    case call_release rpc (Req_Release \<lparr>release_path = Some dto, release_handle = handle,
        release_flags = flags\<rparr>) a of (response, a) \<Rightarrow>
    and_then (update_kernel (\<lambda>k. forget_handle_path k inode handle)) (\<lambda>_.
    and_then (give response) (\<lambda>response.
    and_then (give (take_payload response)) (\<lambda>payload.
      case payload of
        Resp_Release _ \<Rightarrow> give (Ok ())
      | _ \<Rightarrow> give (Err (UnexpectedPayload Op_Release))))) a))"

definition fuse_readlink :: "'c RpcClient \<Rightarrow> u64 \<Rightarrow> ('c, bytes) adapter_call" where
  "fuse_readlink rpc inode =
    and_then (adapter_path_for_inode rpc inode) (\<lambda>path.
    and_then (give (path_dto path)) (\<lambda>dto.
    and_then (call rpc (Req_Readlink \<lparr>readlink_path = Some dto\<rparr>)) (\<lambda>response.
    and_then (give (take_payload response)) (\<lambda>payload.
      case payload of
        Resp_Readlink value \<Rightarrow> give (Ok (readlink_resp_target value))
      | _ \<Rightarrow> give (Err (UnexpectedPayload Op_Readlink))))))"

definition fuse_symlink :: "'c RpcClient \<Rightarrow> u64 \<Rightarrow> string \<Rightarrow> bytes \<Rightarrow> ('c, FuseEntry) adapter_call" where
  "fuse_symlink rpc parent name target =
    and_then (adapter_child_path rpc parent name) (\<lambda>path.
    and_then (give (path_dto path)) (\<lambda>dto.
    and_then (call rpc (Req_Symlink \<lparr>symlink_path = Some dto,
      symlink_target = target\<rparr>)) (\<lambda>response.
    and_then (give (take_payload response)) (\<lambda>payload.
      case payload of
        Resp_Symlink value \<Rightarrow> 
          and_then (give (required_attr (symlink_resp_attr value) Op_Symlink)) (\<lambda>attr.
          and_then (update_kernel (\<lambda>k. insert_lookup k path (attr_inode attr) 1)) (\<lambda>_.
          give (Ok \<lparr>entry_attr = attr\<rparr>)))
      | _ \<Rightarrow> give (Err (UnexpectedPayload Op_Symlink))))))"

definition fuse_hardlink :: "'c RpcClient \<Rightarrow> u64 \<Rightarrow> u64 \<Rightarrow> string \<Rightarrow> ('c, FuseEntry) adapter_call" where
  "fuse_hardlink rpc inode new_parent new_name =
    and_then (drain_remote_invalidations rpc) (\<lambda>_.
    and_then (with_kernel (\<lambda>k. hardlink_paths k inode new_parent new_name))
      (\<lambda>(existing_path, new_path).
    and_then (give (path_dto existing_path)) (\<lambda>existing_dto.
    and_then (give (path_dto new_path)) (\<lambda>new_dto.
    and_then (call rpc (Req_Hardlink \<lparr>hardlink_existing_path = Some existing_dto,
      hardlink_new_path = Some new_dto\<rparr>)) (\<lambda>response.
    and_then (give (take_payload response)) (\<lambda>payload.
      case payload of
        Resp_Hardlink value \<Rightarrow>
          and_then (give (required_attr (hardlink_resp_attr value) Op_Hardlink)) (\<lambda>attr.
          and_then (update_kernel (\<lambda>k. insert_lookup k new_path (attr_inode attr) 1)) (\<lambda>_.
          give (Ok \<lparr>entry_attr = attr\<rparr>)))
      | _ \<Rightarrow> give (Err (UnexpectedPayload Op_Hardlink))))))))"

definition fuse_setattr ::
    "'c RpcClient \<Rightarrow> u64 \<Rightarrow> u64 option \<Rightarrow> u32 option \<Rightarrow> u32 option \<Rightarrow> u32 option \<Rightarrow> u64 option \<Rightarrow> ('c, FuseEntry) adapter_call" where
  "fuse_setattr rpc inode handle mode uid gid n =
    and_then (case handle of
        Some handle \<Rightarrow> adapter_path_for_handle_bound_call rpc inode handle
      | None \<Rightarrow> adapter_path_for_inode rpc inode) (\<lambda>path.
    and_then (give (path_dto path)) (\<lambda>dto.
    and_then ((if handle \<noteq> None then call_handle_bound rpc else call rpc)
      (Req_Setattr \<lparr>setattr_path = Some dto, setattr_mode = mode, setattr_uid = uid,
        setattr_gid = gid, setattr_size = n, setattr_handle = handle\<rparr>)) (\<lambda>response.
    and_then (give (take_payload response)) (\<lambda>payload.
      case payload of
        Resp_Setattr value \<Rightarrow>
          and_then (give (required_attr (setattr_resp_attr value) Op_Setattr)) (\<lambda>attr.
          give (Ok \<lparr>entry_attr = attr\<rparr>))
      | _ \<Rightarrow> give (Err (UnexpectedPayload Op_Setattr))))))"

definition fuse_flush :: "'c RpcClient \<Rightarrow> u64 \<Rightarrow> u64 \<Rightarrow> u64 \<Rightarrow> ('c, unit) adapter_call" where
  "fuse_flush rpc inode handle lock_owner =
    and_then (adapter_path_for_handle_bound_call rpc inode handle) (\<lambda>path.
    and_then (give (path_dto path)) (\<lambda>dto.
    and_then (call_handle_bound rpc (Req_Flush \<lparr>flush_path = Some dto,
      flush_handle = handle, flush_lock_owner = lock_owner\<rparr>)) (\<lambda>response.
    and_then (give (take_payload response)) (\<lambda>payload.
      case payload of
        Resp_Flush _ \<Rightarrow> give (Ok ())
      | _ \<Rightarrow> give (Err (UnexpectedPayload Op_Flush))))))"

definition fuse_fsync :: "'c RpcClient \<Rightarrow> u64 \<Rightarrow> u64 \<Rightarrow> bool \<Rightarrow> ('c, unit) adapter_call" where
  "fuse_fsync rpc inode handle datasync =
    and_then (adapter_path_for_handle_bound_call rpc inode handle) (\<lambda>path.
    and_then (give (path_dto path)) (\<lambda>dto.
    and_then (call_handle_bound rpc (Req_Fsync \<lparr>fsync_path = Some dto,
      fsync_handle = handle, fsync_datasync = datasync\<rparr>)) (\<lambda>response.
    and_then (give (take_payload response)) (\<lambda>payload.
      case payload of
        Resp_Fsync _ \<Rightarrow> give (Ok ())
      | _ \<Rightarrow> give (Err (UnexpectedPayload Op_Fsync))))))"

definition fuse_fsyncdir :: "'c RpcClient \<Rightarrow> u64 \<Rightarrow> u64 \<Rightarrow> bool \<Rightarrow> ('c, unit) adapter_call" where
  "fuse_fsyncdir rpc inode handle datasync =
    and_then (adapter_path_for_handle_bound_call rpc inode handle) (\<lambda>path.
    and_then (give (path_dto path)) (\<lambda>dto.
    and_then (call_handle_bound rpc (Req_Fsyncdir \<lparr>fsyncdir_path = Some dto,
      fsyncdir_handle = handle, fsyncdir_datasync = datasync\<rparr>)) (\<lambda>response.
    and_then (give (take_payload response)) (\<lambda>payload.
      case payload of
        Resp_Fsyncdir _ \<Rightarrow> give (Ok ())
      | _ \<Rightarrow> give (Err (UnexpectedPayload Op_Fsyncdir))))))"

definition fuse_getlk ::
    "'c RpcClient \<Rightarrow> u64 \<Rightarrow> u64 \<Rightarrow> u64 \<Rightarrow> u64 \<Rightarrow> u64 \<Rightarrow> i32 \<Rightarrow> u32 \<Rightarrow> ('c, FileLock option) adapter_call" where
  "fuse_getlk rpc inode handle owner start stop typ pid =
    and_then (adapter_path_for_handle_bound_call rpc inode handle) (\<lambda>path.
    and_then (give (path_dto path)) (\<lambda>dto.
    and_then (call_handle_bound rpc (Req_Getlk \<lparr>getlk_path = Some dto,
      getlk_handle = handle, getlk_owner = owner, getlk_start = start,
      getlk_end = stop, getlk_typ = typ, getlk_pid = pid\<rparr>)) (\<lambda>response.
    and_then (give (take_payload response)) (\<lambda>payload.
      case payload of
        Resp_Getlk value \<Rightarrow> give (Ok (getlk_resp_lock value))
      | _ \<Rightarrow> give (Err (UnexpectedPayload Op_Getlk))))))"

definition fuse_setlk :: "'c RpcClient \<Rightarrow> u64 \<Rightarrow> FuseSetlk \<Rightarrow> ('c, unit) adapter_call" where
  "fuse_setlk rpc inode lock =
    and_then (adapter_path_for_handle_bound_call rpc inode (fsl_handle lock)) (\<lambda>path.
    and_then (give (path_dto path)) (\<lambda>dto.
    and_then (call_handle_bound rpc (Req_Setlk \<lparr>setlk_path = Some dto,
      setlk_handle = fsl_handle lock, setlk_owner = fsl_owner lock,
      setlk_start = fsl_start lock, setlk_end = fsl_end lock, setlk_typ = fsl_typ lock,
      setlk_pid = fsl_pid lock, setlk_wait = fsl_wait lock\<rparr>)) (\<lambda>response.
    and_then (give (take_payload response)) (\<lambda>payload.
      case payload of
        Resp_Setlk _ \<Rightarrow> give (Ok ())
      | _ \<Rightarrow> give (Err (UnexpectedPayload Op_Setlk))))))"

definition fuse_flock :: "'c RpcClient \<Rightarrow> u64 \<Rightarrow> u64 \<Rightarrow> u64 \<Rightarrow> i32 \<Rightarrow> ('c, unit) adapter_call" where
  "fuse_flock rpc inode handle owner operation =
    and_then (adapter_path_for_handle_bound_call rpc inode handle) (\<lambda>path.
    and_then (give (path_dto path)) (\<lambda>dto.
    and_then (call_handle_bound rpc (Req_Flock \<lparr>flock_path = Some dto,
      flock_handle = handle, flock_owner = owner, flock_operation = operation\<rparr>)) (\<lambda>response.
    and_then (give (take_payload response)) (\<lambda>payload.
      case payload of
        Resp_Flock _ \<Rightarrow> give (Ok ())
      | _ \<Rightarrow> give (Err (UnexpectedPayload Op_Flock))))))"

definition fuse_copy_file_range ::
    "'c RpcClient \<Rightarrow> u64 \<Rightarrow> u64 \<Rightarrow> i64 \<Rightarrow> u64 \<Rightarrow> u64 \<Rightarrow> i64 \<Rightarrow> u64 \<Rightarrow> u32 \<Rightarrow> ('c, u64) adapter_call" where
  "fuse_copy_file_range rpc input_inode input_handle input_offset output_inode output_handle
      output_offset len flags =
    (if flags \<noteq> 0
     then give (Err (FuseResponse NotSupported ''copy_file_range flags are not supported''))
     else
       and_then (drain_remote_invalidations rpc) (\<lambda>_.
       and_then (with_kernel (\<lambda>k.
         copy_file_range_paths k input_inode input_handle output_inode output_handle))
         (\<lambda>(input_path, output_path).
       and_then (give (path_dto input_path)) (\<lambda>input_dto.
       and_then (give (path_dto output_path)) (\<lambda>output_dto.
       and_then (call_handle_bound rpc (Req_CopyFileRange
         \<lparr>copyfilerange_input_path = Some input_dto, copyfilerange_input_handle = input_handle,
          copyfilerange_input_offset = input_offset, copyfilerange_output_path = Some output_dto,
          copyfilerange_output_handle = output_handle, copyfilerange_output_offset = output_offset,
          copyfilerange_length = len, copyfilerange_flags = flags\<rparr>)) (\<lambda>response.
       and_then (give (take_payload response)) (\<lambda>payload.
         case payload of
           Resp_CopyFileRange value \<Rightarrow> give (Ok (copyfilerange_resp_bytes_copied value))
         | _ \<Rightarrow> give (Err (UnexpectedPayload Op_CopyFileRange)))))))))"

definition MAX_REPLY_WRITE_BYTES :: u64 where "MAX_REPLY_WRITE_BYTES = 0xFFFFFFFF"

definition fuse_copy_file_range_for_reply_write ::
    "'c RpcClient \<Rightarrow> u64 \<Rightarrow> u64 \<Rightarrow> i64 \<Rightarrow> u64 \<Rightarrow> u64 \<Rightarrow> i64 \<Rightarrow> u64 \<Rightarrow> u32 \<Rightarrow> ('c, FuseWrite) adapter_call" where
  "fuse_copy_file_range_for_reply_write rpc input_inode input_handle input_offset
      output_inode output_handle output_offset len flags =
    and_then (fuse_copy_file_range rpc input_inode input_handle input_offset output_inode
      output_handle output_offset (min len MAX_REPLY_WRITE_BYTES) flags) (\<lambda>bytes_copied.
    give (if unat bytes_copied < 2 ^ 32
          then Ok \<lparr>fw_bytes_written = ucast bytes_copied\<rparr>
          else Err (FuseProtocol ''copy_file_range response exceeded ReplyWrite capacity'')))"

definition fuse_fallocate :: "'c RpcClient \<Rightarrow> u64 \<Rightarrow> u64 \<Rightarrow> i64 \<Rightarrow> i64 \<Rightarrow> i32 \<Rightarrow> ('c, unit) adapter_call" where
  "fuse_fallocate rpc inode handle offset len mode =
    and_then (adapter_path_for_handle_bound_call rpc inode handle) (\<lambda>path.
    and_then (give (path_dto path)) (\<lambda>dto.
    and_then (call_handle_bound rpc (Req_Fallocate \<lparr>fallocate_path = Some dto,
      fallocate_handle = handle, fallocate_offset = offset, fallocate_length = len,
      fallocate_mode = mode\<rparr>)) (\<lambda>response.
    and_then (give (take_payload response)) (\<lambda>payload.
      case payload of
        Resp_Fallocate _ \<Rightarrow> give (Ok ())
      | _ \<Rightarrow> give (Err (UnexpectedPayload Op_Fallocate))))))"

definition fuse_lseek :: "'c RpcClient \<Rightarrow> u64 \<Rightarrow> u64 \<Rightarrow> i64 \<Rightarrow> i32 \<Rightarrow> ('c, i64) adapter_call" where
  "fuse_lseek rpc inode handle offset whence =
    and_then (adapter_path_for_handle_bound_call rpc inode handle) (\<lambda>path.
    and_then (give (path_dto path)) (\<lambda>dto.
    and_then (call_handle_bound rpc (Req_Lseek \<lparr>lseek_path = Some dto,
      lseek_handle = handle, lseek_offset = offset, lseek_whence = whence\<rparr>)) (\<lambda>response.
    and_then (give (take_payload response)) (\<lambda>payload.
      case payload of
        Resp_Lseek value \<Rightarrow> give (Ok (lseek_resp_offset value))
      | _ \<Rightarrow> give (Err (UnexpectedPayload Op_Lseek))))))"

definition fuse_forget :: "u64 \<Rightarrow> u64 \<Rightarrow> ('c, unit) adapter_call" where
  "fuse_forget inode nlookup = update_kernel (\<lambda>k. FuseCache.forget k inode nlookup)"

definition fuse_apply_invalidation :: "Invalidation \<Rightarrow> ('c, unit) adapter_call" where
  "fuse_apply_invalidation i a =
    and_then (with_kernel (apply_invalidation (fa_namespace a) i True)) (\<lambda>_. give (Ok ())) a"

definition fuse_cached_path :: "u64 \<Rightarrow> 'c FuseAdapter \<Rightarrow> string option \<times> 'c FuseAdapter" where
  "fuse_cached_path inode a =
    (case cached_path (fa_cache a) inode of (p, k) \<Rightarrow> (p, a\<lparr>fa_cache := k\<rparr>))"

definition cache_poisoned :: "'c FuseAdapter \<Rightarrow> bool \<times> 'c FuseAdapter" where
  "cache_poisoned a = (case kernel_poisoned (fa_cache a) of (p, k) \<Rightarrow> (p, a\<lparr>fa_cache := k\<rparr>))"

definition fuse_parent_inode :: "'c RpcClient \<Rightarrow> u64 \<Rightarrow> ('c, u64) adapter_call" where
  "fuse_parent_inode rpc inode =
    and_then (drain_remote_invalidations rpc) (\<lambda>_.
    with_kernel (\<lambda>k. kernel_parent_inode k inode))"

end
