(* ===== verification/CacheCoherence.thy ===== *)
theory CacheCoherence
  imports FuseCacheRefinement FsCodec
begin

text \<open>
  The dispatcher of \<open>fs-core\<close> and the cache kernel of \<open>fs-fuse\<close> together: the
  answers of the dispatcher carry the invalidations the cache demands, and a cache
  that applies them in order stays in step with the dispatcher's sequence numbers.
\<close>

section \<open>The dispatcher and the FUSE cache\<close>

lemma reported_kind_required:
  assumes "for_request_and_response p payload = Some required"
  shows "\<exists>kind. invalidation_kind_for_request p = Some kind"
  using assms
  by (cases p) (auto simp: for_request_and_response_def required_for_effect_def
      invalidation_kind_for_request_def split: if_splits)

lemma reports_covers:
  assumes "reports kind request payload i"
    "invalidation_kind_for_request (req_payload request) = Some kind"
    "for_request_and_response (req_payload request) payload = Some required"
  shows "required_matches required request i"
proof -
  have "invalidation_kind_try_from (inv_kind i) = Ok kind"
    using assms(1) by (simp add: reports_def invalidation_kind_iff)
  with assms show ?thesis
    by (cases "req_payload request")
      (auto simp: required_matches_def reports_def for_request_and_response_def
        required_for_effect_def invalidation_kind_for_request_def split: if_splits)
qed

lemma resync_covers:
  "required_matches required request
    (full_resync_invalidation (req_namespace request) (req_request_id request) n)"
  using invalidation_kind_iff [of 7 Inv_FullResync]
  by (simp add: required_matches_def full_resync_invalidation_def)

lemma dispatch_covers_aux:
  "kernel_require_covering_path_invalidation request (fst (dispatch now d request metadata)) k
    = (Ok (), k)"
proof (cases rule: dispatch_cases [of now d request metadata])
  case (succeeded payload s' invs d' response)
  note v = validate_before_handler_valid [OF succeeded(1)]
  have r: "resp_payload response = Some payload" "resp_invalidations response = invs"
    using success_for_fields [OF succeeded(5)] by simp_all
  have "list_ex (required_matches required request) invs"
    if q: "for_request_and_response (req_payload request) payload = Some required" for required
  proof -
    obtain kind where kind: "invalidation_kind_for_request (req_payload request) = Some kind"
      using reported_kind_required [OF q] by blast
    show ?thesis
    proof (cases "disp_poisoned d")
      case True
      with succeeded(4) kind show ?thesis
        by (auto simp: invalidations_for_success_poisoned resync_covers)
    next
      case False
      then have "\<not> disp_poisoned (d\<lparr>disp_state := s'\<rparr>)" by simp
      from invalidations_for_success_reports [OF kind this v, of payload] succeeded(4)
      show ?thesis using reports_covers [OF _ kind q] by auto
    qed
  qed
  with r succeeded(6) show ?thesis
    by (auto simp: kernel_require_covering_path_invalidation_def split: option.splits)
qed (simp_all add: kernel_require_covering_path_invalidation_def failure_for_def)

text \<open>
  C18: every answer of the dispatcher, from a healthy or a poisoned state, carries the
  invalidation the FUSE cache demands for the request, so the coverage check of the
  adapter never poisons a cache fed by this dispatcher.
\<close>

theorem dispatch_covers_mutation:
  "kernel_require_covering_path_invalidation request (fst (dispatch now d request metadata)) k
    = (Ok (), k)"
  by (rule dispatch_covers_aux)

text \<open>
  A cache at the client end of a lossless stream: the invalidations of every answer
  are applied in the order they were issued.
\<close>

definition apply_answer :: "string \<Rightarrow> ResponseEnvelope \<Rightarrow> CacheKernel \<Rightarrow> CacheKernel" where
  "apply_answer namespace response k =
    fold (\<lambda>i k. snd (kernel_apply_success_response_invalidation namespace i k))
      (resp_invalidations response) k"

primrec serve_and_apply ::
    "string \<Rightarrow> (u64 \<times> RequestEnvelope \<times> RpcMetadata) list \<Rightarrow> 's Dispatcher \<times> CacheKernel
      \<Rightarrow> 's Dispatcher \<times> CacheKernel" where
  "serve_and_apply namespace [] s = s"
| "serve_and_apply namespace (call # calls) s =
    (case call of (now, request, metadata) \<Rightarrow>
     case dispatch now (fst s) request metadata of (response, d') \<Rightarrow>
       serve_and_apply namespace calls (d', apply_answer namespace response (snd s)))"

definition coherent :: "string \<Rightarrow> 's Dispatcher \<Rightarrow> CacheKernel \<Rightarrow> bool" where
  "coherent namespace d k \<longleftrightarrow> \<not> disp_poisoned d \<and> kernel_healthy k \<and> \<not> pc_poisoned (ck_cache k)
    \<and> seq_next d namespace = last_sequence (ck_cache k) + 1"

lemma apply_answer_single:
  "resp_invalidations response = [i] \<Longrightarrow>
    apply_answer namespace response k = snd (apply_invalidation namespace i False k)"
  by (simp add: apply_answer_def apply_success_response_state)

lemma apply_foreign_invalidation:
  assumes "inv_namespace i \<noteq> namespace" "validate_invalidation i = Ok ()"
  shows "snd (apply_invalidation namespace i allow k) = k"
  using assms by (auto simp: apply_invalidation_def validate_invalidation_def)

lemma dispatch_answer_cases:
  assumes h: "\<not> disp_poisoned d" and r: "dispatch now d request metadata = (response, d')"
  obtains (quiet) "resp_invalidations response = []" "seq_next d' = seq_next d"
  | (reported) kind i where "resp_invalidations response = [i]"
      "inv_kind i = invalidation_wire_value kind" "kind \<noteq> Inv_FullResync"
      "validate_invalidation i = Ok ()" "inv_sequence i = seq_next d (inv_namespace i)"
      "seq_next d' = (seq_next d)(inv_namespace i := inv_sequence i + 1)"
proof -
  have v: "\<forall>i \<in> set (resp_invalidations response). validate_invalidation i = Ok ()"
    using dispatch_valid_aux [of now d request metadata] r by (simp add: validate_response_ok)
  have "(resp_invalidations response = [] \<and> seq_next d' = seq_next d)
    \<or> (\<exists>kind payload i. resp_invalidations response = [i] \<and> reports kind request payload i
        \<and> invalidation_kind_for_request (req_payload request) = Some kind
        \<and> inv_sequence i = seq_next d (req_namespace request)
        \<and> seq_next d' = (seq_next d)(req_namespace request := inv_sequence i + 1))"
    using dispatch_reports_aux [OF h, where now = now and request = request and metadata = metadata] r
    by (auto split: if_splits option.splits)
  then show ?thesis
  proof (elim disjE conjE exE)
    fix kind payload i
    assume i: "resp_invalidations response = [i]" "reports kind request payload i"
      "invalidation_kind_for_request (req_payload request) = Some kind"
      "inv_sequence i = seq_next d (req_namespace request)"
      "seq_next d' = (seq_next d)(req_namespace request := inv_sequence i + 1)"
    moreover from this have "inv_namespace i = req_namespace request"
      "inv_kind i = invalidation_wire_value kind" by (simp_all add: reports_def)
    moreover have "kind \<noteq> Inv_FullResync" using i(3) invalidation_kind_not_resync by auto
    ultimately show ?thesis using v by (intro reported [of i kind]) simp_all
  qed (rule quiet)
qed

lemma apply_answer_coherent:
  assumes c: "coherent namespace d k" and r: "dispatch now d request metadata = (response, d')"
  shows "coherent namespace d' (apply_answer namespace response k)"
proof -
  have h: "\<not> disp_poisoned d" using c by (simp add: coherent_def)
  have h': "\<not> disp_poisoned d'" using dispatch_healthy [OF h, of now request metadata] r by simp
  from h r show ?thesis
  proof (cases rule: dispatch_answer_cases)
    case quiet
    with c h' show ?thesis by (simp add: coherent_def apply_answer_def)
  next
    case (reported kind i)
    show ?thesis
    proof (cases "inv_namespace i = namespace")
      case True
      with c reported(5) have "kind = Inv_FullResync \<or> inv_sequence i = last_sequence (ck_cache k) + 1"
        by (simp add: coherent_def)
      from apply_next_invalidation [OF _ True reported(4,2) this, of False] c h' reported True
      show ?thesis by (simp add: coherent_def apply_answer_single case_prod_beta)
    next
      case False
      with c h' reported show ?thesis
        by (simp add: coherent_def apply_answer_single apply_foreign_invalidation)
    qed
  qed
qed

text \<open>
  C9: a cache fed in order with the answers of a healthy dispatcher stays in step
  with it: over every run of requests, of its own namespace and of others, it is
  never poisoned, it stays well formed, and it expects next the sequence number the
  dispatcher will issue next.
\<close>

theorem cache_follows_dispatcher:
  assumes "coherent namespace d k"
  shows "case serve_and_apply namespace calls (d, k) of (d', k') \<Rightarrow> coherent namespace d' k'"
  using assms
proof (induction calls arbitrary: d k)
  case Nil
  then show ?case by simp
next
  case (Cons call calls)
  obtain now request metadata where call: "call = (now, request, metadata)" by (cases call) auto
  obtain response d' where r: "dispatch now d request metadata = (response, d')" by fastforce
  from Cons.IH [OF apply_answer_coherent [OF Cons.prems r]] show ?case by (simp add: call r)
qed

lemma fresh_coherent: "coherent ''n'' sample_dispatcher CacheKernel_new"
proof -
  have "kernel_wf CacheKernel_new" by (simp add: kernel_wf_def CacheKernel_new_def cache_new_wf)
  moreover have "\<not> disp_poisoned sample_dispatcher" "seq_next sample_dispatcher ''n'' = 1"
    by code_simp+
  ultimately show ?thesis
    by (simp add: coherent_def kernel_healthy_def CacheKernel_new_def PathCache_new_def)
qed

theorem cache_follows_dispatcher_witness:
  "\<not> pc_poisoned (ck_cache (snd (serve_and_apply ''n'' [(0, sample_unlink, sample_metadata)]
      (sample_dispatcher, CacheKernel_new))))"
  using cache_follows_dispatcher [OF fresh_coherent, of "[(0, sample_unlink, sample_metadata)]"]
  by (simp only: coherent_def case_prod_beta) simp

end
