(* ===== verification/FuseAdapterCalls.thy ===== *)
theory FuseAdapterCalls
  imports FuseAdapter CacheCoherence
begin

text \<open>
  What the calls of the FUSE adapter keep. A small calculus carries an invariant
  through the calls; \<open>adapter_invariant\<close> states what an invariant needs, its lemmas
  extend it to every call, and it is interpreted on the well-formedness of the cache
  under any client. The rest shows what becomes of a mutation whose outcome is
  uncertain, of released handles, and of clamped copies.
\<close>

section \<open>Invariants of adapter calls\<close>

text \<open>
  A call keeps an invariant of the adapter's state and, where it succeeds, returns
  a value with a given property.
\<close>

definition keeps :: "('c FuseAdapter \<Rightarrow> bool) \<Rightarrow> ('c, 'a) adapter_call \<Rightarrow> ('a \<Rightarrow> bool) \<Rightarrow> bool" where
  "keeps I m Q \<longleftrightarrow> (\<forall>a. I a \<longrightarrow> I (snd (m a)) \<and> (\<forall>x. fst (m a) = Ok x \<longrightarrow> Q x))"

named_theorems keeps_rules

lemma keepsI:
  assumes "\<And>a. I a \<Longrightarrow> I (snd (m a))" "\<And>a x. I a \<Longrightarrow> fst (m a) = Ok x \<Longrightarrow> Q x"
  shows "keeps I m Q"
  using assms by (simp add: keeps_def)

lemma keepsD: "keeps I m Q \<Longrightarrow> I a \<Longrightarrow> I (snd (m a))"
  by (simp add: keeps_def)

lemma keeps_and_then [keeps_rules]:
  assumes m: "keeps I m Q" and f: "\<And>x. Q x \<Longrightarrow> keeps I (f x) R"
  shows "keeps I (and_then m f) R"
  unfolding keeps_def
proof (intro allI impI)
  fix a assume a: "I a"
  show "I (snd (and_then m f a)) \<and> (\<forall>x. fst (and_then m f a) = Ok x \<longrightarrow> R x)"
  proof (cases "m a")
    case (Pair r a')
    with m a have "I a'" "\<And>x. r = Ok x \<Longrightarrow> Q x" by (auto simp: keeps_def)
    with f Pair show ?thesis by (cases r) (auto simp: and_then_def keeps_def)
  qed
qed

lemma keeps_give [keeps_rules]: "(\<And>x. r = Ok x \<Longrightarrow> Q x) \<Longrightarrow> keeps I (give r) Q"
  by (simp add: keeps_def give_def)

lemma keeps_give_any: "keeps I (give r) (\<lambda>_. True)"
  by (simp add: keeps_def give_def)

lemma keeps_if [keeps_rules]: "keeps I m Q \<Longrightarrow> keeps I n Q \<Longrightarrow> keeps I (if b then m else n) Q"
  by simp

lemma keeps_prod [keeps_rules]: "(\<And>x y. p = (x, y) \<Longrightarrow> keeps I (f x y) Q) \<Longrightarrow> keeps I (case p of (x, y) \<Rightarrow> f x y) Q"
  by (cases p) simp

lemma keeps_payload:
  assumes "\<And>x. keeps I (f1 x) Q" "\<And>x. keeps I (f2 x) Q" "\<And>x. keeps I (f3 x) Q"
    "\<And>x. keeps I (f4 x) Q" "\<And>x. keeps I (f5 x) Q" "\<And>x. keeps I (f6 x) Q"
    "\<And>x. keeps I (f7 x) Q" "\<And>x. keeps I (f8 x) Q" "\<And>x. keeps I (f9 x) Q"
    "\<And>x. keeps I (f10 x) Q" "\<And>x. keeps I (f11 x) Q" "\<And>x. keeps I (f12 x) Q"
    "\<And>x. keeps I (f13 x) Q" "\<And>x. keeps I (f14 x) Q" "\<And>x. keeps I (f15 x) Q"
    "\<And>x. keeps I (f16 x) Q" "\<And>x. keeps I (f17 x) Q" "\<And>x. keeps I (f18 x) Q"
    "\<And>x. keeps I (f19 x) Q" "\<And>x. keeps I (f20 x) Q" "\<And>x. keeps I (f21 x) Q"
    "\<And>x. keeps I (f22 x) Q" "\<And>x. keeps I (f23 x) Q" "\<And>x. keeps I (f24 x) Q"
    "\<And>x. keeps I (f25 x) Q" "\<And>x. keeps I (f26 x) Q" "\<And>x. keeps I (f27 x) Q"
    "\<And>x. keeps I (f28 x) Q" "\<And>x. keeps I (f29 x) Q" "\<And>x. keeps I (f30 x) Q"
  shows "keeps I (case_ResponsePayload f1 f2 f3 f4 f5 f6 f7 f8 f9 f10 f11 f12 f13 f14 f15
      f16 f17 f18 f19 f20 f21 f22 f23 f24 f25 f26 f27 f28 f29 f30 payload) Q"
  using assms by (cases payload) simp_all

lemma join_child_path_not_root: "name \<noteq> [] \<Longrightarrow> join_child_path parent name \<noteq> ''/''"
  by (auto simp: join_child_path_def append_eq_Cons_conv)

lemma cache_child_path_not_root: "cache_child_path c parent name = Ok p \<Longrightarrow> p \<noteq> ''/''"
  by (auto simp: cache_child_path_def validate_child_name_def ok_iffs join_child_path_not_root
      split: if_splits)

text \<open>
  What an invariant of the adapter needs: it is kept by a drain, by a call of the
  client, and by the updates of the cache kernel that the file-system calls make.
\<close>

locale adapter_invariant =
  fixes rpc :: "'c RpcClient" and I :: "'c FuseAdapter \<Rightarrow> bool"
  assumes drain: "keeps I (drain_remote_invalidations rpc) (\<lambda>_. True)"
    and policy: "keeps I (call_with_cache_policy rpc payload healthy False) (\<lambda>_. True)"
    and lookup: "p \<noteq> ''/'' \<Longrightarrow> keeps I (update_kernel (\<lambda>k. insert_lookup k p inode 1)) (\<lambda>_. True)"
    and forget: "keeps I (fuse_forget inode n) (\<lambda>_. True)"
    and remember: "keeps I (update_kernel (\<lambda>k. remember_handle_path k inode handle p)) (\<lambda>_. True)"
    and release: "keeps I (update_kernel (\<lambda>k. forget_handle_path k inode handle)) (\<lambda>_. True)"
    and read: "I a \<Longrightarrow> I (a\<lparr>fa_cache := lock_cache (fa_cache a)\<rparr>)"
    and read_both: "I a \<Longrightarrow> I (a\<lparr>fa_cache := lock_handles (lock_cache (fa_cache a))\<rparr>)"
    and caller: "I (a\<lparr>fa_caller := caller\<rparr>) \<longleftrightarrow> I a"
begin

lemma snapshot:
  assumes "\<And>c x. f c = Ok x \<Longrightarrow> Q x"
  shows "keeps I (with_kernel (\<lambda>k. with_cache_snapshot k f)) Q"
  using assms read by (auto simp: keeps_def with_kernel_def with_cache_snapshot_def Let_def)

lemma snapshot_both: "keeps I (with_kernel (\<lambda>k. with_cache_and_handles_snapshot k f)) (\<lambda>_. True)"
  using read_both by (auto simp: keeps_def with_kernel_def with_cache_and_handles_snapshot_def Let_def)

lemma calls:
  "keeps I (call rpc payload) (\<lambda>_. True)" "keeps I (call_handle_bound rpc payload) (\<lambda>_. True)"
  "keeps I (call_release rpc payload) (\<lambda>_. True)"
  by (simp_all add: call_def call_handle_bound_def call_release_def policy)

lemma kernel_paths:
  "keeps I (with_kernel (\<lambda>k. kernel_path_for_inode k inode)) (\<lambda>_. True)"
  "keeps I (with_kernel (\<lambda>k. kernel_parent_inode k inode)) (\<lambda>_. True)"
  "keeps I (with_kernel (\<lambda>k. parent_and_path_for_inode k inode)) (\<lambda>_. True)"
  "keeps I (with_kernel (\<lambda>k. kernel_path_for_handle_bound_call k inode handle)) (\<lambda>_. True)"
  "keeps I (with_kernel (\<lambda>k. path_for_release k inode handle)) (\<lambda>_. True)"
  "keeps I (with_kernel (\<lambda>k. copy_file_range_paths k inode handle inode' handle')) (\<lambda>_. True)"
  "keeps I (with_kernel (\<lambda>k. rename_paths k inode name inode' name')) (\<lambda>_. True)"
  unfolding kernel_path_for_inode_def kernel_parent_inode_def parent_and_path_for_inode_def
    kernel_path_for_handle_bound_call_def path_for_release_def copy_file_range_paths_def rename_paths_def
  by (rule snapshot_both | rule snapshot, rule TrueI)+

lemma kernel_children:
  "keeps I (with_kernel (\<lambda>k. kernel_child_path k inode name)) (\<lambda>p. p \<noteq> ''/'')"
  "keeps I (with_kernel (\<lambda>k. hardlink_paths k inode inode' name)) (\<lambda>(p, q). q \<noteq> ''/'')"
  unfolding kernel_child_path_def hardlink_paths_def
  by (rule snapshot, auto simp: ok_iffs dest: cache_child_path_not_root)+

lemma paths:
  "keeps I (adapter_path_for_inode rpc inode) (\<lambda>_. True)"
  "keeps I (adapter_path_for_handle_bound_call rpc inode handle) (\<lambda>_. True)"
  "keeps I (adapter_child_path rpc inode name) (\<lambda>p. p \<noteq> ''/'')"
  unfolding adapter_path_for_inode_def adapter_path_for_handle_bound_call_def adapter_child_path_def
  by (rule keeps_and_then [OF drain], rule kernel_paths kernel_children)+

text \<open>The shape of a call on one path, and of a call on two.\<close>

lemma request:
  assumes "keeps I P Q" "\<And>dto. keeps I (C dto) (\<lambda>_. True)"
    "\<And>p payload. Q p \<Longrightarrow> keeps I (F p payload) (\<lambda>_. True)"
  shows "keeps I (and_then P (\<lambda>p. and_then (give (path_dto p)) (\<lambda>dto. and_then (C dto) (\<lambda>response.
    and_then (give (take_payload response)) (\<lambda>payload. F p payload))))) (\<lambda>_. True)"
  by (rule keeps_and_then [OF assms(1)] keeps_and_then [OF keeps_give_any]
      keeps_and_then [OF assms(2)] assms(3) | assumption)+

lemma request2:
  assumes "keeps I P Q" "\<And>dto dto'. keeps I (C dto dto') (\<lambda>_. True)"
    "\<And>p q payload. Q (p, q) \<Longrightarrow> keeps I (F p q payload) (\<lambda>_. True)"
  shows "keeps I (and_then (drain_remote_invalidations rpc) (\<lambda>_. and_then P (\<lambda>(p, q).
    and_then (give (path_dto p)) (\<lambda>dto. and_then (give (path_dto q)) (\<lambda>dto'.
    and_then (C dto dto') (\<lambda>response. and_then (give (take_payload response)) (\<lambda>payload.
      F p q payload))))))) (\<lambda>_. True)"
  by (rule keeps_and_then [OF drain] keeps_and_then [OF assms(1)] keeps_prod
      keeps_and_then [OF keeps_give_any] keeps_and_then [OF assms(2)] assms(3) | simp)+

lemma attr_then:
  assumes "\<And>attr. keeps I (f attr) (\<lambda>_. True)"
  shows "keeps I (and_then (give r) f) (\<lambda>_. True)"
  by (rule keeps_and_then [OF keeps_give_any]) (rule assms)

lemma update_then:
  assumes "keeps I (update_kernel u) (\<lambda>_. True)" "keeps I (f ()) (\<lambda>_. True)"
  shows "keeps I (and_then (update_kernel u) f) (\<lambda>_. True)"
  by (rule keeps_and_then [OF assms(1)]) (simp add: assms(2))

lemmas answer_rules = keeps_give_any attr_then update_then lookup remember

lemma inode_calls:
  "keeps I (fuse_getattr rpc inode) (\<lambda>_. True)"
  "keeps I (fuse_open_with_kind rpc inode flags kind) (\<lambda>_. True)"
  "keeps I (fuse_statfs rpc inode) (\<lambda>_. True)"
  "keeps I (fuse_getxattr rpc inode name n) (\<lambda>_. True)"
  "keeps I (fuse_setxattr rpc inode name bs flags) (\<lambda>_. True)"
  "keeps I (fuse_listxattr rpc inode n) (\<lambda>_. True)"
  "keeps I (fuse_removexattr rpc inode name) (\<lambda>_. True)"
  "keeps I (fuse_readlink rpc inode) (\<lambda>_. True)"
  unfolding fuse_getattr_def fuse_open_with_kind_def fuse_statfs_def fuse_getxattr_def
    fuse_setxattr_def fuse_listxattr_def fuse_removexattr_def fuse_readlink_def
  by (rule request [OF paths(1) calls(1)]; rule keeps_payload; intro answer_rules; assumption?)+

lemma open_calls:
  "keeps I (fuse_open rpc inode flags) (\<lambda>_. True)" "keeps I (fuse_opendir rpc inode flags) (\<lambda>_. True)"
  by (simp_all add: fuse_open_def fuse_opendir_def inode_calls)

lemma child_calls:
  "keeps I (fuse_lookup rpc parent name) (\<lambda>_. True)"
  "keeps I (fuse_create rpc parent name flags mode) (\<lambda>_. True)"
  "keeps I (fuse_unlink rpc parent name) (\<lambda>_. True)"
  "keeps I (fuse_mkdir rpc parent name mode) (\<lambda>_. True)"
  "keeps I (fuse_rmdir rpc parent name) (\<lambda>_. True)"
  "keeps I (fuse_symlink rpc parent name target) (\<lambda>_. True)"
  unfolding fuse_lookup_def fuse_create_def fuse_unlink_def fuse_mkdir_def fuse_rmdir_def
    fuse_symlink_def
  by (rule request [OF paths(3) calls(1)]; rule keeps_payload; intro answer_rules; assumption?)+

lemma handle_calls:
  "keeps I (fuse_read rpc inode handle offset n) (\<lambda>_. True)"
  "keeps I (fuse_write rpc inode handle offset bs) (\<lambda>_. True)"
  "keeps I (fuse_flush rpc inode handle owner) (\<lambda>_. True)"
  "keeps I (fuse_fsync rpc inode handle datasync) (\<lambda>_. True)"
  "keeps I (fuse_fsyncdir rpc inode handle datasync) (\<lambda>_. True)"
  "keeps I (fuse_getlk rpc inode handle owner start stop typ pid) (\<lambda>_. True)"
  "keeps I (fuse_setlk rpc inode lock) (\<lambda>_. True)"
  "keeps I (fuse_flock rpc inode handle owner operation) (\<lambda>_. True)"
  "keeps I (fuse_fallocate rpc inode handle i j m) (\<lambda>_. True)"
  "keeps I (fuse_lseek rpc inode handle i whence) (\<lambda>_. True)"
  unfolding fuse_read_def fuse_write_def fuse_flush_def fuse_fsync_def fuse_fsyncdir_def
    fuse_getlk_def fuse_setlk_def fuse_flock_def fuse_fallocate_def fuse_lseek_def
  by (rule request [OF paths(2) calls(2)]; rule keeps_payload; intro answer_rules; assumption?)+

lemma setattr_call: "keeps I (fuse_setattr rpc inode handle mode uid gid n) (\<lambda>_. True)"
  unfolding fuse_setattr_def
proof (rule request [where Q = "\<lambda>_. True"], goal_cases)
  case 1
  show ?case by (simp add: paths split: option.split)
next
  case (2 dto)
  show ?case by (simp add: calls)
next
  case (3 p payload)
  show ?case by (rule keeps_payload; intro answer_rules)
qed

lemma readdir_calls:
  "keeps I (fuse_readdir_path rpc p offset n) (\<lambda>_. True)"
  "keeps I (fuse_readdir rpc inode offset n) (\<lambda>_. True)"
  "keeps I (fuse_readdir_with_parent rpc inode offset n) (\<lambda>_. True)"
proof -
  show r: "keeps I (fuse_readdir_path rpc p offset n) (\<lambda>_. True)" for p
    unfolding fuse_readdir_path_def
    by (rule attr_then, rule keeps_and_then [OF calls(1)], rule attr_then, rule keeps_payload;
        rule keeps_give_any)
  show "keeps I (fuse_readdir rpc inode offset n) (\<lambda>_. True)"
    unfolding fuse_readdir_def
    by (rule keeps_and_then [OF drain], rule keeps_and_then [OF kernel_paths(1)], rule r)
  show "keeps I (fuse_readdir_with_parent rpc inode offset n) (\<lambda>_. True)"
    unfolding fuse_readdir_with_parent_def
    by (rule keeps_and_then [OF drain], rule keeps_and_then [OF kernel_paths(3)], rule keeps_prod,
        rule keeps_and_then [OF r], rule keeps_give_any)
qed

lemma two_path_calls:
  "keeps I (fuse_rename rpc inode name inode' name') (\<lambda>_. True)"
  "keeps I (fuse_hardlink rpc inode inode' name) (\<lambda>_. True)"
  unfolding fuse_rename_def fuse_hardlink_def
  by (rule request2 [OF kernel_paths(7) calls(1)] request2 [OF kernel_children(2) calls(1)];
      rule keeps_payload; intro answer_rules; simp)+

lemma copy_calls:
  "keeps I (fuse_copy_file_range rpc i h off i' h' off' n flags) (\<lambda>_. True)"
  "keeps I (fuse_copy_file_range_for_reply_write rpc i h off i' h' off' n flags) (\<lambda>_. True)"
proof -
  show c: "keeps I (fuse_copy_file_range rpc i h off i' h' off' n flags) (\<lambda>_. True)" for n
    unfolding fuse_copy_file_range_def
    by (rule keeps_if, rule keeps_give_any, rule request2 [OF kernel_paths(6) calls(2)],
        rule keeps_payload; rule keeps_give_any)
  show "keeps I (fuse_copy_file_range_for_reply_write rpc i h off i' h' off' n flags) (\<lambda>_. True)"
    unfolding fuse_copy_file_range_for_reply_write_def
    by (rule keeps_and_then [OF c], rule keeps_give_any)
qed

lemma keeps_anyway:
  assumes "keeps I C (\<lambda>_. True)" "\<And>response. keeps I (F response) (\<lambda>_. True)"
  shows "keeps I (\<lambda>a. case C a of (response, a) \<Rightarrow> F response a) (\<lambda>_. True)"
  using assms by (simp add: keeps_def case_prod_beta)

lemma release_call: "keeps I (fuse_release rpc inode handle flags) (\<lambda>_. True)"
  unfolding fuse_release_def
  by (rule keeps_and_then [OF kernel_paths(5)], rule attr_then, rule keeps_anyway [OF calls(3)],
      rule update_then [OF release], rule attr_then, rule attr_then, rule keeps_payload;
      rule keeps_give_any)

lemma parent_call: "keeps I (fuse_parent_inode rpc inode) (\<lambda>_. True)"
  unfolding fuse_parent_inode_def by (rule keeps_and_then [OF drain], rule kernel_paths(2))

end

section \<open>Runs of file-system calls\<close>

text \<open>The calls that a mounted file system makes of its adapter, one rule for each.\<close>

inductive fuse_call :: "'c RpcClient \<Rightarrow> 'c FuseAdapter \<Rightarrow> 'c FuseAdapter \<Rightarrow> bool" for rpc a where
  lookup_call: "fuse_call rpc a (snd (fuse_lookup rpc i n a))"
| getattr_call: "fuse_call rpc a (snd (fuse_getattr rpc i a))"
| setattr_call: "fuse_call rpc a (snd (fuse_setattr rpc i h m u g sz a))"
| readlink_call: "fuse_call rpc a (snd (fuse_readlink rpc i a))"
| mkdir_call: "fuse_call rpc a (snd (fuse_mkdir rpc i n m a))"
| unlink_call: "fuse_call rpc a (snd (fuse_unlink rpc i n a))"
| rmdir_call: "fuse_call rpc a (snd (fuse_rmdir rpc i n a))"
| symlink_call: "fuse_call rpc a (snd (fuse_symlink rpc i n t a))"
| rename_call: "fuse_call rpc a (snd (fuse_rename rpc i n j n' a))"
| hardlink_call: "fuse_call rpc a (snd (fuse_hardlink rpc i j n a))"
| open_call: "fuse_call rpc a (snd (fuse_open rpc i f a))"
| read_call: "fuse_call rpc a (snd (fuse_read rpc i h off sz a))"
| write_call: "fuse_call rpc a (snd (fuse_write rpc i h off bs a))"
| flush_call: "fuse_call rpc a (snd (fuse_flush rpc i h owner a))"
| released_call: "fuse_call rpc a (snd (fuse_release rpc i h f a))"
| fsync_call: "fuse_call rpc a (snd (fuse_fsync rpc i h d a))"
| opendir_call: "fuse_call rpc a (snd (fuse_opendir rpc i f a))"
| readdir_call: "fuse_call rpc a (snd (fuse_readdir rpc i off sz a))"
| readdir_with_parent_call: "fuse_call rpc a (snd (fuse_readdir_with_parent rpc i off sz a))"
| fsyncdir_call: "fuse_call rpc a (snd (fuse_fsyncdir rpc i h d a))"
| statfs_call: "fuse_call rpc a (snd (fuse_statfs rpc i a))"
| setxattr_call: "fuse_call rpc a (snd (fuse_setxattr rpc i n bs f a))"
| getxattr_call: "fuse_call rpc a (snd (fuse_getxattr rpc i n sz a))"
| listxattr_call: "fuse_call rpc a (snd (fuse_listxattr rpc i sz a))"
| removexattr_call: "fuse_call rpc a (snd (fuse_removexattr rpc i n a))"
| create_call: "fuse_call rpc a (snd (fuse_create rpc i n f m a))"
| getlk_call: "fuse_call rpc a (snd (fuse_getlk rpc i h owner s e t p a))"
| setlk_call: "fuse_call rpc a (snd (fuse_setlk rpc i l a))"
| flock_call: "fuse_call rpc a (snd (fuse_flock rpc i h owner op a))"
| fallocate_call: "fuse_call rpc a (snd (fuse_fallocate rpc i h off len m a))"
| lseek_call: "fuse_call rpc a (snd (fuse_lseek rpc i h off w a))"
| copy_file_range_call: "fuse_call rpc a (snd (fuse_copy_file_range rpc i h off j g off' len f a))"
| copy_for_reply_call: "fuse_call rpc a (snd (fuse_copy_file_range_for_reply_write rpc i h off j g off' len f a))"
| parent_inode_call: "fuse_call rpc a (snd (fuse_parent_inode rpc i a))"
| forget_call: "fuse_call rpc a (snd (fuse_forget i nlookup a))"

text \<open>A step of the adapter: one call, under the identity of its caller.\<close>

inductive adapter_step :: "'c RpcClient \<Rightarrow> 'c FuseAdapter \<Rightarrow> 'c FuseAdapter \<Rightarrow> bool" for rpc where
  under_caller: "bind_caller_context caller a = (previous, a1) \<Longrightarrow> fuse_call rpc a1 a2 \<Longrightarrow>
    adapter_step rpc a (drop_caller_guard previous a2)"

context adapter_invariant
begin

lemma fuse_call_keeps: "fuse_call rpc a a' \<Longrightarrow> I a \<Longrightarrow> I a'"
  by (induction rule: fuse_call.induct)
    (rule keepsD, rule inode_calls child_calls handle_calls setattr_call readdir_calls
      two_path_calls copy_calls release_call parent_call forget open_calls, assumption)+

lemma adapter_step_keeps: "adapter_step rpc a a' \<Longrightarrow> I a \<Longrightarrow> I a'"
  by (induction rule: adapter_step.induct)
    (auto simp: bind_caller_context_def drop_caller_guard_def caller dest: fuse_call_keeps)

lemma reachable_keeps: "(adapter_step rpc)\<^sup>*\<^sup>* a a' \<Longrightarrow> I a \<Longrightarrow> I a'"
  by (induction rule: rtranclp_induct) (auto intro: adapter_step_keeps)

end

section \<open>Any client\<close>

lemma fields_simps [simp]:
  "fa_cache (bump f a) = fa_cache a" "fa_namespace (bump f a) = fa_namespace a"
  "fa_client (bump f a) = fa_client a" "fa_caller (bump f a) = fa_caller a"
  by (simp_all add: bump_def)

lemma with_kernel_snd [simp]:
  "snd (with_kernel f a) = a\<lparr>fa_cache := snd (f (fa_cache a))\<rparr>"
  "fst (with_kernel f a) = fst (f (fa_cache a))"
  by (simp_all add: with_kernel_def case_prod_beta)

lemma apply_batch_wf:
  "kernel_wf (fa_cache a) \<Longrightarrow> kernel_wf (fa_cache (snd (apply_batch is e a)))"
proof (induction "is" e a rule: apply_batch.induct)
  case (2 i "is" e a)
  show ?case
  proof (cases "apply_invalidation (fa_namespace a) i True (fa_cache a)")
    case (Pair r k)
    then have "kernel_wf k" using apply_invalidation_wf [OF 2(3), of "fa_namespace a" i True] by simp
    with 2(1,2) Pair show ?thesis by (cases r) simp_all
  qed
qed simp

lemma apply_batch_result_wf:
  "apply_batch is e a = (r, a') \<Longrightarrow> kernel_wf (fa_cache a) \<Longrightarrow> kernel_wf (fa_cache a')"
  using apply_batch_wf [of a "is" e] by simp

abbreviation adapter_wf :: "'c FuseAdapter \<Rightarrow> bool" where
  "adapter_wf a \<equiv> kernel_wf (fa_cache a)"

lemma drain_wf: "keeps adapter_wf (drain_remote_invalidations rpc) (\<lambda>_. True)"
  by (rule keepsI)
    (auto simp: drain_remote_invalidations_def Let_def poison_cache_def kernel_poison_wf
      split: prod.splits sum.splits option.splits dest!: apply_batch_result_wf)

lemma uncertain_wf [simp]:
  "adapter_wf a \<Longrightarrow> adapter_wf (poison_cache_after_uncertain_path_mutation request a)"
  using kernel_step_wf [OF kernel_step.uncertain, of "fa_cache a" request]
  by (auto simp: poison_cache_after_uncertain_path_mutation_def Let_def split: prod.splits)

lemma apply_response_invalidations_wf:
  "keeps adapter_wf (apply_response_invalidations is) (\<lambda>_. True)"
proof (induction "is")
  case (Cons i "is")
  have "keeps adapter_wf (apply_success_response_invalidation i) (\<lambda>_. True)"
    by (rule keepsI) (simp_all add: apply_success_response_invalidation_def
        apply_success_response_state apply_invalidation_wf)
  from keeps_and_then [OF this] Cons show ?case by simp
qed (simp add: keeps_give_any)

lemma require_covering_wf:
  "keeps adapter_wf (require_covering_path_invalidation request response) (\<lambda>_. True)"
proof (rule keepsI)
  fix a :: "'a FuseAdapter" assume "adapter_wf a"
  with kernel_step_wf [OF kernel_step.cover, of "fa_cache a" request response]
  show "adapter_wf (snd (require_covering_path_invalidation request response a))"
    by (auto simp: require_covering_path_invalidation_def Let_def split: prod.splits)
qed simp

lemma accept_response_wf: "keeps adapter_wf (accept_response request response) (\<lambda>_. True)"
proof (rule keepsI)
  fix a :: "'a FuseAdapter" assume a: "adapter_wf a"
  have "keeps adapter_wf (and_then (apply_response_invalidations (resp_invalidations response)) (\<lambda>_.
      and_then (require_covering_path_invalidation request response) (\<lambda>_.
      give (Ok response)))) (\<lambda>_. True)"
    by (intro keeps_and_then [OF apply_response_invalidations_wf]
        keeps_and_then [OF require_covering_wf] keeps_give_any)
  from keepsD [OF this a] a show "adapter_wf (snd (accept_response request response a))"
    by (auto simp: accept_response_def Let_def split: sum.splits)
qed simp

lemma send_request_wf: "keeps adapter_wf (send_request rpc payload) (\<lambda>_. True)"
  by (rule keepsI) (auto simp: send_request_def Let_def split: prod.splits sum.splits
      intro!: keepsD [OF accept_response_wf])

text \<open>Every call of the adapter is made without a drain of its own.\<close>

definition admitted :: "bool \<Rightarrow> 'c FuseAdapter \<Rightarrow> 'c FuseAdapter" where
  "admitted healthy a = (bump (calls_total_update (\<lambda>n. n + 1)) a)
    \<lparr>fa_cache := if healthy then lock_cache (fa_cache a) else fa_cache a\<rparr>"

lemma admitted_fields [simp]:
  "fa_cache (admitted healthy a) = (if healthy then lock_cache (fa_cache a) else fa_cache a)"
  "fa_client (admitted healthy a) = fa_client a" "fa_namespace (admitted healthy a) = fa_namespace a"
  by (simp_all add: admitted_def)

lemma policy_no_drain:
  "call_with_cache_policy rpc payload healthy False a =
    (if healthy \<and> pc_poisoned (ck_cache (lock_cache (fa_cache a)))
     then (Err StaleCache, bump (stale_cache_total_update (\<lambda>n. n + 1)) (admitted healthy a))
     else send_request rpc payload (admitted healthy a))"
  by (auto simp: call_with_cache_policy_def and_then_def give_def kernel_poisoned_def Let_def
      admitted_def)

lemma policy_wf: "keeps adapter_wf (call_with_cache_policy rpc payload healthy False) (\<lambda>_. True)"
  by (rule keepsI) (simp_all add: policy_no_drain keepsD [OF send_request_wf])

lemma update_wf:
  "(\<And>k. kernel_step k (f k)) \<Longrightarrow> keeps adapter_wf (update_kernel f) (\<lambda>_. True)"
  by (rule keepsI) (auto simp: update_kernel_def intro: kernel_step_wf)

interpretation any_client: adapter_invariant rpc adapter_wf for rpc :: "'c RpcClient"
proof
  show "keeps adapter_wf (fuse_forget inode n) (\<lambda>_. True)" for inode n
    unfolding fuse_forget_def by (rule update_wf) (rule kernel_step.forget)
  show "keeps adapter_wf (update_kernel (\<lambda>k. insert_lookup k p inode 1)) (\<lambda>_. True)"
    if "p \<noteq> ''/''" for p inode
    by (rule update_wf) (rule kernel_step.lookup [OF that])
qed (simp_all add: drain_wf policy_wf update_wf kernel_step.remember kernel_step.drop_handle)

text \<open>
  C19: whatever the client answers and whatever invalidations it delivers, the
  adapter's cache is well formed after every sequence of file-system calls.
\<close>

theorem adapter_cache_invariant:
  assumes "(adapter_step rpc)\<^sup>*\<^sup>* (FuseAdapter_new client namespace) a"
  shows "kernel_wf (fa_cache a)"
  by (rule any_client.reachable_keeps [OF assms])
    (simp add: FuseAdapter_new_def kernel_wf_def CacheKernel_new_def cache_new_wf)

definition silent_client :: "unit RpcClient" where
  "silent_client = \<lparr>rpc_call = (\<lambda>_ c. (Err Timeout, c)), rpc_drain_invalidations = (\<lambda>_ c. (Ok [], c))\<rparr>"

definition sample_caller :: CallerContext where
  "sample_caller = \<lparr>caller_uid = 1, caller_gid = 1, caller_pid = 7\<rparr>"

theorem adapter_cache_invariant_witness:
  "kernel_wf (fa_cache (drop_caller_guard None (snd (fuse_unlink silent_client 1 ''a''
    (snd (bind_caller_context sample_caller (FuseAdapter_new () ''n'')))))))"
proof (rule adapter_cache_invariant [of silent_client "()" "''n''"], rule r_into_rtranclp)
  have "bind_caller_context sample_caller (FuseAdapter_new () ''n'')
      = (None, snd (bind_caller_context sample_caller (FuseAdapter_new () ''n'')))"
    by (simp add: bind_caller_context_def FuseAdapter_new_def)
  from under_caller [OF this unlink_call]
  show "adapter_step silent_client (FuseAdapter_new () ''n'')
    (drop_caller_guard None (snd (fuse_unlink silent_client 1 ''a''
      (snd (bind_caller_context sample_caller (FuseAdapter_new () ''n''))))))" .
qed

section \<open>Uncertain mutations\<close>

lemma apply_contiguous_error_poisons:
  "apply_contiguous kind i k = (Err e, k') \<Longrightarrow> pc_poisoned (ck_cache k')"
  by (auto simp: apply_contiguous_def Let_def split: if_splits sum.splits)

lemma apply_invalidation_error_poisons:
  assumes "apply_invalidation namespace i allow k = (Err e, k')"
  shows "pc_poisoned (ck_cache k')"
proof (cases "inv_namespace i = namespace \<and> validate_invalidation i = Ok ()")
  case True
  then obtain kind where kind: "inv_kind i = invalidation_wire_value kind"
    using validate_invalidation_has_kind by blast
  from assms show ?thesis
    unfolding apply_invalidation_valid [OF conjunct1 [OF True] conjunct2 [OF True] kind]
    by (auto simp: Let_def split: if_splits dest: apply_contiguous_error_poisons)
next
  case False
  with assms show ?thesis by (auto simp: apply_invalidation_def split: if_splits sum.splits)
qed

lemma apply_response_error_poisons:
  "fst (apply_response_invalidations is a) = Err e \<Longrightarrow>
    pc_poisoned (ck_cache (fa_cache (snd (apply_response_invalidations is a))))"
proof (induction "is" arbitrary: a)
  case (Cons i "is")
  obtain r k where k: "apply_invalidation (fa_namespace a) i False (fa_cache a) = (r, k)" by fastforce
  then have "r = Err e' \<Longrightarrow> pc_poisoned (ck_cache k)" for e'
    using apply_invalidation_error_poisons by blast
  with Cons k show ?case
    by (auto simp: and_then_def apply_success_response_invalidation_def with_kernel_def
        kernel_apply_success_response_invalidation_def split: sum.splits if_splits)
qed (simp add: give_def)

lemma apply_response_client [simp]:
  "fa_client (snd (apply_response_invalidations is a)) = fa_client a"
  by (induction "is" arbitrary: a) (auto simp: give_def and_then_def
      apply_success_response_invalidation_def with_kernel_def split: prod.splits sum.splits)

text \<open>The mutation was answered: accepted and covered by invalidations, or refused by the server.\<close>

definition settled :: "RequestPayload \<Rightarrow> FuseError + ResponseEnvelope \<Rightarrow> bool" where
  "settled payload result \<longleftrightarrow>
    (case result of
       Ok response \<Rightarrow> (\<exists>request. req_payload request = payload
         \<and> validate_identity_and_payload_for_request response request = Ok ()
         \<and> (\<forall>k. kernel_require_covering_path_invalidation request response k = (Ok (), k)))
     | Err e \<Rightarrow> (\<exists>errno message. e = FuseResponse errno message))"

lemma cover_ok:
  "kernel_require_covering_path_invalidation request response k = (Ok (), k')
    \<Longrightarrow> kernel_require_covering_path_invalidation request response k'' = (Ok (), k'')"
  by (auto simp: kernel_require_covering_path_invalidation_def split: option.splits if_splits)

lemma cover_error:
  "kernel_require_covering_path_invalidation request response k = (Err e, k')
    \<Longrightarrow> pc_poisoned (ck_cache k')"
  by (auto simp: kernel_require_covering_path_invalidation_def split: option.splits if_splits)

lemma uncertain_poisons:
  "request_requires_path_invalidation (req_payload request) \<Longrightarrow>
    pc_poisoned (ck_cache (fa_cache (poison_cache_after_uncertain_path_mutation request a)))"
  by (simp add: poison_cache_after_uncertain_path_mutation_def poison_after_uncertain_path_mutation_def)

lemma accept_response_settles:
  assumes "request_requires_path_invalidation (req_payload request)"
  shows "settled (req_payload request) (fst (accept_response request response a))
    \<or> pc_poisoned (ck_cache (fa_cache (snd (accept_response request response a))))"
proof (cases "resp_ok response \<and> validate_identity_and_payload_for_request response request = Ok ()")
  case ok: True
  let ?is = "apply_response_invalidations (resp_invalidations response) a"
  have acc: "accept_response request response a =
    and_then (apply_response_invalidations (resp_invalidations response)) (\<lambda>_.
      and_then (require_covering_path_invalidation request response) (\<lambda>_. give (Ok response))) a"
    using ok by (simp add: accept_response_def)
  show ?thesis
  proof (cases ?is)
    case (Pair r a')
    show ?thesis
    proof (cases r)
      case (Inl e)
      then show ?thesis using acc Pair apply_response_error_poisons [of "resp_invalidations response" a e]
        by (simp add: and_then_def)
    next
      case (Inr u)
      obtain c k where c: "kernel_require_covering_path_invalidation request response (fa_cache a') = (c, k)"
        by fastforce
      show ?thesis
      proof (cases c)
        case (Inl e)
        with c acc Pair Inr cover_error [of request response] show ?thesis
          by (auto simp: and_then_def require_covering_path_invalidation_def Let_def)
      next
        case (Inr v)
        with c have "\<forall>k. kernel_require_covering_path_invalidation request response k = (Ok (), k)"
          using cover_ok by auto
        with ok acc Pair \<open>r = Ok u\<close> show ?thesis
          by (auto simp: and_then_def require_covering_path_invalidation_def settled_def give_def)
      qed
    qed
  qed
next
  case False
  with assms show ?thesis
    by (auto simp: accept_response_def Let_def settled_def uncertain_poisons split: sum.splits)
qed

text \<open>
  C8: a mutation never leaves the cache silently wrong. Unless the request was never
  sent, it either came back settled, as a valid success covered by the invalidations
  the mutation needs or as an error the server reported, or the cache is poisoned.
\<close>

theorem mutation_settled_or_poisoned:
  assumes "request_requires_path_invalidation payload"
  shows "case call_with_cache_policy rpc payload healthy False a of (result, a') \<Rightarrow>
    settled payload result \<or> pc_poisoned (ck_cache (fa_cache a'))
    \<or> (fa_client a' = fa_client a \<and> (\<exists>e. result = Err e))"
proof (cases "healthy \<and> pc_poisoned (ck_cache (lock_cache (fa_cache a)))")
  case True
  then show ?thesis by (simp add: policy_no_drain)
next
  case False
  let ?a = "admitted healthy a"
  let ?id = "''fuse-'' @ show_nat (unat (fa_next_request_id ?a))"
  have sent: "call_with_cache_policy rpc payload healthy False a = send_request rpc payload ?a"
    using False unfolding policy_no_drain by (rule if_not_P)
  show ?thesis
  proof (cases "RequestEnvelope_new ?id (fa_namespace ?a) 0 TraceContext_default payload")
    case (Inl e)
    then show ?thesis by (simp add: sent send_request_def)
  next
    case (Inr request)
    let ?request = "request\<lparr>req_caller := fa_caller ?a\<rparr>"
    have p: "req_payload ?request = payload"
      using Inr by (auto simp: RequestEnvelope_new_def ok_iffs Let_def)
    obtain r c where c: "rpc_call rpc ?request (fa_client ?a) = (r, c)" by fastforce
    show ?thesis
    proof (cases r)
      case (Inl e)
      with Inr c assms p show ?thesis
        by (simp add: sent send_request_def Let_def uncertain_poisons)
    next
      case r: (Inr response)
      have accepted: "call_with_cache_policy rpc payload healthy False a =
          accept_response ?request response
            (?a\<lparr>fa_next_request_id := fa_next_request_id ?a + 1, fa_client := c\<rparr>)"
        using Inr c r by (simp add: sent send_request_def Let_def)
      show ?thesis
        unfolding accepted case_prod_beta
        using accept_response_settles [of ?request response
          "?a\<lparr>fa_next_request_id := fa_next_request_id ?a + 1, fa_client := c\<rparr>"] assms p
        by auto
    qed
  qed
qed

definition sample_adapter :: "unit FuseAdapter" where
  "sample_adapter = FuseAdapter_new () ''n''"

definition sample_unlink_payload :: RequestPayload where
  "sample_unlink_payload = Req_Unlink \<lparr>unlink_path = Some \<lparr>dto_path = ''/a''\<rparr>\<rparr>"

theorem mutation_settled_or_poisoned_witness:
  "case call_with_cache_policy silent_client sample_unlink_payload True False sample_adapter of
    (result, a') \<Rightarrow> settled sample_unlink_payload result \<or> pc_poisoned (ck_cache (fa_cache a'))
      \<or> (fa_client a' = fa_client sample_adapter \<and> (\<exists>e. result = Err e))"
proof (rule mutation_settled_or_poisoned)
  show "request_requires_path_invalidation sample_unlink_payload" by code_simp
qed

section \<open>Releasing handles and copying ranges\<close>

text \<open>
  C20: a release that finds the path of its handle forgets the handle, whatever the
  state of the path cache and whether or not the server answers.
\<close>

theorem release_forgets_handle:
  assumes "fst (path_for_release (fa_cache a) inode handle) = Ok p" "path_dto p = Ok dto"
  shows "hm_get (ck_open_handles (fa_cache (snd (fuse_release rpc inode handle flags a))))
      \<lparr>ohk_inode = inode, ohk_handle = handle\<rparr> = None"
  using assms
  by (auto simp: fuse_release_def and_then_def with_kernel_def give_def update_kernel_def
      forget_handle_path_def Let_def split: prod.splits sum.splits ResponsePayload.splits)

theorem release_forgets_handle_witness:
  "hm_get (ck_open_handles (fa_cache (snd (fuse_release silent_client 2 7 0
      (sample_adapter\<lparr>fa_cache := sample_open_kernel\<rparr>)))))
    \<lparr>ohk_inode = 2, ohk_handle = 7\<rparr> = None"
proof (rule release_forgets_handle [where p = "''/a/x''" and dto = "\<lparr>dto_path = ''/a/x''\<rparr>"])
  show "fst (path_for_release (fa_cache (sample_adapter\<lparr>fa_cache := sample_open_kernel\<rparr>)) 2 7) = Ok ''/a/x''"
    by (simp add: path_for_release_def handle_bound_retained sample_open_kernel_def
        remember_handle_path_def lock_handles_def CacheKernel_new_def)
  show "path_dto ''/a/x'' = Ok \<lparr>dto_path = ''/a/x''\<rparr>" by code_simp
qed

lemma accept_response_ok:
  assumes "accept_response request response a = (Ok r, a')"
  shows "r = response \<and> validate_identity_and_payload_for_request response request = Ok ()"
  using assms by (auto simp: accept_response_def Let_def and_then_def give_def
      split: if_splits sum.splits prod.splits)

lemma call_ok:
  assumes "call_with_cache_policy rpc payload healthy False a = (Ok response, a')"
  shows "\<exists>request. req_payload request = payload
    \<and> validate_identity_and_payload_for_request response request = Ok ()"
proof -
  let ?a = "admitted healthy a"
  from assms have "send_request rpc payload ?a = (Ok response, a')"
    by (auto simp: policy_no_drain split: if_splits)
  then obtain request where n: "RequestEnvelope_new (''fuse-'' @ show_nat (unat (fa_next_request_id ?a)))
      (fa_namespace ?a) 0 TraceContext_default payload = Ok request"
    and v: "validate_identity_and_payload_for_request response (request\<lparr>req_caller := fa_caller ?a\<rparr>) = Ok ()"
    by (auto simp: send_request_def Let_def split: sum.splits prod.splits dest!: accept_response_ok)
  from n have "req_payload (request\<lparr>req_caller := fa_caller ?a\<rparr>) = payload"
    by (auto simp: RequestEnvelope_new_def ok_iffs Let_def)
  with v show ?thesis by blast
qed

lemma call_amount:
  assumes "call_with_cache_policy rpc payload healthy False a = (Ok response, a')"
    "resp_payload response = Some answer" "requested_amount payload = Some m"
  shows "response_amount answer \<le> m"
proof -
  obtain request where r: "req_payload request = payload"
    "validate_identity_and_payload_for_request response request = Ok ()"
    using call_ok [OF assms(1)] by blast
  from r(2) assms(2) have v: "validate_response_for_request answer payload = Ok ()"
    by (auto simp: validate_identity_and_payload_for_request_def ok_iffs r(1) split: if_splits)
  then have "response_operation answer = request_operation payload"
    by (simp add: validate_response_for_request_def split: if_splits)
  with v response_limit_ok [OF this] assms(3) show ?thesis
    by (simp add: validate_response_for_request_def ok_iffs)
qed

lemma and_then_Ok:
  "and_then m f a = (Ok y, a') \<longleftrightarrow> (\<exists>x a1. m a = (Ok x, a1) \<and> f x a1 = (Ok y, a'))"
  by (auto simp: and_then_def split: prod.splits sum.splits)

lemma copied_at_most:
  assumes "fuse_copy_file_range rpc i h off j g off' len flags a = (Ok n, a')"
  shows "n \<le> len"
proof -
  obtain dto dto' a1 a2 response payload where
    c: "call_with_cache_policy rpc (Req_CopyFileRange
         \<lparr>copyfilerange_input_path = Some dto, copyfilerange_input_handle = h,
          copyfilerange_input_offset = off, copyfilerange_output_path = Some dto',
          copyfilerange_output_handle = g, copyfilerange_output_offset = off',
          copyfilerange_length = len, copyfilerange_flags = flags\<rparr>) False False a1 = (Ok response, a2)"
    and t: "resp_payload response = Some payload"
    and p: "(case payload of Resp_CopyFileRange value \<Rightarrow> give (Ok (copyfilerange_resp_bytes_copied value))
        | _ \<Rightarrow> give (Err (UnexpectedPayload Op_CopyFileRange))) a2 = (Ok n, a')"
    using assms
    by (auto simp: fuse_copy_file_range_def and_then_Ok give_def call_handle_bound_def take_payload_def
        ok_or_def split: if_splits option.splits)
  from p obtain ans where v: "payload = Resp_CopyFileRange ans" "n = copyfilerange_resp_bytes_copied ans"
    by (cases payload) (simp_all add: give_def)
  from call_amount [OF c t] v show ?thesis by (simp add: word_le_nat_alt)
qed

text \<open>
  C21: clamping the length of a copy to what a 32-bit reply can hold is enough: a
  copy that succeeds reports its exact byte count, at most the length asked for,
  and the error for a reply that is too large is never the outcome of a success.
\<close>

theorem copy_reply_exact:
  "case fuse_copy_file_range rpc i h off j g off' (min len MAX_REPLY_WRITE_BYTES) flags a of
     (Ok n, a') \<Rightarrow> \<exists>w. fuse_copy_file_range_for_reply_write rpc i h off j g off' len flags a
         = (Ok \<lparr>fw_bytes_written = w\<rparr>, a') \<and> unat w = unat n \<and> n \<le> len
   | (Err e, a') \<Rightarrow> fuse_copy_file_range_for_reply_write rpc i h off j g off' len flags a = (Err e, a')"
proof -
  let ?m = "min len MAX_REPLY_WRITE_BYTES"
  obtain r a' where c: "fuse_copy_file_range rpc i h off j g off' ?m flags a = (r, a')" by fastforce
  show ?thesis
  proof (cases r)
    case (Inl e)
    with c show ?thesis by (simp add: fuse_copy_file_range_for_reply_write_def and_then_def)
  next
    case (Inr n)
    with c have n: "n \<le> ?m" using copied_at_most by blast
    then have "unat n \<le> unat (0xFFFFFFFF :: u64)"
      unfolding word_le_nat_alt [symmetric] by (simp add: MAX_REPLY_WRITE_BYTES_def)
    then have "unat n < 2 ^ 32" by simp
    moreover from this have "unat (ucast n :: u32) = unat n" by (simp add: unsigned_ucast_eq take_bit_nat_eq_self)
    ultimately show ?thesis using c Inr n
      by (simp add: fuse_copy_file_range_for_reply_write_def and_then_def give_def)
  qed
qed

end
