(* ===== verification/ServerLocks.thy ===== *)
theory ServerLocks
  imports FabricPrelude "HOL-Library.Product_Lexorder"
begin

text \<open>
  The advisory locks of the server, \<open>fabricfs-server/src/server/locks.rs\<close>: byte-range
  locks with POSIX semantics and whole-file locks with flock semantics, both kept in
  memory per inode. The lemmas read a table of ranges as the holders of every single
  byte, on which the operations have a simple meaning.
\<close>

section \<open>Constants of the C library\<close>

definition F_RDLCK :: i32 where "F_RDLCK = 0"
definition F_WRLCK :: i32 where "F_WRLCK = 1"
definition F_UNLCK :: i32 where "F_UNLCK = 2"
definition LOCK_SH :: i32 where "LOCK_SH = 1"
definition LOCK_EX :: i32 where "LOCK_EX = 2"
definition LOCK_NB :: i32 where "LOCK_NB = 4"
definition LOCK_UN :: i32 where "LOCK_UN = 8"
definition EAGAIN :: i32 where "EAGAIN = 11"
definition EINVAL :: i32 where "EINVAL = 22"
definition EOPNOTSUPP :: i32 where "EOPNOTSUPP = 95"

lemmas lock_consts = F_RDLCK_def F_WRLCK_def F_UNLCK_def LOCK_SH_def LOCK_EX_def LOCK_NB_def
  LOCK_UN_def EAGAIN_def EINVAL_def EOPNOTSUPP_def

section \<open>Locks\<close>

record ServerFileLock =
  sfl_start :: u64
  sfl_end :: u64
  sfl_typ :: i32
  sfl_pid :: u32

record BackendLock =
  bl_handle :: u64
  bl_owner :: u64
  bl_start :: u64
  bl_end :: u64
  bl_typ :: i32
  bl_pid :: u32

record BackendFlock =
  bf_handle :: u64
  bf_owner :: u64
  bf_typ :: i32

type_synonym LockTable = "(string, BackendLock list) hash_map"
type_synonym FlockTable = "(string, BackendFlock list) hash_map"

definition ranges_overlap :: "u64 \<Rightarrow> u64 \<Rightarrow> u64 \<Rightarrow> u64 \<Rightarrow> bool" where
  "ranges_overlap left_start left_end right_start right_end \<longleftrightarrow>
    left_start \<le> right_end \<and> right_start \<le> left_end"

definition lock_conflicts :: "BackendLock \<Rightarrow> u64 \<Rightarrow> u64 \<Rightarrow> u64 \<Rightarrow> i32 \<Rightarrow> bool" where
  "lock_conflicts lock requester_owner start stop typ \<longleftrightarrow>
    bl_owner lock \<noteq> requester_owner
    \<and> ranges_overlap (bl_start lock) (bl_end lock) start stop
    \<and> (bl_typ lock = F_WRLCK \<or> typ = F_WRLCK)"

definition flock_conflicts :: "BackendFlock \<Rightarrow> u64 \<Rightarrow> i32 \<Rightarrow> bool" where
  "flock_conflicts lock requester_owner typ \<longleftrightarrow>
    bf_owner lock \<noteq> requester_owner \<and> (bf_typ lock = LOCK_EX \<or> typ = LOCK_EX)"

definition lock_required_access :: "i32 \<Rightarrow> i32 + u32" where
  "lock_required_access typ =
    (if typ = F_RDLCK then Ok 4 else if typ = F_WRLCK then Ok 2
     else if typ = F_UNLCK then Ok 0 else Err EINVAL)"

definition validate_lock_request :: "u64 \<Rightarrow> u64 \<Rightarrow> i32 \<Rightarrow> i32 + unit" where
  "validate_lock_request start stop typ =
    (if start > stop then Err EINVAL else try_bind (lock_required_access typ) (\<lambda>_. Ok ()))"

definition server_flock_operation :: "i32 \<Rightarrow> i32 + i32" where
  "server_flock_operation operation =
    (let value = operation AND NOT LOCK_NB
     in if value = LOCK_SH then Ok LOCK_SH else if value = LOCK_EX then Ok LOCK_EX
        else if value = LOCK_UN then Ok LOCK_UN else Err EINVAL)"

text \<open>The key of an open file: the device and the inode number of its metadata.\<close>

definition lock_key_for_file :: "u64 \<Rightarrow> u64 \<Rightarrow> string" where
  "lock_key_for_file dev ino = show_nat (unat dev) @ '':'' @ show_nat (unat ino)"

definition descendant_suffix :: "string \<Rightarrow> string \<Rightarrow> string option" where
  "descendant_suffix p ancestor =
    (if p = ancestor then Some []
     else if ancestor = ''/'' then (if starts_with_char (CHR ''/'') p then Some p else None)
     else case str_strip_prefix p ancestor of
       None \<Rightarrow> None
     | Some rest \<Rightarrow> if starts_with_char (CHR ''/'') rest then Some rest else None)"

section \<open>Byte-range locks\<close>

definition merge_key :: "BackendLock \<Rightarrow> u64 \<times> i32 \<times> u32 \<times> u64 \<times> u64" where
  "merge_key lock = (bl_owner lock, bl_typ lock, bl_pid lock, bl_handle lock, bl_start lock)"

definition merge_lock :: "BackendLock \<Rightarrow> BackendLock list \<Rightarrow> BackendLock list" where
  "merge_lock lock merged =
    (if merged = [] then [lock]
     else
       (let prev = last merged;
            adjacent = (bl_end prev = - 1 \<or> saturating_add (bl_end prev) 1 \<ge> bl_start lock)
        in if bl_owner prev = bl_owner lock \<and> bl_typ prev = bl_typ lock
              \<and> bl_pid prev = bl_pid lock \<and> bl_handle prev = bl_handle lock \<and> adjacent
           then butlast merged @ [prev\<lparr>bl_end := max (bl_end prev) (bl_end lock)\<rparr>]
           else merged @ [lock]))"

definition merge_path_locks :: "BackendLock list \<Rightarrow> BackendLock list" where
  "merge_path_locks locks = fold merge_lock (sort_key merge_key locks) []"

definition unlock_lock :: "u64 \<Rightarrow> u64 \<Rightarrow> u64 \<Rightarrow> BackendLock \<Rightarrow> BackendLock list" where
  "unlock_lock owner start stop lock =
    (if bl_owner lock \<noteq> owner \<or> \<not> ranges_overlap (bl_start lock) (bl_end lock) start stop
     then [lock]
     else (if bl_start lock < start then [lock\<lparr>bl_end := start - 1\<rparr>] else [])
        @ (if bl_end lock > stop then [lock\<lparr>bl_start := stop + 1\<rparr>] else []))"

definition unlock_owned_range :: "string \<Rightarrow> u64 \<Rightarrow> u64 \<Rightarrow> u64 \<Rightarrow> LockTable \<Rightarrow> LockTable" where
  "unlock_owned_range key owner start stop by_key =
    (case hm_get by_key key of
       None \<Rightarrow> by_key
     | Some locks \<Rightarrow>
        (let locks = merge_path_locks (concat (map (unlock_lock owner start stop) locks))
         in if locks = [] then hm_remove key by_key else hm_insert key locks by_key))"

definition getlk :: "string \<Rightarrow> u64 \<Rightarrow> u64 \<Rightarrow> u64 \<Rightarrow> i32 \<Rightarrow> LockTable \<Rightarrow> i32 + ServerFileLock option" where
  "getlk key owner start stop typ by_key =
    try_seq (validate_lock_request start stop typ)
    (if typ = F_UNLCK then Ok None
     else Ok (Option.bind (hm_get by_key key) (\<lambda>locks.
       map_option (\<lambda>lock. \<lparr>sfl_start = bl_start lock, sfl_end = bl_end lock, sfl_typ = bl_typ lock,
           sfl_pid = bl_pid lock\<rparr>)
         (find (\<lambda>lock. lock_conflicts lock owner start stop typ) locks))))"

definition setlk :: "string \<Rightarrow> u64 \<Rightarrow> u64 \<Rightarrow> u64 \<Rightarrow> u64 \<Rightarrow> i32 \<Rightarrow> u32 \<Rightarrow> LockTable
    \<Rightarrow> (i32 + unit) \<times> LockTable" where
  "setlk key handle owner start stop typ pid by_key =
    (case validate_lock_request start stop typ of
       Err e \<Rightarrow> (Err e, by_key)
     | Ok _ \<Rightarrow>
        (if typ = F_UNLCK then (Ok (), unlock_owned_range key owner start stop by_key)
         else if (case hm_get by_key key of None \<Rightarrow> False
             | Some locks \<Rightarrow> list_ex (\<lambda>lock. lock_conflicts lock owner start stop typ) locks)
         then (Err EAGAIN, by_key)
         else
           (let by_key = unlock_owned_range key owner start stop by_key;
                locks = (case hm_get by_key key of None \<Rightarrow> [] | Some locks \<Rightarrow> locks);
                lock = \<lparr>bl_handle = handle, bl_owner = owner, bl_start = start, bl_end = stop,
                  bl_typ = typ, bl_pid = pid\<rparr>
            in (Ok (), hm_insert key (merge_path_locks (locks @ [lock])) by_key))))"

definition locks_release_handle :: "u64 \<Rightarrow> LockTable \<Rightarrow> LockTable" where
  "locks_release_handle handle by_key =
    hm_retain (\<lambda>_ locks. locks \<noteq> [])
      (map (\<lambda>(key, locks). (key, filter (\<lambda>lock. bl_handle lock \<noteq> handle) locks)) by_key)"

definition locks_release_owner :: "string \<Rightarrow> u64 \<Rightarrow> LockTable \<Rightarrow> LockTable" where
  "locks_release_owner key owner by_key =
    (case hm_get by_key key of
       None \<Rightarrow> by_key
     | Some locks \<Rightarrow>
        (let locks = filter (\<lambda>lock. bl_owner lock \<noteq> owner) locks
         in if locks = [] then hm_remove key by_key else hm_insert key locks by_key))"

text \<open>One key of a renamed subtree, the body of the loop shared by both tables.\<close>

definition move_key :: "string \<Rightarrow> string \<Rightarrow> string \<Rightarrow> (string, 'l list) hash_map
    \<Rightarrow> (string, 'l list) hash_map" where
  "move_key old_path new_path key by_key =
    (case descendant_suffix key old_path of
       None \<Rightarrow> by_key
     | Some rest \<Rightarrow>
        (case hm_get by_key key of
           None \<Rightarrow> by_key
         | Some moved \<Rightarrow>
            (let by_key = hm_remove key by_key;
                 new_key = new_path @ rest
             in hm_insert new_key
                  ((case hm_get by_key new_key of None \<Rightarrow> [] | Some locks \<Rightarrow> locks) @ moved)
                  by_key)))"

definition locks_rename_path :: "string \<Rightarrow> string \<Rightarrow> LockTable \<Rightarrow> LockTable" where
  "locks_rename_path old_path new_path by_key =
    map (\<lambda>(key, locks). (key, merge_path_locks locks))
      (fold (move_key old_path new_path) (hm_keys by_key) by_key)"

section \<open>Whole-file locks\<close>

definition unlock_owned :: "string \<Rightarrow> u64 \<Rightarrow> FlockTable \<Rightarrow> FlockTable" where
  "unlock_owned key owner by_key =
    (case hm_get by_key key of
       None \<Rightarrow> by_key
     | Some locks \<Rightarrow>
        (let locks = filter (\<lambda>lock. bf_owner lock \<noteq> owner) locks
         in if locks = [] then hm_remove key by_key else hm_insert key locks by_key))"

definition flock :: "string \<Rightarrow> u64 \<Rightarrow> u64 \<Rightarrow> i32 \<Rightarrow> FlockTable \<Rightarrow> (i32 + unit) \<times> FlockTable" where
  "flock key handle owner operation by_key =
    (case server_flock_operation operation of
       Err e \<Rightarrow> (Err e, by_key)
     | Ok typ \<Rightarrow>
        (let nonblocking = operation AND LOCK_NB \<noteq> 0
         in if typ = LOCK_UN then (Ok (), unlock_owned key owner by_key)
            else if (case hm_get by_key key of None \<Rightarrow> False
                | Some locks \<Rightarrow> list_ex (\<lambda>lock. flock_conflicts lock owner typ) locks)
            then (Err (if nonblocking then EAGAIN else EOPNOTSUPP), by_key)
            else
              (let by_key = unlock_owned key owner by_key;
                   locks = (case hm_get by_key key of None \<Rightarrow> [] | Some locks \<Rightarrow> locks)
               in (Ok (), hm_insert key
                    (locks @ [\<lparr>bf_handle = handle, bf_owner = owner, bf_typ = typ\<rparr>]) by_key))))"

definition flock_release_handle :: "u64 \<Rightarrow> FlockTable \<Rightarrow> FlockTable" where
  "flock_release_handle handle by_key =
    hm_retain (\<lambda>_ locks. locks \<noteq> [])
      (map (\<lambda>(key, locks). (key, filter (\<lambda>lock. bf_handle lock \<noteq> handle) locks)) by_key)"

definition flock_rename_path :: "string \<Rightarrow> string \<Rightarrow> FlockTable \<Rightarrow> FlockTable" where
  "flock_rename_path old_path new_path by_key =
    fold (move_key old_path new_path) (hm_keys by_key) by_key"

section \<open>The holders of a byte\<close>

type_synonym holder = "u64 \<times> i32 \<times> u32 \<times> u64"

definition lock_holder :: "BackendLock \<Rightarrow> holder" where
  "lock_holder lock = (bl_owner lock, bl_typ lock, bl_pid lock, bl_handle lock)"

definition covers :: "BackendLock \<Rightarrow> u64 \<Rightarrow> bool" where
  "covers lock b \<longleftrightarrow> bl_start lock \<le> b \<and> b \<le> bl_end lock"

definition holders :: "BackendLock list \<Rightarrow> u64 \<Rightarrow> holder set" where
  "holders locks b = lock_holder ` {lock \<in> set locks. covers lock b}"

lemma holders_simps [simp]:
  "holders [] b = {}"
  "holders (locks @ locks') b = holders locks b \<union> holders locks' b"
  "holders (lock # locks) b = (if covers lock b then insert (lock_holder lock) (holders locks b)
    else holders locks b)"
  by (auto simp: holders_def)

lemma holders_concat: "holders (concat lss) b = (\<Union>ls \<in> set lss. holders ls b)"
  by (induction lss) auto

lemma holders_filter: "holders (filter P locks) b = lock_holder ` {lock \<in> set locks. P lock \<and> covers lock b}"
  by (auto simp: holders_def)

lemma holders_set: "set locks = set locks' \<Longrightarrow> holders locks b = holders locks' b"
  by (simp add: holders_def)

definition range_wf :: "BackendLock list \<Rightarrow> bool" where
  "range_wf locks \<longleftrightarrow> (\<forall>lock \<in> set locks. bl_start lock \<le> bl_end lock)"

lemma range_wf_simps [simp]:
  "range_wf []" "range_wf (lock # locks) \<longleftrightarrow> bl_start lock \<le> bl_end lock \<and> range_wf locks"
  "range_wf (locks @ locks') \<longleftrightarrow> range_wf locks \<and> range_wf locks'"
  by (auto simp: range_wf_def)

section \<open>Merging and splitting ranges\<close>

lemma adjacent_iff:
  "(e = - 1 \<or> saturating_add e 1 \<ge> s) \<longleftrightarrow> unat s \<le> Suc (unat (e :: u64))"
proof -
  have "e = - 1 \<longleftrightarrow> unat e = 2 ^ 64 - 1"
    by (metis unat_max_word word_unat_eq_iff)
  then show ?thesis
    using unat_u64_bound [of s] unat_u64_bound [of e]
    by (auto simp: word_le_nat_alt unat_saturating_add)
qed

lemma merged_covers:
  assumes "bl_start prev \<le> bl_start lock" "unat (bl_start lock) \<le> Suc (unat (bl_end prev))"
  shows "covers (prev\<lparr>bl_end := max (bl_end prev) (bl_end lock)\<rparr>) b \<longleftrightarrow> covers prev b \<or> covers lock b"
  using assms by (auto simp: covers_def word_le_nat_alt max_def)

lemma merge_lock_holders:
  assumes "merged \<noteq> [] \<Longrightarrow> merge_key (last merged) \<le> merge_key lock"
  shows "holders (merge_lock lock merged) b = holders (merged @ [lock]) b"
proof (cases "merged = []")
  case True
  then show ?thesis by (simp add: merge_lock_def)
next
  case False
  let ?prev = "last merged"
  have split: "merged = butlast merged @ [?prev]" using False by simp
  show ?thesis
  proof (cases "bl_owner ?prev = bl_owner lock \<and> bl_typ ?prev = bl_typ lock
      \<and> bl_pid ?prev = bl_pid lock \<and> bl_handle ?prev = bl_handle lock
      \<and> unat (bl_start lock) \<le> Suc (unat (bl_end ?prev))")
    case True
    then have "merge_lock lock merged
        = butlast merged @ [?prev\<lparr>bl_end := max (bl_end ?prev) (bl_end lock)\<rparr>]"
      using False by (simp add: merge_lock_def adjacent_iff Let_def)
    moreover have "bl_start ?prev \<le> bl_start lock"
      using assms [OF False] True by (simp add: merge_key_def)
    moreover have "lock_holder (?prev\<lparr>bl_end := max (bl_end ?prev) (bl_end lock)\<rparr>) = lock_holder ?prev"
      "lock_holder ?prev = lock_holder lock" using True by (simp_all add: lock_holder_def)
    ultimately show ?thesis
      using merged_covers [of ?prev lock b] True by (subst (2) split) (auto simp del: append_butlast_last_id)
  next
    case no: False
    then have "merge_lock lock merged = merged @ [lock]"
      using False unfolding merge_lock_def Let_def adjacent_iff by auto
    then show ?thesis by simp
  qed
qed

lemma merge_lock_last: "merge_key (last (merge_lock lock merged)) \<le> merge_key lock
    \<or> (merged \<noteq> [] \<and> merge_key (last (merge_lock lock merged)) = merge_key (last merged))"
  by (auto simp: merge_lock_def Let_def merge_key_def)

lemma merge_lock_Cons: "merge_lock lock merged \<noteq> []"
  by (simp add: merge_lock_def Let_def)

lemma merge_fold_holders:
  assumes "sorted (map merge_key locks)"
    "\<And>lock. merged \<noteq> [] \<Longrightarrow> lock \<in> set locks \<Longrightarrow> merge_key (last merged) \<le> merge_key lock"
  shows "holders (fold merge_lock locks merged) b = holders (merged @ locks) b"
  using assms
proof (induction locks arbitrary: merged)
  case (Cons lock locks)
  have "merge_key (last (merge_lock lock merged)) \<le> merge_key l" if "l \<in> set locks" for l
    using Cons.prems that merge_lock_last [of lock merged] by (auto intro: order_trans)
  with Cons have "holders (fold merge_lock locks (merge_lock lock merged)) b
      = holders (merge_lock lock merged @ locks) b" by simp
  also have "\<dots> = holders (merged @ lock # locks) b"
    using Cons.prems merge_lock_holders [of merged lock b] by simp
  finally show ?case by simp
qed simp

lemma merge_path_locks_holders [simp]: "holders (merge_path_locks locks) b = holders locks b"
  unfolding merge_path_locks_def
  by (subst merge_fold_holders) (simp_all add: holders_set [of "sort_key merge_key locks" locks])

lemma merge_lock_wf: "range_wf merged \<Longrightarrow> bl_start lock \<le> bl_end lock \<Longrightarrow> range_wf (merge_lock lock merged)"
  by (auto simp: merge_lock_def Let_def range_wf_def max_def dest: in_set_butlastD
      intro: order_trans split: if_splits)

lemma merge_fold_wf: "range_wf merged \<Longrightarrow> range_wf locks \<Longrightarrow> range_wf (fold merge_lock locks merged)"
  by (induction locks arbitrary: merged) (simp_all add: merge_lock_wf)

lemma merge_path_locks_wf: "range_wf locks \<Longrightarrow> range_wf (merge_path_locks locks)"
  unfolding merge_path_locks_def by (rule merge_fold_wf) (simp_all add: range_wf_def)

lemma merge_fold_Nil: "fold merge_lock locks merged = [] \<longleftrightarrow> merged = [] \<and> locks = []"
  by (induction locks arbitrary: merged) (auto simp: merge_lock_Cons)

lemma merge_path_locks_Nil [simp]: "merge_path_locks locks = [] \<longleftrightarrow> locks = []"
  unfolding merge_path_locks_def merge_fold_Nil by (metis length_0_conv length_sort)

lemma below_pred: "x < start \<Longrightarrow> b \<le> start - 1 \<longleftrightarrow> b < (start :: u64)"
proof -
  assume "x < start"
  then have "start \<noteq> 0" by auto
  then have "unat (start - 1) = unat start - 1" "0 < unat start"
    by (simp_all add: unat_minus_one unat_gt_0)
  then show ?thesis by (auto simp: word_le_nat_alt word_less_nat_alt)
qed

lemma above_succ: "stop < x \<Longrightarrow> stop + 1 \<le> b \<longleftrightarrow> (stop :: u64) < b"
proof -
  assume "stop < x"
  then have "stop \<noteq> - 1" by (metis word_order.extremum_strict)
  then have "unat (stop + 1) = Suc (unat stop)" by (rule unat_Suc_word)
  then show ?thesis by (auto simp: word_le_nat_alt word_less_nat_alt)
qed

lemma unlock_lock_holders:
  "holders (unlock_lock owner start stop lock) b =
    (if bl_owner lock = owner \<and> start \<le> b \<and> b \<le> stop then {} else holders [lock] b)"
proof (cases "bl_owner lock = owner \<and> ranges_overlap (bl_start lock) (bl_end lock) start stop")
  case False
  then show ?thesis by (auto simp: unlock_lock_def covers_def ranges_overlap_def)
next
  case True
  have h: "lock_holder (lock\<lparr>bl_end := e\<rparr>) = lock_holder lock"
    "lock_holder (lock\<lparr>bl_start := e\<rparr>) = lock_holder lock" for e
    by (simp_all add: lock_holder_def)
  from True show ?thesis
    by (auto simp: unlock_lock_def covers_def ranges_overlap_def h below_pred above_succ)
qed

lemma unlock_lock_wf:
  assumes "range_wf [lock]"
  shows "range_wf (unlock_lock owner start stop lock)"
  using assms by (auto simp: unlock_lock_def range_wf_def below_pred above_succ ranges_overlap_def)

text \<open>Unlocking a range takes its owner off every byte of it.\<close>

abbreviation unlocked :: "u64 \<Rightarrow> u64 \<Rightarrow> u64 \<Rightarrow> u64 \<Rightarrow> holder set \<Rightarrow> holder set" where
  "unlocked owner start stop b hs \<equiv> {h \<in> hs. \<not> (fst h = owner \<and> start \<le> b \<and> b \<le> stop)}"

lemma unlock_locks_holders:
  "holders (concat (map (unlock_lock owner start stop) locks)) b = unlocked owner start stop b (holders locks b)"
proof -
  have own: "fst (lock_holder lock) = bl_owner lock" for lock by (simp add: lock_holder_def)
  show ?thesis
    unfolding holders_concat by (simp add: unlock_lock_holders) (auto simp: holders_def own)
qed

lemma unlock_locks_wf: "range_wf locks \<Longrightarrow> range_wf (concat (map (unlock_lock owner start stop) locks))"
proof -
  assume w: "range_wf locks"
  have "range_wf (unlock_lock owner start stop lock)" if "lock \<in> set locks" for lock
    using w that by (intro unlock_lock_wf) (simp add: range_wf_def)
  then show ?thesis by (auto simp: range_wf_def)
qed

section \<open>Tables\<close>

definition locks_at :: "(string, 'l list) hash_map \<Rightarrow> string \<Rightarrow> 'l list" where
  "locks_at T key = (case hm_get T key of None \<Rightarrow> [] | Some locks \<Rightarrow> locks)"

definition table_wf :: "LockTable \<Rightarrow> bool" where
  "table_wf T \<longleftrightarrow> hm_wf T \<and> (\<forall>key locks. hm_get T key = Some locks \<longrightarrow> locks \<noteq> [] \<and> range_wf locks)"

lemma locks_at_simps [simp]:
  "locks_at (hm_insert key locks T) k = (if k = key then locks else locks_at T k)"
  "locks_at (hm_remove key T) k = (if k = key then [] else locks_at T k)"
  "locks_at [] k = []"
  by (simp_all add: locks_at_def)

lemma table_wf_at: "table_wf T \<Longrightarrow> range_wf (locks_at T key)"
  by (cases "hm_get T key") (auto simp: table_wf_def locks_at_def)

lemma table_wf_put:
  assumes "table_wf T" "range_wf locks"
  shows "table_wf (if locks = [] then hm_remove key T else hm_insert key locks T)"
  using assms by (auto simp: table_wf_def split: if_splits)

lemma unlock_owned_range_at:
  "locks_at (unlock_owned_range key owner start stop T) k =
    (if k = key then merge_path_locks (concat (map (unlock_lock owner start stop) (locks_at T key)))
     else locks_at T k)"
  by (auto simp: unlock_owned_range_def Let_def locks_at_def [of T key] locks_at_def [of T k]
      merge_path_locks_def [of "[]"] simp del: merge_path_locks_Nil split: option.splits)

lemma unlock_owned_range_wf:
  assumes "table_wf T"
  shows "table_wf (unlock_owned_range key owner start stop T)"
proof (cases "hm_get T key")
  case None
  with assms show ?thesis by (simp add: unlock_owned_range_def)
next
  case (Some locks)
  then have "range_wf locks" using table_wf_at [OF assms, of key] by (simp add: locks_at_def)
  from table_wf_put [OF assms merge_path_locks_wf [OF unlock_locks_wf [OF this]], of owner start stop key]
  show ?thesis by (simp add: unlock_owned_range_def Let_def Some)
qed

lemma unlock_owned_range_holders:
  "holders (locks_at (unlock_owned_range key owner start stop T) k) b =
    (if k = key then unlocked owner start stop b (holders (locks_at T k) b) else holders (locks_at T k) b)"
  by (simp add: unlock_owned_range_at unlock_locks_holders)

text \<open>A request conflicts with a byte of its range that another owner holds.\<close>

definition blocked :: "(u64 \<Rightarrow> holder set) \<Rightarrow> u64 \<Rightarrow> u64 \<Rightarrow> u64 \<Rightarrow> i32 \<Rightarrow> bool" where
  "blocked H owner start stop ty \<longleftrightarrow>
    (\<exists>b h. start \<le> b \<and> b \<le> stop \<and> h \<in> H b \<and> fst h \<noteq> owner
      \<and> (fst (snd h) = F_WRLCK \<or> ty = F_WRLCK))"

lemma overlap_byte:
  assumes "s \<le> e" "s' \<le> e'"
  shows "ranges_overlap s e s' e' \<longleftrightarrow> (\<exists>b. s \<le> b \<and> b \<le> e \<and> s' \<le> b \<and> b \<le> (e' :: u64))"
proof
  assume "ranges_overlap s e s' e'"
  with assms have "s \<le> max s s' \<and> max s s' \<le> e \<and> s' \<le> max s s' \<and> max s s' \<le> e'"
    by (auto simp: ranges_overlap_def max_def)
  then show "\<exists>b. s \<le> b \<and> b \<le> e \<and> s' \<le> b \<and> b \<le> e'" by blast
next
  assume "\<exists>b. s \<le> b \<and> b \<le> e \<and> s' \<le> b \<and> b \<le> e'"
  then show "ranges_overlap s e s' e'" unfolding ranges_overlap_def by (meson order_trans)
qed

lemma conflicts_blocked:
  assumes "range_wf locks" "start \<le> stop"
  shows "(\<exists>lock \<in> set locks. lock_conflicts lock owner start stop ty)
    \<longleftrightarrow> blocked (holders locks) owner start stop ty"
proof -
  have "lock_conflicts lock owner start stop ty \<longleftrightarrow>
      (\<exists>b. start \<le> b \<and> b \<le> stop \<and> covers lock b) \<and> bl_owner lock \<noteq> owner
        \<and> (bl_typ lock = F_WRLCK \<or> ty = F_WRLCK)" if "lock \<in> set locks" for lock
    using assms that overlap_byte [of "bl_start lock" "bl_end lock" start stop]
    by (auto simp: lock_conflicts_def range_wf_def covers_def)
  then show ?thesis by (auto simp: blocked_def holders_def lock_holder_def)
qed

lemma conflict_at:
  "(case hm_get T key of None \<Rightarrow> False | Some locks \<Rightarrow> list_ex P locks) \<longleftrightarrow> (\<exists>lock \<in> set (locks_at T key). P lock)"
  by (auto simp: locks_at_def list_ex_iff split: option.splits)

lemma validate_lock_request_cases:
  "validate_lock_request start stop ty =
    (if start \<le> stop \<and> (ty = F_RDLCK \<or> ty = F_WRLCK \<or> ty = F_UNLCK) then Ok () else Err EINVAL)"
  by (auto simp: validate_lock_request_def lock_required_access_def not_le)

lemma setlk_spec:
  assumes "table_wf T"
  shows "case setlk key handle owner start stop ty pid T of (result, T') \<Rightarrow>
    table_wf T'
    \<and> (if stop < start \<or> ty \<notin> {F_RDLCK, F_WRLCK, F_UNLCK} then result = Err EINVAL \<and> T' = T
       else if ty \<noteq> F_UNLCK \<and> blocked (holders (locks_at T key)) owner start stop ty
       then result = Err EAGAIN \<and> T' = T
       else result = Ok () \<and> (\<forall>k b. holders (locks_at T' k) b =
        (if k = key \<and> start \<le> b \<and> b \<le> stop
         then {h \<in> holders (locks_at T k) b. fst h \<noteq> owner}
           \<union> (if ty = F_UNLCK then {} else {(owner, ty, pid, handle)})
         else holders (locks_at T k) b)))"
proof -
  let ?ok = "start \<le> stop \<and> (ty = F_RDLCK \<or> ty = F_WRLCK \<or> ty = F_UNLCK)"
  let ?U = "unlock_owned_range key owner start stop T"
  let ?lock = "\<lparr>bl_handle = handle, bl_owner = owner, bl_start = start, bl_end = stop,
    bl_typ = ty, bl_pid = pid\<rparr>"
  have w: "table_wf ?U" by (rule unlock_owned_range_wf [OF assms])
  consider (invalid) "\<not> ?ok" | (unlock) "?ok" "ty = F_UNLCK"
    | (refused) "?ok" "ty \<noteq> F_UNLCK" "blocked (holders (locks_at T key)) owner start stop ty"
    | (granted) "?ok" "ty \<noteq> F_UNLCK" "\<not> blocked (holders (locks_at T key)) owner start stop ty"
    by blast
  then show ?thesis
  proof cases
    case invalid
    with assms show ?thesis by (auto simp: setlk_def validate_lock_request_cases not_le)
  next
    case unlock
    then have "setlk key handle owner start stop ty pid T = (Ok (), ?U)"
      by (simp add: setlk_def validate_lock_request_cases)
    with unlock w show ?thesis
      by (auto simp: not_less unlock_owned_range_holders)
  next
    case refused
    then have "setlk key handle owner start stop ty pid T = (Err EAGAIN, T)"
      using conflicts_blocked [OF table_wf_at [OF assms, of key], of start stop owner ty]
      by (simp add: setlk_def validate_lock_request_cases conflict_at)
    with refused assms show ?thesis by (auto simp: not_less)
  next
    case granted
    then have s: "setlk key handle owner start stop ty pid T =
        (Ok (), hm_insert key (merge_path_locks (locks_at ?U key @ [?lock])) ?U)"
      using conflicts_blocked [OF table_wf_at [OF assms, of key], of start stop owner ty]
      by (simp add: setlk_def validate_lock_request_cases conflict_at Let_def locks_at_def [of ?U])
    have "table_wf (hm_insert key (merge_path_locks (locks_at ?U key @ [?lock])) ?U)"
      using table_wf_put [OF w, of "merge_path_locks (locks_at ?U key @ [?lock])" key]
        merge_path_locks_wf [of "locks_at ?U key @ [?lock]"] table_wf_at [OF w, of key] granted
      by simp
    with granted show ?thesis
      by (auto simp: s not_less unlock_owned_range_holders covers_def lock_holder_def)
  qed
qed

text \<open>
  C25: setting a byte-range lock means exactly what it should for every byte of every
  file. A malformed request is refused; a lock that another owner's lock on some byte
  forbids is refused and changes nothing; otherwise the owner's old locks on the range
  give way, byte by byte, to the new lock, or to none for an unlock, and no byte
  outside the range and no other file is touched.
\<close>

theorem setlk_per_byte:
  assumes "table_wf T"
  shows "case setlk key handle owner start stop ty pid T of (result, T') \<Rightarrow>
    table_wf T'
    \<and> (if stop < start \<or> ty \<notin> {F_RDLCK, F_WRLCK, F_UNLCK} then result = Err EINVAL \<and> T' = T
       else if ty \<noteq> F_UNLCK \<and> blocked (holders (locks_at T key)) owner start stop ty
       then result = Err EAGAIN \<and> T' = T
       else result = Ok () \<and> (\<forall>k b. holders (locks_at T' k) b =
        (if k = key \<and> start \<le> b \<and> b \<le> stop
         then {h \<in> holders (locks_at T k) b. fst h \<noteq> owner}
           \<union> (if ty = F_UNLCK then {} else {(owner, ty, pid, handle)})
         else holders (locks_at T k) b)))"
  by (rule setlk_spec [OF assms])

lemma table_wf_Nil [simp]: "table_wf []"
  by (simp add: table_wf_def)

theorem setlk_per_byte_witness:
  "holders (locks_at (snd (setlk ''1:2'' 7 1 10 20 F_WRLCK 4 [])) ''1:2'') 15 = {(1, F_WRLCK, 4, 7)}"
proof -
  have "blocked (holders (locks_at [] ''1:2'')) 1 10 20 F_WRLCK = False" by (simp add: blocked_def)
  moreover have "F_WRLCK \<noteq> F_UNLCK" by (simp add: lock_consts)
  ultimately show ?thesis
    using setlk_per_byte [OF table_wf_Nil, where key = "''1:2''" and handle = 7 and owner = 1
      and start = 10 and stop = 20 and ty = F_WRLCK and pid = 4]
    by (simp add: case_prod_beta)
qed

section \<open>Queries predict requests\<close>

text \<open>
  C28: a query reports no conflicting lock exactly when the same request would be
  granted at that moment.
\<close>

theorem getlk_predicts_setlk:
  "getlk key owner start stop ty T = Ok None
    \<longleftrightarrow> fst (setlk key handle owner start stop ty pid T) = Ok ()"
  by (auto simp: getlk_def setlk_def validate_lock_request_cases find_None_iff list_ex_iff Let_def
      simp del: not_None_eq split: option.splits)

section \<open>Exclusion\<close>

text \<open>
  Two owners on one byte both read; an owner has at most one lock on a byte. The keys
  are those of inodes, never paths.
\<close>

definition exclusive :: "(u64 \<Rightarrow> holder set) \<Rightarrow> bool" where
  "exclusive H \<longleftrightarrow> (\<forall>b. \<forall>h \<in> H b. \<forall>h' \<in> H b.
    if fst h = fst h' then h = h' else fst (snd h) \<noteq> F_WRLCK \<and> fst (snd h') \<noteq> F_WRLCK)"

definition inode_keys :: "(string, 'l list) hash_map \<Rightarrow> bool" where
  "inode_keys T \<longleftrightarrow> (\<forall>key \<in> fst ` set T. \<not> starts_with_char (CHR ''/'') key)"

definition locks_ok :: "LockTable \<Rightarrow> bool" where
  "locks_ok T \<longleftrightarrow> table_wf T \<and> inode_keys T \<and> (\<forall>key. exclusive (holders (locks_at T key)))"

lemma exclusive_subset: "exclusive H \<Longrightarrow> (\<And>b. H' b \<subseteq> H b) \<Longrightarrow> exclusive H'"
  unfolding exclusive_def by (meson subsetD)

lemma inode_keys_alt: "inode_keys T \<longleftrightarrow> (\<forall>key. hm_get T key \<noteq> None \<longrightarrow> \<not> starts_with_char (CHR ''/'') key)"
  by (auto simp: inode_keys_def hm_get_None_iff)

lemma show_nat_digit: "\<not> starts_with_char (CHR ''/'') (show_nat n @ s)"
proof (induction n rule: show_nat.induct)
  case (1 n)
  have d: "digit_char d \<noteq> CHR ''/''" if "d < 10" for d
  proof
    assume "digit_char d = CHR ''/''"
    then have "(of_char (digit_char d) :: nat) = of_char (CHR ''/'')" by simp
    with that show False by (simp add: digit_char_def)
  qed
  from 1 d [of n] d [of "n mod 10"] show ?case
    by (subst show_nat.simps) (cases "show_nat (n div 10)", auto)
qed

lemma lock_key_not_path: "\<not> starts_with_char (CHR ''/'') (lock_key_for_file dev ino)"
  unfolding lock_key_for_file_def by (rule show_nat_digit)

lemma move_key_inode:
  assumes "\<not> starts_with_char (CHR ''/'') key" "starts_with_char (CHR ''/'') old_path"
  shows "move_key old_path new_path key T = T"
proof -
  have "descendant_suffix key old_path = None"
    using assms by (cases key; cases old_path) (auto simp: descendant_suffix_def split: option.splits)
  then show ?thesis by (simp add: move_key_def)
qed

lemma move_keys_inode:
  assumes "inode_keys T" "starts_with_char (CHR ''/'') old_path"
  shows "fold (move_key old_path new_path) (hm_keys T) T = T"
proof -
  have "fold (move_key old_path new_path) keys T = T" if "set keys \<subseteq> fst ` set T" for keys
    using that by (induction keys) (use assms in \<open>auto simp: inode_keys_def move_key_inode\<close>)
  then show ?thesis by (simp add: hm_keys_def)
qed

lemma setlk_inode_keys:
  assumes "inode_keys T" "\<not> starts_with_char (CHR ''/'') key"
  shows "inode_keys (snd (setlk key handle owner start stop ty pid T))"
  using assms by (auto simp: setlk_def inode_keys_alt unlock_owned_range_def Let_def
      split: sum.splits option.splits if_splits)

lemma setlk_exclusive:
  assumes "table_wf T" "\<And>k. exclusive (holders (locks_at T k))"
  shows "exclusive (holders (locks_at (snd (setlk key handle owner start stop ty pid T)) k))"
proof -
  obtain r T' where s: "setlk key handle owner start stop ty pid T = (r, T')" by fastforce
  show ?thesis
  proof (cases "r = Ok ()")
    case False
    then have "T' = T" using setlk_spec [OF assms(1), where key = key and handle = handle and owner = owner
          and start = start and stop = stop and ty = ty and pid = pid] s
      by (auto split: if_splits)
    with s assms(2) show ?thesis by simp
  next
    case True
    from True s setlk_spec [OF assms(1), where key = key and handle = handle and owner = owner
        and start = start and stop = stop and ty = ty and pid = pid]
    have n: "ty = F_UNLCK \<or> \<not> blocked (holders (locks_at T key)) owner start stop ty"
      and h: "\<forall>k b. holders (locks_at T' k) b =
         (if k = key \<and> start \<le> b \<and> b \<le> stop
          then {h \<in> holders (locks_at T k) b. fst h \<noteq> owner}
            \<union> (if ty = F_UNLCK then {} else {(owner, ty, pid, handle)})
          else holders (locks_at T k) b)"
      by (auto split: if_splits)
    have "if fst h = fst h' then h = h' else fst (snd h) \<noteq> F_WRLCK \<and> fst (snd h') \<noteq> F_WRLCK"
      if "h \<in> holders (locks_at T' k) b" "h' \<in> holders (locks_at T' k) b" for b h h'
    proof -
      note both = that
      have old: "if fst g = fst g' then g = g' else fst (snd g) \<noteq> F_WRLCK \<and> fst (snd g') \<noteq> F_WRLCK"
        if "g \<in> holders (locks_at T k) b" "g' \<in> holders (locks_at T k) b" for g g'
        using assms(2) [of k] that unfolding exclusive_def by blast
      have new: "fst (snd g) \<noteq> F_WRLCK \<and> ty \<noteq> F_WRLCK"
        if "k = key" "start \<le> b" "b \<le> stop" "g \<in> holders (locks_at T k) b" "fst g \<noteq> owner" "ty \<noteq> F_UNLCK" for g
        using n that unfolding blocked_def by blast
      let ?in = "k = key \<and> start \<le> b \<and> b \<le> stop \<and> ty \<noteq> F_UNLCK"
      have m: "g \<in> holders (locks_at T k) b \<and> (k = key \<and> start \<le> b \<and> b \<le> stop \<longrightarrow> fst g \<noteq> owner)
          \<or> ?in \<and> g = (owner, ty, pid, handle)" if "g \<in> holders (locks_at T' k) b" for g
        using that h [rule_format, of k b] by (auto split: if_splits)
      consider "h \<in> holders (locks_at T k) b" "h' \<in> holders (locks_at T k) b"
        | "h = (owner, ty, pid, handle)" "h' = (owner, ty, pid, handle)"
        | "?in" "h = (owner, ty, pid, handle)" "h' \<in> holders (locks_at T k) b" "fst h' \<noteq> owner"
        | "?in" "h' = (owner, ty, pid, handle)" "h \<in> holders (locks_at T k) b" "fst h \<noteq> owner"
        using m [OF both(1)] m [OF both(2)] by blast
      then show ?thesis
      proof cases
        case 1
        then show ?thesis by (rule old)
      next
        case 2
        then show ?thesis by simp
      next
        case 3
        with new [of h'] show ?thesis by simp
      next
        case 4
        with new [of h] show ?thesis by simp
      qed
    qed
    then show ?thesis unfolding exclusive_def s snd_conv by blast
  qed
qed

lemma map_values_get: "hm_get (map (\<lambda>(k, v). (k, f v)) T) key = map_option f (hm_get T key)"
  by (induction T) auto

lemma map_values_keys [simp]:
  "hm_wf (map (\<lambda>(k, v). (k, f v)) T) = hm_wf T" "inode_keys (map (\<lambda>(k, v). (k, g v)) T) = inode_keys T"
  by (auto simp: hm_wf_def inode_keys_def case_prod_beta comp_def image_image)

lemma retained_at:
  assumes "hm_wf T"
  shows "locks_at (hm_retain (\<lambda>_ locks. locks \<noteq> []) (map (\<lambda>(k, ls). (k, filter P ls)) T)) key
    = filter P (locks_at T key)"
  using assms
  by (auto simp: locks_at_def hm_get_retain map_values_get split: option.splits)

lemma retained_inode_keys:
  "inode_keys T \<Longrightarrow> inode_keys (hm_retain Q (map (\<lambda>(k, ls). (k, filter P ls)) T))"
  by (auto simp: inode_keys_def hm_retain_def)

lemma retained_wf:
  assumes "table_wf T"
  shows "table_wf (hm_retain (\<lambda>_ locks. locks \<noteq> []) (map (\<lambda>(k, ls). (k, filter P ls)) T))"
proof -
  have "hm_wf T" using assms by (simp add: table_wf_def)
  with assms show ?thesis
    by (auto simp: table_wf_def hm_get_retain map_values_get hm_wf_retain range_wf_def
        split: option.splits if_splits)
qed

lemma filter_holders_subset: "holders (filter P locks) b \<subseteq> holders locks b"
  by (auto simp: holders_def)

lemma release_handle_ok: "locks_ok T \<Longrightarrow> locks_ok (locks_release_handle handle T)"
  unfolding locks_ok_def locks_release_handle_def
  by (auto simp: retained_wf retained_inode_keys retained_at table_wf_def [of T]
      intro: exclusive_subset [OF _ filter_holders_subset])

lemma release_owner_at:
  "locks_at (locks_release_owner key owner T) k =
    (if k = key then filter (\<lambda>lock. bl_owner lock \<noteq> owner) (locks_at T k) else locks_at T k)"
  by (auto simp: locks_release_owner_def Let_def locks_at_def [of T] split: option.splits)

lemma release_owner_ok:
  assumes "locks_ok T"
  shows "locks_ok (locks_release_owner key owner T)"
proof -
  have w: "table_wf T" "inode_keys T" and e: "exclusive (holders (locks_at T k))" for k
    using assms by (simp_all add: locks_ok_def)
  have "range_wf (filter (\<lambda>lock. bl_owner lock \<noteq> owner) (locks_at T key))"
    using table_wf_at [OF w(1), of key] by (simp add: range_wf_def)
  from table_wf_put [OF w(1) this, of key] w have "table_wf (locks_release_owner key owner T)"
    by (auto simp: locks_release_owner_def Let_def locks_at_def split: option.splits)
  moreover have "inode_keys (locks_release_owner key owner T)"
    using w(2) by (auto simp: locks_release_owner_def Let_def inode_keys_alt split: option.splits)
  moreover have "exclusive (holders (locks_at (locks_release_owner key owner T) k))" for k
    using e [of k] by (auto simp: release_owner_at intro: exclusive_subset [OF _ filter_holders_subset])
  ultimately show ?thesis by (simp add: locks_ok_def)
qed

lemma rename_ok:
  assumes "locks_ok T" "starts_with_char (CHR ''/'') old_path"
  shows "locks_ok (locks_rename_path old_path new_path T)"
proof -
  have "inode_keys T" using assms(1) by (simp add: locks_ok_def)
  then have r: "locks_rename_path old_path new_path T = map (\<lambda>(k, ls). (k, merge_path_locks ls)) T"
    using assms(2) by (simp add: locks_rename_path_def move_keys_inode)
  have at: "holders (locks_at (locks_rename_path old_path new_path T) k) = holders (locks_at T k)" for k
    by (rule ext) (simp add: r locks_at_def map_values_get merge_path_locks_def [of "[]"] split: option.splits)
  have "table_wf (locks_rename_path old_path new_path T)"
    using assms(1) by (auto simp: r locks_ok_def table_wf_def map_values_get merge_path_locks_wf)
  with assms(1) show ?thesis by (simp add: locks_ok_def at) (simp add: r)
qed

text \<open>
  The operations the server makes on its table: locks are taken under the key of an
  inode, paths are renamed from an absolute path, and the table is replaced after a
  panic.
\<close>

inductive lock_step :: "LockTable \<Rightarrow> LockTable \<Rightarrow> bool" where
  set_lock: "lock_step T (snd (setlk (lock_key_for_file dev ino) handle owner start stop ty pid T))"
| close_handle: "lock_step T (locks_release_handle handle T)"
| close_owner: "lock_step T (locks_release_owner (lock_key_for_file dev ino) owner T)"
| rename: "starts_with_char (CHR ''/'') old_path \<Longrightarrow> lock_step T (locks_rename_path old_path new_path T)"
| recover: "lock_step T []"

lemma locks_ok_Nil: "locks_ok []"
  by (simp add: locks_ok_def inode_keys_def exclusive_def)

lemma lock_step_ok: "lock_step T T' \<Longrightarrow> locks_ok T \<Longrightarrow> locks_ok T'"
proof (induction rule: lock_step.induct)
  case (set_lock T dev ino handle owner start stop ty pid)
  let ?s = "setlk (lock_key_for_file dev ino) handle owner start stop ty pid T"
  have "table_wf T" using set_lock by (simp add: locks_ok_def)
  from setlk_spec [OF this, where key = "lock_key_for_file dev ino" and handle = handle
      and owner = owner and start = start and stop = stop and ty = ty and pid = pid]
  have "table_wf (snd ?s)" by (simp add: case_prod_beta)
  with set_lock setlk_exclusive [OF \<open>table_wf T\<close>] show ?case
    by (simp add: locks_ok_def setlk_inode_keys lock_key_not_path)
qed (simp_all add: release_handle_ok release_owner_ok rename_ok locks_ok_Nil)

text \<open>
  C26: no sequence of lock requests, releases and renames ever grants two owners
  conflicting locks on one byte, or one owner two locks on it; ranges stay
  well formed and no file is left with an empty list.
\<close>

theorem lock_exclusion:
  assumes "lock_step\<^sup>*\<^sup>* [] T"
  shows "table_wf T \<and> exclusive (holders (locks_at T key))"
proof -
  have "locks_ok T" using assms
    by (induction rule: rtranclp_induct) (auto intro: lock_step_ok locks_ok_Nil)
  then show ?thesis by (simp add: locks_ok_def)
qed

theorem lock_exclusion_witness:
  "exclusive (holders (locks_at (snd (setlk (lock_key_for_file 1 2) 7 1 10 20 F_WRLCK 4 [])) ''1:2''))"
  using lock_exclusion [OF r_into_rtranclp [where r = lock_step, OF set_lock]] by blast

section \<open>Exclusion of whole-file locks\<close>

definition flock_list_ok :: "BackendFlock list \<Rightarrow> bool" where
  "flock_list_ok locks \<longleftrightarrow> distinct (map bf_owner locks)
    \<and> ((\<exists>lock \<in> set locks. bf_typ lock = LOCK_EX) \<longrightarrow> length locks = 1)"

definition flocks_ok :: "FlockTable \<Rightarrow> bool" where
  "flocks_ok T \<longleftrightarrow> hm_wf T \<and> inode_keys T \<and> (\<forall>key. flock_list_ok (locks_at T key))"

lemma flock_list_ok_filter:
  assumes "flock_list_ok locks"
  shows "flock_list_ok (filter P locks)"
proof -
  have "length (filter P locks) = 1" if "lock \<in> set (filter P locks)" "bf_typ lock = LOCK_EX" for lock
  proof -
    from that assms have "length locks = 1" by (auto simp: flock_list_ok_def)
    with that(1) show ?thesis by (auto simp: length_Suc_conv)
  qed
  then show ?thesis
    using assms by (auto simp: flock_list_ok_def distinct_map_filter)
qed

lemma unlock_owned_at:
  "locks_at (unlock_owned key owner T) k =
    (if k = key then filter (\<lambda>lock. bf_owner lock \<noteq> owner) (locks_at T k) else locks_at T k)"
  by (auto simp: unlock_owned_def Let_def locks_at_def [of T] split: option.splits)

lemma unlock_owned_ok:
  assumes "flocks_ok T"
  shows "flocks_ok (unlock_owned key owner T)"
proof -
  have "hm_wf (unlock_owned key owner T)" "inode_keys (unlock_owned key owner T)"
    using assms by (auto simp: flocks_ok_def unlock_owned_def Let_def inode_keys_alt split: option.splits)
  with assms show ?thesis
    by (simp add: flocks_ok_def unlock_owned_at flock_list_ok_filter)
qed

lemma granted_list_ok:
  assumes "flock_list_ok locks" "\<not> (\<exists>lock \<in> set locks. flock_conflicts lock owner ty)"
  shows "flock_list_ok (filter (\<lambda>lock. bf_owner lock \<noteq> owner) locks
    @ [\<lparr>bf_handle = handle, bf_owner = owner, bf_typ = ty\<rparr>])"
proof -
  let ?kept = "filter (\<lambda>lock. bf_owner lock \<noteq> owner) locks"
  have kept: "bf_typ lock \<noteq> LOCK_EX \<and> ty \<noteq> LOCK_EX" if "lock \<in> set ?kept" for lock
    using that assms(2) by (auto simp: flock_conflicts_def)
  have d: "distinct (map bf_owner ?kept)"
    using assms(1) by (simp add: flock_list_ok_def distinct_map_filter)
  show ?thesis
  proof (cases "?kept = []")
    case True
    then show ?thesis by (simp add: flock_list_ok_def)
  next
    case False
    then have "ty \<noteq> LOCK_EX" using kept by (meson hd_in_set)
    with kept d show ?thesis by (auto simp: flock_list_ok_def)
  qed
qed

lemma flock_keeps_ok:
  assumes "flocks_ok T" "\<not> starts_with_char (CHR ''/'') key"
  shows "flocks_ok (snd (flock key handle owner operation T))"
proof (cases "server_flock_operation operation")
  case (Inl e)
  with assms show ?thesis by (simp add: flock_def)
next
  case (Inr ty)
  let ?U = "unlock_owned key owner T"
  have u: "flocks_ok ?U" by (rule unlock_owned_ok [OF assms(1)])
  consider "ty = LOCK_UN"
    | "ty \<noteq> LOCK_UN" "\<exists>lock \<in> set (locks_at T key). flock_conflicts lock owner ty"
    | "ty \<noteq> LOCK_UN" "\<not> (\<exists>lock \<in> set (locks_at T key). flock_conflicts lock owner ty)" by blast
  then show ?thesis
  proof cases
    case 1
    with Inr u show ?thesis by (simp add: flock_def)
  next
    case 2
    with Inr assms show ?thesis by (simp add: flock_def conflict_at Let_def)
  next
    case 3
    let ?T = "hm_insert key (locks_at ?U key @ [\<lparr>bf_handle = handle, bf_owner = owner, bf_typ = ty\<rparr>]) ?U"
    have "flock key handle owner operation T = (Ok (), ?T)"
      using Inr 3 by (simp add: flock_def conflict_at Let_def locks_at_def [of ?U])
    moreover have "flocks_ok ?T"
      using u assms 3 granted_list_ok [of "locks_at T key" owner ty handle]
      by (auto simp: flocks_ok_def inode_keys_alt unlock_owned_at)
    ultimately show ?thesis by simp
  qed
qed

inductive flock_step :: "FlockTable \<Rightarrow> FlockTable \<Rightarrow> bool" where
  set_flock: "flock_step T (snd (flock (lock_key_for_file dev ino) handle owner operation T))"
| close_flock_handle: "flock_step T (flock_release_handle handle T)"
| rename_flocks: "starts_with_char (CHR ''/'') old_path \<Longrightarrow>
    flock_step T (flock_rename_path old_path new_path T)"
| recover_flocks: "flock_step T []"

lemma flock_step_ok: "flock_step T T' \<Longrightarrow> flocks_ok T \<Longrightarrow> flocks_ok T'"
proof (induction rule: flock_step.induct)
  case (close_flock_handle T handle)
  then show ?case
    by (simp add: flocks_ok_def flock_release_handle_def retained_inode_keys retained_at
        flock_list_ok_filter hm_wf_retain)
next
  case (rename_flocks old_path T new_path)
  then show ?case by (simp add: flock_rename_path_def flocks_ok_def move_keys_inode)
next
  case (recover_flocks T)
  then show ?case by (simp add: flocks_ok_def inode_keys_def flock_list_ok_def)
qed (simp add: flock_keeps_ok lock_key_not_path)

text \<open>
  C27: no sequence of whole-file lock requests, releases and renames lets an owner
  hold two locks on a file, or anyone hold a lock beside an exclusive one.
\<close>

theorem flock_exclusion:
  assumes "flock_step\<^sup>*\<^sup>* [] T"
  shows "distinct (map bf_owner (locks_at T key))
    \<and> (list_ex (\<lambda>lock. bf_typ lock = LOCK_EX) (locks_at T key) \<longrightarrow> length (locks_at T key) = 1)"
proof -
  have "flocks_ok []" by (simp add: flocks_ok_def inode_keys_def flock_list_ok_def)
  with assms have "flocks_ok T"
    by (induction rule: rtranclp_induct) (auto intro: flock_step_ok)
  then show ?thesis by (simp add: flocks_ok_def flock_list_ok_def list_ex_iff)
qed

theorem flock_exclusion_witness:
  "length (locks_at (snd (flock (lock_key_for_file 1 2) 7 1 LOCK_EX [])) (lock_key_for_file 1 2)) = 1"
proof -
  let ?T = "snd (flock (lock_key_for_file 1 2) 7 1 LOCK_EX [])"
  have "flock_step\<^sup>*\<^sup>* [] ?T" using set_flock [of "[]"] by blast
  moreover have "list_ex (\<lambda>lock. bf_typ lock = LOCK_EX) (locks_at ?T (lock_key_for_file 1 2))"
    by code_simp
  ultimately show ?thesis using flock_exclusion by blast
qed

end
