(* ===== verification/ServerAccess.thy ===== *)
theory ServerAccess
  imports ServerLocks
begin

text \<open>
  The stateless helpers of the server under \<open>fabricfs-server/src/server\<close>: access
  checks on metadata (\<open>permissions.rs\<close>), conversion of metadata (\<open>metadata.rs\<close>), the
  arithmetic of seeking and preallocation (\<open>advanced_io.rs\<close>), and the limits and
  options of \<open>server.rs\<close>. The metadata of the host is a record with the fields the
  source reads.
\<close>

section \<open>Host metadata\<close>

definition EBADF :: i32 where "EBADF = 9"
definition EACCES :: i32 where "EACCES = 13"
definition EIO :: i32 where "EIO = 5"
definition EISDIR :: i32 where "EISDIR = 21"
definition ENOTDIR :: i32 where "ENOTDIR = 20"
definition ELOOP :: i32 where "ELOOP = 40"
definition ENOTEMPTY :: i32 where "ENOTEMPTY = 39"
definition EEXIST :: i32 where "EEXIST = 17"
definition ENOENT :: i32 where "ENOENT = 2"
definition EINTR :: i32 where "EINTR = 4"

definition S_IFMT :: u32 where "S_IFMT = 0xF000"
definition S_IFREG :: u32 where "S_IFREG = 0x8000"
definition S_IFDIR :: u32 where "S_IFDIR = 0x4000"
definition S_IFLNK :: u32 where "S_IFLNK = 0xA000"
definition S_ISVTX :: u32 where "S_ISVTX = 0x200"
definition O_ACCMODE :: i32 where "O_ACCMODE = 3"
definition O_RDONLY :: i32 where "O_RDONLY = 0"
definition O_WRONLY :: i32 where "O_WRONLY = 1"
definition O_RDWR :: i32 where "O_RDWR = 2"
definition O_TRUNC :: i32 where "O_TRUNC = 512"
definition O_EXCL :: i32 where "O_EXCL = 128"

record Metadata =
  md_dev :: u64
  md_ino :: u64
  md_mode :: u32
  md_nlink :: u64
  md_uid :: u32
  md_gid :: u32
  md_size :: u64
  md_atime :: i64
  md_atime_nsec :: i64
  md_mtime :: i64
  md_mtime_nsec :: i64
  md_ctime :: i64
  md_ctime_nsec :: i64

definition md_is_file :: "Metadata \<Rightarrow> bool" where
  "md_is_file meta \<longleftrightarrow> md_mode meta AND S_IFMT = S_IFREG"

definition md_is_dir :: "Metadata \<Rightarrow> bool" where
  "md_is_dir meta \<longleftrightarrow> md_mode meta AND S_IFMT = S_IFDIR"

definition md_is_symlink :: "Metadata \<Rightarrow> bool" where
  "md_is_symlink meta \<longleftrightarrow> md_mode meta AND S_IFMT = S_IFLNK"

record FuseContext =
  ctx_uid :: u32
  ctx_gid :: u32
  ctx_pid :: u32

record Stat =
  st_dev :: u64
  st_ino :: u64
  st_mode :: u32
  st_nlink :: u32
  st_uid :: u32
  st_gid :: u32
  st_size :: u64
  st_atime_ns :: i64
  st_mtime_ns :: i64
  st_ctime_ns :: i64

text \<open>The clamp of a 128-bit product and sum to 64 bits; the saturations of the source at 128 bits.\<close>

definition i128_clamp :: "int \<Rightarrow> int" where
  "i128_clamp n = max (- (2 ^ 127)) (min n (2 ^ 127 - 1))"

definition nanos_saturated :: "i64 \<Rightarrow> i64 \<Rightarrow> i64" where
  "nanos_saturated secs nsecs =
    (let raw = i128_clamp (i128_clamp (secs * 1000000000) + nsecs)
     in max (- (2 ^ 63)) (min raw (2 ^ 63 - 1)))"

definition metadata_to_stat :: "Metadata \<Rightarrow> Stat" where
  "metadata_to_stat meta =
    \<lparr>st_dev = md_dev meta, st_ino = md_ino meta, st_mode = md_mode meta,
     st_nlink = ucast (md_nlink meta), st_uid = md_uid meta, st_gid = md_gid meta,
     st_size = md_size meta,
     st_atime_ns = nanos_saturated (md_atime meta) (md_atime_nsec meta),
     st_mtime_ns = nanos_saturated (md_mtime meta) (md_mtime_nsec meta),
     st_ctime_ns = nanos_saturated (md_ctime meta) (md_ctime_nsec meta)\<rparr>"

section \<open>Limits and options\<close>

record FsLimits =
  lim_io_chunk_bytes :: nat
  lim_max_read_bytes :: nat

definition limits_validated :: "FsLimits \<Rightarrow> FsLimits" where
  "limits_validated limits =
    \<lparr>lim_io_chunk_bytes = max (lim_io_chunk_bytes limits) 1, lim_max_read_bytes = max (lim_max_read_bytes limits) 1\<rparr>"

definition FsLimits_new :: "nat \<Rightarrow> nat \<Rightarrow> FsLimits" where
  "FsLimits_new chunk max_read =
    limits_validated \<lparr>lim_io_chunk_bytes = chunk, lim_max_read_bytes = max_read\<rparr>"

definition FsLimits_default :: FsLimits where
  "FsLimits_default = \<lparr>lim_io_chunk_bytes = 1024 * 1024, lim_max_read_bytes = 4 * 1024 * 1024\<rparr>"

record FsOptions =
  opt_limits :: FsLimits
  opt_umask :: u32
  opt_propagate_acls :: bool
  opt_allow_backing_permission_updates :: bool
  opt_allow_xattr_updates :: bool
  opt_allow_direct_backing_updates :: bool

definition DEFAULT_FS_UMASK :: u32 where "DEFAULT_FS_UMASK = 18"

definition options_normalized :: "FsOptions \<Rightarrow> FsOptions" where
  "options_normalized options = options\<lparr>opt_umask := opt_umask options AND 511\<rparr>"

definition options_with_limits :: "FsLimits \<Rightarrow> FsOptions" where
  "options_with_limits limits = options_normalized
    \<lparr>opt_limits = limits_validated limits, opt_umask = DEFAULT_FS_UMASK, opt_propagate_acls = False,
     opt_allow_backing_permission_updates = False, opt_allow_xattr_updates = False,
     opt_allow_direct_backing_updates = False\<rparr>"

definition FsOptions_default :: FsOptions where
  "FsOptions_default = options_with_limits FsLimits_default"

datatype HandleKind = Handle_File | Handle_Dir

section \<open>Access checks\<close>

definition class_bits :: "u32 \<Rightarrow> u32 \<Rightarrow> u32 \<Rightarrow> u32 \<Rightarrow> u32 \<Rightarrow> u32" where
  "class_bits mode file_uid file_gid uid gid =
    (if file_uid = uid then drop_bit 6 mode AND 7
     else if file_gid = gid then drop_bit 3 mode AND 7
     else mode AND 7)"

definition ensure_access_bits :: "Metadata \<Rightarrow> u32 \<Rightarrow> u32 \<Rightarrow> u32 \<Rightarrow> i32 + unit" where
  "ensure_access_bits meta uid gid required =
    (if uid = 0
     then (if required AND 1 \<noteq> 0 \<and> md_mode meta AND 73 = 0 then Err EACCES else Ok ())
     else if class_bits (md_mode meta) (md_uid meta) (md_gid meta) uid gid AND required = required
     then Ok () else Err EACCES)"

definition ensure_stat_access_bits :: "Stat \<Rightarrow> u32 \<Rightarrow> u32 \<Rightarrow> u32 \<Rightarrow> i32 + unit" where
  "ensure_stat_access_bits stat uid gid required =
    (if uid = 0
     then (if required AND 1 \<noteq> 0 \<and> st_mode stat AND 73 = 0 then Err EACCES else Ok ())
     else if class_bits (st_mode stat) (st_uid stat) (st_gid stat) uid gid AND required = required
     then Ok () else Err EACCES)"

definition ensure_write_allowed :: "Metadata \<Rightarrow> u32 \<Rightarrow> u32 \<Rightarrow> i32 + unit" where
  "ensure_write_allowed meta uid gid = ensure_access_bits meta uid gid 2"

definition ensure_read_allowed :: "Metadata \<Rightarrow> u32 \<Rightarrow> u32 \<Rightarrow> i32 + unit" where
  "ensure_read_allowed meta uid gid = ensure_access_bits meta uid gid 4"

definition ensure_read_write_allowed :: "Metadata \<Rightarrow> u32 \<Rightarrow> u32 \<Rightarrow> i32 + unit" where
  "ensure_read_write_allowed meta uid gid = ensure_access_bits meta uid gid 6"

definition ensure_search_allowed :: "Metadata \<Rightarrow> u32 \<Rightarrow> u32 \<Rightarrow> i32 + unit" where
  "ensure_search_allowed meta uid gid = ensure_access_bits meta uid gid 1"

definition open_access_bits :: "i32 \<Rightarrow> i32 + u32" where
  "open_access_bits flags =
    try_bind
      (let mode = flags AND O_ACCMODE
       in if mode = O_RDONLY then Ok 4 else if mode = O_WRONLY then Ok 2
          else if mode = O_RDWR then Ok 6 else Err EINVAL)
      (\<lambda>required. Ok (if flags AND O_TRUNC \<noteq> 0 then required OR 2 else required))"

definition ensure_open_flags_allowed :: "Metadata \<Rightarrow> u32 \<Rightarrow> u32 \<Rightarrow> i32 \<Rightarrow> i32 + u32" where
  "ensure_open_flags_allowed meta uid gid flags =
    try_bind (open_access_bits flags) (\<lambda>required.
    try_seq (ensure_access_bits meta uid gid required) (Ok required))"

definition ensure_regular_file :: "Metadata \<Rightarrow> i32 + unit" where
  "ensure_regular_file meta =
    (if md_is_file meta then Ok () else if md_is_dir meta then Err EISDIR else Err EINVAL)"

definition ensure_owner_or_root :: "Metadata \<Rightarrow> u32 \<Rightarrow> i32 + unit" where
  "ensure_owner_or_root meta uid = (if uid = 0 \<or> md_uid meta = uid then Ok () else Err EACCES)"

definition ensure_root :: "u32 \<Rightarrow> i32 + unit" where
  "ensure_root uid = (if uid = 0 then Ok () else Err EACCES)"

definition ensure_setattr_ownership_allowed ::
    "Metadata \<Rightarrow> u32 \<Rightarrow> u32 \<Rightarrow> u32 option \<Rightarrow> u32 option \<Rightarrow> i32 + unit" where
  "ensure_setattr_ownership_allowed meta uid gid new_uid new_gid =
    (if uid = 0 then Ok ()
     else if md_uid meta \<noteq> uid then Err EACCES
     else
       (let uid_ok = (case new_uid of Some requested \<Rightarrow> requested = md_uid meta | None \<Rightarrow> True);
            gid_ok = (case new_gid of
                Some requested \<Rightarrow> requested = md_gid meta \<or> requested = gid | None \<Rightarrow> True)
        in if uid_ok \<and> gid_ok then Ok () else Err EACCES))"

definition ensure_setattr_allowed :: "Metadata \<Rightarrow> u32 \<Rightarrow> u32 \<Rightarrow> u32 option \<Rightarrow> u32 option
    \<Rightarrow> u32 option \<Rightarrow> u64 option \<Rightarrow> i32 + unit" where
  "ensure_setattr_allowed meta uid gid mode new_uid new_gid n =
    try_seq (if mode \<noteq> None then ensure_owner_or_root meta uid else Ok ())
    (try_seq (if new_uid \<noteq> None \<or> new_gid \<noteq> None
        then ensure_setattr_ownership_allowed meta uid gid new_uid new_gid else Ok ())
    (try_seq (if n \<noteq> None then ensure_write_allowed meta uid gid else Ok ())
    (Ok ())))"

definition ensure_dir_creation_allowed :: "Metadata \<Rightarrow> u32 \<Rightarrow> u32 \<Rightarrow> i32 + unit" where
  "ensure_dir_creation_allowed meta uid gid = ensure_access_bits meta uid gid 3"

definition ensure_file_creation_allowed :: "Metadata \<Rightarrow> u32 \<Rightarrow> u32 \<Rightarrow> i32 + unit" where
  "ensure_file_creation_allowed meta uid gid = ensure_access_bits meta uid gid 3"

definition ensure_sticky_allowed :: "Metadata \<Rightarrow> Metadata \<Rightarrow> u32 \<Rightarrow> i32 + unit" where
  "ensure_sticky_allowed parent_meta target_meta uid =
    (if md_mode parent_meta AND S_ISVTX \<noteq> 0 \<and> uid \<noteq> 0 \<and> uid \<noteq> md_uid parent_meta
        \<and> uid \<noteq> md_uid target_meta
     then Err EACCES else Ok ())"

definition ensure_removal_allowed :: "Metadata \<Rightarrow> Metadata \<Rightarrow> u32 \<Rightarrow> u32 \<Rightarrow> i32 + unit" where
  "ensure_removal_allowed parent_meta target_meta uid gid =
    try_seq (ensure_dir_creation_allowed parent_meta uid gid)
    (ensure_sticky_allowed parent_meta target_meta uid)"

section \<open>Offsets\<close>

definition checked_fallocate_end :: "i64 \<Rightarrow> i64 \<Rightarrow> i32 + u64" where
  "checked_fallocate_end offset len =
    (if offset < 0 \<or> len \<le> 0 then Err EINVAL
     else ok_or EINVAL (checked_add (word_of_int offset) (word_of_int len)))"

definition ensure_fallocate_mode_supported :: "i32 \<Rightarrow> i32 + unit" where
  "ensure_fallocate_mode_supported mode = (if mode = 0 then Ok () else Err EOPNOTSUPP)"

definition seek_offset :: "u64 \<Rightarrow> u64 \<Rightarrow> i64 \<Rightarrow> i32 \<Rightarrow> i32 + u64" where
  "seek_offset current file_len offset whence =
    try_bind
      (if whence = 0 then Ok 0 else if whence = 1 then Ok current
       else if whence = 2 then Ok file_len else Err EINVAL)
      (\<lambda>base. let next = uint base + offset
        in if next < 0 \<or> next > 2 ^ 63 - 1 then Err EINVAL else Ok (word_of_int next))"

end
