(* ===== verification/ServerHost.thy ===== *)
theory ServerHost
  imports ServerAccess
begin

text \<open>
  The host behind the server: the calls of the Rust standard library and of libc that
  the storage code makes on the operating system, as a record of functions on the
  state of the host. A file descriptor is a value the host hands out. Every call may
  fail with an error that either carries an error number or does not
  (\<open>server/errors.rs\<close>).
\<close>

section \<open>Errors of the host\<close>

datatype io_error = Os i32 | Custom

fun io_errno :: "io_error \<Rightarrow> i32" where
  "io_errno (Os n) = n"
| "io_errno Custom = EIO"

definition is_interrupted :: "io_error \<Rightarrow> bool" where
  "is_interrupted e \<longleftrightarrow> e = Os EINTR"

section \<open>Calls that thread a state\<close>

type_synonym ('s, 'a) call = "'s \<Rightarrow> (i32 + 'a) \<times> 's"

definition srv_bind :: "('s, 'a) call \<Rightarrow> ('a \<Rightarrow> ('s, 'b) call) \<Rightarrow> ('s, 'b) call" where
  "srv_bind m f s = (case m s of (Inr a, s') \<Rightarrow> f a s' | (Inl e, s') \<Rightarrow> (Inl e, s'))"

definition srv_give :: "i32 + 'a \<Rightarrow> ('s, 'a) call" where
  "srv_give r s = (r, s)"

lemma srv_bind_simps [simp, result_simps]:
  "m s = (Inr a, s') \<Longrightarrow> srv_bind m f s = f a s'"
  "m s = (Inl e, s') \<Longrightarrow> srv_bind m f s = (Inl e, s')"
  "srv_bind (srv_give (Inr a)) f = f a"
  "srv_bind (srv_give (Inl e)) f = srv_give (Inl e)"
  "srv_give r s = (r, s)"
  by (simp_all add: srv_bind_def srv_give_def fun_eq_iff)

lemma srv_bind_Ok_iff:
  "srv_bind m f s = (Inr b, s'') \<longleftrightarrow> (\<exists>a s'. m s = (Inr a, s') \<and> f a s' = (Inr b, s''))"
  by (auto simp: srv_bind_def split: prod.splits sum.splits)

section \<open>The host\<close>

record OpenOptions =
  oo_read :: bool
  oo_write :: bool
  oo_create :: bool
  oo_mode :: u32

text \<open>\<open>File::open\<close> reads; \<open>OpenOptions::new\<close> starts from the mode the library gives a created file.\<close>

definition oo_read_only :: OpenOptions where
  "oo_read_only = \<lparr>oo_read = True, oo_write = False, oo_create = False, oo_mode = 0x1B6\<rparr>"

definition oo_write_only :: OpenOptions where
  "oo_write_only = \<lparr>oo_read = False, oo_write = True, oo_create = False, oo_mode = 0x1B6\<rparr>"

record Statvfs =
  f_blocks :: u64
  f_bfree :: u64
  f_bavail :: u64
  f_files :: u64
  f_ffree :: u64
  f_bsize :: u64
  f_namemax :: u64
  f_frsize :: u64

type_synonym ('w, 'a) io_call = "'w \<Rightarrow> (io_error + 'a) \<times> 'w"

text \<open>
  Calls that only look at the host do not return a new state of it. \<open>h_lossy\<close> is the
  conversion of a name of the host to a string, which replaces bytes that are not UTF-8.
\<close>

record ('f, 'w) host_fs =
  h_lossy :: "string \<Rightarrow> string"
  h_symlink_metadata :: "string \<Rightarrow> 'w \<Rightarrow> io_error + Metadata"
  h_metadata :: "string \<Rightarrow> 'w \<Rightarrow> io_error + Metadata"
  h_read_dir :: "string \<Rightarrow> 'w \<Rightarrow> io_error + (io_error + string) list"
  h_read_link :: "string \<Rightarrow> 'w \<Rightarrow> io_error + bytes"
  h_statvfs :: "string \<Rightarrow> 'w \<Rightarrow> i32 + Statvfs"
  h_getxattr_len :: "string \<Rightarrow> string \<Rightarrow> 'w \<Rightarrow> i32 + nat"
  h_getxattr :: "string \<Rightarrow> string \<Rightarrow> nat \<Rightarrow> 'w \<Rightarrow> i32 + bytes"
  h_listxattr_len :: "string \<Rightarrow> 'w \<Rightarrow> i32 + nat"
  h_listxattr :: "string \<Rightarrow> nat \<Rightarrow> 'w \<Rightarrow> i32 + string"
  h_open :: "OpenOptions \<Rightarrow> string \<Rightarrow> ('w, 'f) io_call"
  h_create_dir :: "string \<Rightarrow> ('w, unit) io_call"
  h_create_dir_all :: "string \<Rightarrow> ('w, unit) io_call"
  h_remove_file :: "string \<Rightarrow> ('w, unit) io_call"
  h_remove_dir :: "string \<Rightarrow> ('w, unit) io_call"
  h_rename :: "string \<Rightarrow> string \<Rightarrow> ('w, unit) io_call"
  h_hard_link :: "string \<Rightarrow> string \<Rightarrow> ('w, unit) io_call"
  h_symlink :: "bytes \<Rightarrow> string \<Rightarrow> ('w, unit) io_call"
  h_set_permissions :: "string \<Rightarrow> u32 \<Rightarrow> ('w, unit) io_call"
  h_chown :: "string \<Rightarrow> u32 \<Rightarrow> u32 \<Rightarrow> ('w, unit) call"
  h_lchown :: "string \<Rightarrow> u32 \<Rightarrow> u32 \<Rightarrow> ('w, unit) call"
  h_mknod :: "string \<Rightarrow> u32 \<Rightarrow> ('w, unit) call"
  h_setxattr :: "string \<Rightarrow> string \<Rightarrow> bytes \<Rightarrow> i32 \<Rightarrow> ('w, unit) call"
  h_removexattr :: "string \<Rightarrow> string \<Rightarrow> ('w, unit) call"
  hf_metadata :: "'f \<Rightarrow> 'w \<Rightarrow> io_error + Metadata"
  hf_try_clone :: "'f \<Rightarrow> ('w, 'f) io_call"
  hf_seek :: "'f \<Rightarrow> u64 \<Rightarrow> ('w, unit) io_call"
  hf_read :: "'f \<Rightarrow> nat \<Rightarrow> ('w, bytes) io_call"
  hf_write :: "'f \<Rightarrow> bytes \<Rightarrow> ('w, nat) io_call"
  hf_read_at :: "'f \<Rightarrow> nat \<Rightarrow> u64 \<Rightarrow> ('w, bytes) io_call"
  hf_write_at :: "'f \<Rightarrow> bytes \<Rightarrow> u64 \<Rightarrow> ('w, nat) io_call"
  hf_sync_all :: "'f \<Rightarrow> ('w, unit) io_call"
  hf_sync_data :: "'f \<Rightarrow> ('w, unit) io_call"
  hf_set_len :: "'f \<Rightarrow> u64 \<Rightarrow> ('w, unit) io_call"
  hf_fchmod :: "'f \<Rightarrow> u32 \<Rightarrow> ('w, unit) call"
  hf_fchown :: "'f \<Rightarrow> u32 \<Rightarrow> u32 \<Rightarrow> ('w, unit) call"
  hf_posix_fallocate :: "'f \<Rightarrow> i64 \<Rightarrow> i64 \<Rightarrow> ('w, unit) call"

text \<open>A host on which every call fails; concrete hosts are given as updates of it.\<close>

definition refusing_host :: "('f, 'w) host_fs" where
  "refusing_host =
    \<lparr>h_lossy = (\<lambda>s. s),
     h_symlink_metadata = (\<lambda>_ _. Err Custom),
     h_metadata = (\<lambda>_ _. Err Custom),
     h_read_dir = (\<lambda>_ _. Err Custom),
     h_read_link = (\<lambda>_ _. Err Custom),
     h_statvfs = (\<lambda>_ _. Err EIO),
     h_getxattr_len = (\<lambda>_ _ _. Err EIO),
     h_getxattr = (\<lambda>_ _ _ _. Err EIO),
     h_listxattr_len = (\<lambda>_ _. Err EIO),
     h_listxattr = (\<lambda>_ _ _. Err EIO),
     h_open = (\<lambda>_ _ w. (Err Custom, w)),
     h_create_dir = (\<lambda>_ w. (Err Custom, w)),
     h_create_dir_all = (\<lambda>_ w. (Err Custom, w)),
     h_remove_file = (\<lambda>_ w. (Err Custom, w)),
     h_remove_dir = (\<lambda>_ w. (Err Custom, w)),
     h_rename = (\<lambda>_ _ w. (Err Custom, w)),
     h_hard_link = (\<lambda>_ _ w. (Err Custom, w)),
     h_symlink = (\<lambda>_ _ w. (Err Custom, w)),
     h_set_permissions = (\<lambda>_ _ w. (Err Custom, w)),
     h_chown = (\<lambda>_ _ _ w. (Err EIO, w)),
     h_lchown = (\<lambda>_ _ _ w. (Err EIO, w)),
     h_mknod = (\<lambda>_ _ w. (Err EIO, w)),
     h_setxattr = (\<lambda>_ _ _ _ w. (Err EIO, w)),
     h_removexattr = (\<lambda>_ _ w. (Err EIO, w)),
     hf_metadata = (\<lambda>_ _. Err Custom),
     hf_try_clone = (\<lambda>_ w. (Err Custom, w)),
     hf_seek = (\<lambda>_ _ w. (Err Custom, w)),
     hf_read = (\<lambda>_ _ w. (Err Custom, w)),
     hf_write = (\<lambda>_ _ w. (Err Custom, w)),
     hf_read_at = (\<lambda>_ _ _ w. (Err Custom, w)),
     hf_write_at = (\<lambda>_ _ _ w. (Err Custom, w)),
     hf_sync_all = (\<lambda>_ w. (Err Custom, w)),
     hf_sync_data = (\<lambda>_ w. (Err Custom, w)),
     hf_set_len = (\<lambda>_ _ w. (Err Custom, w)),
     hf_fchmod = (\<lambda>_ _ w. (Err EIO, w)),
     hf_fchown = (\<lambda>_ _ _ w. (Err EIO, w)),
     hf_posix_fallocate = (\<lambda>_ _ _ w. (Err EIO, w))\<rparr>"

definition io_look :: "('w \<Rightarrow> io_error + 'a) \<Rightarrow> ('w, 'a) call" where
  "io_look f w = (map_err io_errno (f w), w)"

definition io_do :: "('w, 'a) io_call \<Rightarrow> ('w, 'a) call" where
  "io_do m w = (map_err io_errno (fst (m w)), snd (m w))"

section \<open>Helpers on the host\<close>

definition path_to_cstring :: "string \<Rightarrow> i32 + string" where
  "path_to_cstring p = (if contains_nul p then Err EIO else Ok p)"

definition dir_is_empty :: "('f, 'w) host_fs \<Rightarrow> string \<Rightarrow> ('w, bool) call" where
  "dir_is_empty h p =
    srv_bind (io_look (h_read_dir h p)) (\<lambda>entries. srv_give (Ok (entries = [])))"

definition apply_ownership :: "('f, 'w) host_fs \<Rightarrow> string \<Rightarrow> u32 \<Rightarrow> u32 \<Rightarrow> bool \<Rightarrow> ('w, unit) call" where
  "apply_ownership h p uid gid follow_symlink =
    srv_bind (srv_give (path_to_cstring p)) (\<lambda>cstr.
      if follow_symlink then h_chown h cstr uid gid else h_lchown h cstr uid gid)"

definition ensure_not_symlink :: "('f, 'w) host_fs \<Rightarrow> string \<Rightarrow> ('w, unit) call" where
  "ensure_not_symlink h p =
    srv_bind (io_look (h_symlink_metadata h p)) (\<lambda>meta.
      srv_give (if md_is_symlink meta then Err ELOOP else Ok ()))"

definition apply_mode_zero_fallocate :: "('f, 'w) host_fs \<Rightarrow> 'f \<Rightarrow> i64 \<Rightarrow> i64 \<Rightarrow> ('w, unit) call" where
  "apply_mode_zero_fallocate h file offset len =
    srv_bind (srv_give (checked_fallocate_end offset len)) (\<lambda>_.
      hf_posix_fallocate h file offset len)"

text \<open>What the source does for an argument that may be absent.\<close>

definition when_some :: "'a option \<Rightarrow> ('a \<Rightarrow> ('s, unit) call) \<Rightarrow> ('s, unit) call" where
  "when_some x f = (case x of None \<Rightarrow> srv_give (Ok ()) | Some a \<Rightarrow> f a)"

definition apply_handle_setattr :: "('f, 'w) host_fs \<Rightarrow> 'f \<Rightarrow> u32 \<Rightarrow> u32 option \<Rightarrow> u32 option
    \<Rightarrow> u32 option \<Rightarrow> u64 option \<Rightarrow> FuseContext \<Rightarrow> ('w, Stat) call" where
  "apply_handle_setattr h file access_bits mode uid gid n ctx =
    srv_bind (io_look (hf_metadata h file)) (\<lambda>meta.
    srv_bind (srv_give (if mode \<noteq> None then ensure_owner_or_root meta (ctx_uid ctx) else Ok ())) (\<lambda>_.
    srv_bind (srv_give (if uid \<noteq> None \<or> gid \<noteq> None
        then ensure_setattr_ownership_allowed meta (ctx_uid ctx) (ctx_gid ctx) uid gid else Ok ())) (\<lambda>_.
    srv_bind (srv_give (if n \<noteq> None \<and> access_bits AND 2 = 0 then Err EBADF else Ok ())) (\<lambda>_.
    srv_bind (when_some n (\<lambda>n. io_do (hf_set_len h file n))) (\<lambda>_.
    srv_bind (when_some mode (\<lambda>mode. hf_fchmod h file mode)) (\<lambda>_.
    srv_bind (if uid \<noteq> None \<or> gid \<noteq> None
        then hf_fchown h file (case uid of None \<Rightarrow> - 1 | Some u \<Rightarrow> u) (case gid of None \<Rightarrow> - 1 | Some g \<Rightarrow> g)
        else srv_give (Ok ())) (\<lambda>_.
    srv_bind (io_look (hf_metadata h file)) (\<lambda>meta.
    srv_give (Ok (metadata_to_stat meta))))))))))"

end
