(* ===== verification/ServerPaths.thy ===== *)
theory ServerPaths
  imports ServerHost FsPath
begin

text \<open>
  Paths on the server, \<open>fabricfs-server/src/server/paths.rs\<close>, with the operations of
  \<open>std::path\<close> they use: the components of a path, its parent, and the joining of a
  relative path to a root. The lemmas show what normalization returns, that a valid
  path of the protocol is its own normal form, and that a normalized path joined to a
  root stays below it.
\<close>

section \<open>Paths of the standard library\<close>

datatype Component = RootDir | CurDir | ParentDir | Normal string

definition named_components :: "string list \<Rightarrow> Component list" where
  "named_components pieces =
    map (\<lambda>w. if w = ''..'' then ParentDir else Normal w)
      (filter (\<lambda>w. w \<noteq> [] \<and> w \<noteq> ''.'') pieces)"

text \<open>
  Empty pieces are skipped, and so are pieces that are a dot, except at the start of a
  relative path.
\<close>

definition components :: "string \<Rightarrow> Component list" where
  "components p =
    (let pieces = split_char (CHR ''/'') p
     in (if starts_with_char (CHR ''/'') p then [RootDir]
         else if hd pieces = ''.'' then [CurDir] else []) @ named_components pieces)"

definition trim_pieces :: "string list \<Rightarrow> string list" where
  "trim_pieces ws = rev (dropWhile (\<lambda>w. w = [] \<or> w = ''.'') (rev ws))"

text \<open>
  \<open>Path::parent\<close>: everything before the last component, without the separators and
  dots that follow it; a path without a name has no parent.
\<close>

definition path_parent :: "string \<Rightarrow> string option" where
  "path_parent p =
    (let pieces = split_char (CHR ''/'') p; body = trim_pieces (tl pieces);
         rest = trim_pieces (butlast body)
     in if hd pieces = []
        then if body = [] then None
          else Some (if rest = [] then ''/'' else CHR ''/'' # join_char (CHR ''/'') rest)
        else Some (if body = [] then [] else join_char (CHR ''/'') (hd pieces # rest)))"

definition path_join :: "string \<Rightarrow> string \<Rightarrow> string" where
  "path_join base p =
    (if starts_with_char (CHR ''/'') p then p
     else if base = [] \<or> last base = CHR ''/'' then base @ p else base @ CHR ''/'' # p)"

definition trim_start_char :: "char \<Rightarrow> string \<Rightarrow> string" where
  "trim_start_char c s = dropWhile (\<lambda>x. x = c) s"

definition trim_end_char :: "char \<Rightarrow> string \<Rightarrow> string" where
  "trim_end_char c s = rev (dropWhile (\<lambda>x. x = c) (rev s))"

section \<open>Paths of the server\<close>

fun normalize_component :: "string list \<Rightarrow> Component \<Rightarrow> string list" where
  "normalize_component parts RootDir = parts"
| "normalize_component parts CurDir = parts"
| "normalize_component parts ParentDir = butlast parts"
| "normalize_component parts (Normal seg) = parts @ [seg]"

definition normalize_path :: "string \<Rightarrow> i32 + string" where
  "normalize_path p =
    (let parts = foldl normalize_component [] (components (if p = [] then ''/'' else p))
     in Ok (if parts = [] then ''/'' else CHR ''/'' # join_char (CHR ''/'') parts))"

definition strip_root :: "string \<Rightarrow> string" where
  "strip_root p = trim_end_char (CHR ''/'') (trim_start_char (CHR ''/'') p)"

definition append_rel :: "string \<Rightarrow> string \<Rightarrow> string" where
  "append_rel base name =
    (if base = ''/'' then CHR ''/'' # name
     else trim_end_char (CHR ''/'') base @ CHR ''/'' # name)"

definition parent_rel :: "string \<Rightarrow> string" where
  "parent_rel rel =
    (case path_parent rel of None \<Rightarrow> ''/'' | Some s \<Rightarrow> if s = [] then ''/'' else s)"

fun search_each :: "(string \<Rightarrow> ('s, unit) call) \<Rightarrow> string \<Rightarrow> string list \<Rightarrow> ('s, unit) call" where
  "search_each allowed current [] = srv_give (Ok ())"
| "search_each allowed current (w # ws) =
    (let current = append_rel current w
     in srv_bind (allowed current) (\<lambda>_. search_each allowed current ws))"

definition ensure_parent_search_allowed :: "string \<Rightarrow> (string \<Rightarrow> ('s, unit) call) \<Rightarrow> ('s, unit) call" where
  "ensure_parent_search_allowed rel allowed =
    srv_bind (allowed ''/'') (\<lambda>_.
      search_each allowed ''/''
        (filter (\<lambda>part. part \<noteq> []) (split_char (CHR ''/'') (strip_root (parent_rel rel)))))"

definition require_context :: "FuseContext option \<Rightarrow> i32 + FuseContext" where
  "require_context ctx = ok_or EINVAL ctx"

section \<open>Normal forms\<close>

abbreviation slash :: char where "slash \<equiv> CHR ''/''"

text \<open>A name that a normalized path can have: any but the empty one and the dots.\<close>

definition plain_name :: "string \<Rightarrow> bool" where
  "plain_name w \<longleftrightarrow> w \<noteq> [] \<and> w \<noteq> ''.'' \<and> w \<noteq> ''..'' \<and> slash \<notin> set w"

definition normal_names :: "string \<Rightarrow> string list" where
  "normal_names p = foldl normalize_component [] (components p)"

lemma components_Nil [simp]: "components [] = []"
  by (simp add: components_def named_components_def)

lemma normalize_path_eq: "normalize_path p = Ok (render_path (normal_names p))"
proof -
  have "normal_names ''/'' = []"
    by (simp add: normal_names_def components_def named_components_def)
  then show ?thesis
    by (simp add: normalize_path_def normal_names_def render_path_def Let_def)
qed

lemma Normal_components: "Normal w \<in> set (components p) \<Longrightarrow> plain_name w"
  by (auto simp: components_def named_components_def plain_name_def Let_def
      dest: split_char_pieces split: if_splits)

lemma foldl_normalize_plain:
  assumes "\<And>w. Normal w \<in> set cs \<Longrightarrow> plain_name w" "\<forall>w \<in> set parts. plain_name w"
  shows "\<forall>w \<in> set (foldl normalize_component parts cs). plain_name w"
  using assms
proof (induction cs arbitrary: parts)
  case (Cons c cs)
  have "\<forall>w \<in> set (normalize_component parts c). plain_name w"
    using Cons.prems by (cases c) (auto dest: in_set_butlastD)
  with Cons show ?case by simp
qed simp

lemma normal_names_plain: "w \<in> set (normal_names p) \<Longrightarrow> plain_name w"
  using foldl_normalize_plain [of "components p" "[]"] Normal_components
  by (auto simp: normal_names_def)

lemma plain_names_components:
  assumes "\<forall>w \<in> set ws. plain_name w"
  shows "named_components ws = map Normal ws"
  using assms by (induction ws) (auto simp: named_components_def plain_name_def)

lemma split_render:
  assumes "\<forall>w \<in> set ws. plain_name w"
  shows "split_char slash (render_path ws) = [] # (if ws = [] then [[]] else ws)"
  using assms by (auto simp: render_path_def plain_name_def split_join_char)

lemma components_render:
  assumes "\<forall>w \<in> set ws. plain_name w"
  shows "components (render_path ws) = RootDir # map Normal ws"
  using plain_names_components [OF assms] split_render [OF assms]
  by (auto simp: components_def named_components_def render_path_def)

lemma foldl_Normal: "foldl normalize_component parts (map Normal ws) = parts @ ws"
  by (induction ws arbitrary: parts) auto

lemma normal_names_render [simp]:
  assumes "\<forall>w \<in> set ws. plain_name w"
  shows "normal_names (render_path ws) = ws"
  by (simp add: normal_names_def components_render [OF assms] foldl_Normal)

lemma normalize_idem: "normalize_path p = Ok rel \<Longrightarrow> normalize_path rel = Ok rel"
  using normal_names_plain [of _ p] by (auto simp: normalize_path_eq)

lemma good_plain: "good_component c \<Longrightarrow> plain_name c"
  by (simp add: good_component_def plain_name_def)

lemma normalize_valid: "valid_path p \<Longrightarrow> normalize_path p = Ok p"
proof -
  assume "valid_path p"
  from valid_path_components [OF this]
  have "\<forall>w \<in> set (path_components p). plain_name w" "render_path (path_components p) = p"
    using good_plain by blast+
  with normal_names_render [of "path_components p"] show ?thesis by (simp add: normalize_path_eq)
qed

section \<open>Parents and roots\<close>

lemma trim_pieces_plain: "\<forall>w \<in> set ws. plain_name w \<Longrightarrow> trim_pieces ws = ws"
  by (cases ws rule: rev_cases) (auto simp: trim_pieces_def plain_name_def)

lemma parent_rel_render:
  assumes "\<forall>w \<in> set ws. plain_name w"
  shows "parent_rel (render_path ws) = render_path (butlast ws)"
proof (cases "ws = []")
  case True
  then show ?thesis by (simp add: parent_rel_def path_parent_def render_path_def trim_pieces_def)
next
  case False
  have "\<forall>w \<in> set (butlast ws). plain_name w" using assms by (auto dest: in_set_butlastD)
  with assms False split_render [OF assms] show ?thesis
    by (simp add: parent_rel_def path_parent_def trim_pieces_plain Let_def) (simp add: render_path_def)
qed

lemma trim_start_render: "\<forall>w \<in> set ws. plain_name w \<Longrightarrow>
    trim_start_char slash (render_path ws) = join_char slash ws"
proof -
  assume "\<forall>w \<in> set ws. plain_name w"
  then have "dropWhile (\<lambda>x. x = slash) (join_char slash ws) = join_char slash ws"
  proof (cases ws)
    case (Cons w ws')
    moreover from this \<open>\<forall>w \<in> set ws. plain_name w\<close> obtain x w' where "w = x # w'" "x \<noteq> slash"
      by (cases w) (auto simp: plain_name_def)
    ultimately show ?thesis by (cases ws') auto
  qed simp
  then show ?thesis by (simp add: trim_start_char_def render_path_def)
qed

lemma last_join_plain: "\<forall>w \<in> set ws. plain_name w \<Longrightarrow> ws \<noteq> [] \<Longrightarrow>
    join_char slash ws \<noteq> [] \<and> last (join_char slash ws) \<noteq> slash"
proof (induction slash ws rule: join_char.induct)
  case (2 w)
  then have "w \<noteq> []" "last w \<in> set w" "slash \<notin> set w" by (auto simp: plain_name_def)
  then show ?case by (metis join_char.simps(2))
qed auto

lemma trim_end_plain: "s = [] \<or> last s \<noteq> c \<Longrightarrow> trim_end_char c s = s"
  by (cases s rule: rev_cases) (auto simp: trim_end_char_def)

lemma strip_root_render:
  assumes "\<forall>w \<in> set ws. plain_name w"
  shows "strip_root (render_path ws) = join_char slash ws"
  using trim_start_render [OF assms] last_join_plain [OF assms]
  by (cases "ws = []") (auto simp: strip_root_def trim_end_plain)

lemma named_components_append: "named_components (a @ b) = named_components a @ named_components b"
  by (simp add: named_components_def)

lemma starts_with_char_append: "s \<noteq> [] \<Longrightarrow> starts_with_char c (s @ t) = starts_with_char c s"
  by (cases s) auto

lemma components_join:
  assumes base: "base \<noteq> []" and ws: "\<forall>w \<in> set ws. plain_name w"
  shows "components (path_join base (join_char slash ws)) = components base @ map Normal ws"
proof -
  let ?t = "join_char slash ws"
  have abs: "\<not> starts_with_char slash ?t"
  proof (cases ws)
    case (Cons w ws')
    with ws obtain x w' where "w = x # w'" "x \<noteq> slash" by (cases w) (auto simp: plain_name_def)
    with Cons show ?thesis by (cases ws') auto
  qed simp
  have t: "named_components (split_char slash ?t) = map Normal ws"
  proof (cases "ws = []")
    case False
    with ws have "split_char slash ?t = ws" by (intro split_join_char) (auto simp: plain_name_def)
    with plain_names_components [OF ws] show ?thesis by simp
  qed (simp add: named_components_def)
  have hd: "hd (split_char slash u @ ws) = hd (split_char slash u)" for u ws by (simp add: hd_append)
  show ?thesis
  proof (cases "last base = slash")
    case True
    then obtain u where u: "base = u @ [slash]" using base by (metis append_butlast_last_id)
    have "split_char slash (base @ ?t) = split_char slash u @ split_char slash ?t"
      "split_char slash base = split_char slash u @ [[]]"
      using split_char_append [of slash u ?t] split_char_append [of slash u "[]"] u by simp_all
    moreover have "named_components [[]] = []" by (simp add: named_components_def)
    ultimately show ?thesis
      using True base abs t
      by (simp add: path_join_def components_def named_components_append hd starts_with_char_append Let_def)
  next
    case False
    then show ?thesis
      using base abs t
      by (simp add: path_join_def components_def named_components_append hd split_char_append
          starts_with_char_append Let_def)
  qed
qed

end
