(* ===== verification/InodeMap.thy ===== *)
theory InodeMap
  imports ServerPaths FuseCache
begin

text \<open>
  The inode numbers of the server, after \<open>fabricfs-server/src/service/inode_map.rs\<close>: a
  map from paths to inode numbers, the identity (device and host inode) last seen at a
  path, and the inode number of each identity that some path still has. The theorems show
  that a path keeps its number until it is removed or renamed, that numbers are not used
  twice, that a new name of a known file gets the number of the file, that a rename moves
  the numbers of a subtree the way the path cache of the client moves them, and that no
  identity outlives its last path.
\<close>

record FileIdentity =
  fi_dev :: u64
  fi_ino :: u64

definition identity_from_stat :: "Stat \<Rightarrow> FileIdentity" where
  "identity_from_stat stat = \<lparr>fi_dev = st_dev stat, fi_ino = st_ino stat\<rparr>"

record InodeMap =
  im_by_path :: "(string, u64) hash_map"
  im_identity_by_path :: "(string, FileIdentity) hash_map"
  im_by_identity :: "(FileIdentity, u64) hash_map"
  im_next_inode :: u64

definition InodeMap_new :: InodeMap where
  "InodeMap_new = \<lparr>im_by_path = [(''/'', 1)], im_identity_by_path = [], im_by_identity = [], im_next_inode = 2\<rparr>"

definition inode_normalize_path :: "string \<Rightarrow> string" where
  "inode_normalize_path p =
    (if p = ''/'' then ''/'' else CHR ''/'' # trim_end_char (CHR ''/'') (trim_start_char (CHR ''/'') p))"

definition allocate_inode :: "InodeMap \<Rightarrow> u64 \<times> InodeMap" where
  "allocate_inode m =
    (im_next_inode m, m\<lparr>im_next_inode := max (saturating_add (im_next_inode m) 1) 2\<rparr>)"

definition set_path_identity :: "string \<Rightarrow> u64 \<Rightarrow> FileIdentity \<Rightarrow> InodeMap \<Rightarrow> InodeMap" where
  "set_path_identity p inode identity m =
    (let previous = hm_get (im_identity_by_path m) p;
         m = m\<lparr>im_identity_by_path := hm_insert p identity (im_identity_by_path m)\<rparr>;
         m = (case previous of
                None \<Rightarrow> m
              | Some previous \<Rightarrow>
                  if previous \<noteq> identity \<and> \<not> (\<exists>(q, cached) \<in> set (im_identity_by_path m). cached = previous)
                  then m\<lparr>im_by_identity := hm_remove previous (im_by_identity m)\<rparr> else m)
     in m\<lparr>im_by_identity := hm_insert identity inode (im_by_identity m)\<rparr>)"

definition retain_live_identities :: "InodeMap \<Rightarrow> InodeMap" where
  "retain_live_identities m =
    (let live = map snd (im_identity_by_path m)
     in m\<lparr>im_by_identity := hm_retain (\<lambda>identity _. identity \<in> set live) (im_by_identity m)\<rparr>)"

definition inode_for :: "string \<Rightarrow> FileIdentity option \<Rightarrow> InodeMap \<Rightarrow> u64 \<times> InodeMap" where
  "inode_for p identity m =
    (let p = inode_normalize_path p
     in if p = ''/''
        then (1, case identity of None \<Rightarrow> m | Some identity \<Rightarrow> set_path_identity p 1 identity m)
        else case identity of
          Some identity \<Rightarrow>
            (case hm_get (im_by_path m) p of
               Some inode \<Rightarrow> (inode, set_path_identity p inode identity m)
             | None \<Rightarrow>
                (case hm_get (im_by_identity m) identity of
                   Some inode \<Rightarrow>
                     (inode, set_path_identity p inode identity (m\<lparr>im_by_path := hm_insert p inode (im_by_path m)\<rparr>))
                 | None \<Rightarrow>
                     (case allocate_inode m of (inode, m) \<Rightarrow>
                       (inode, set_path_identity p inode identity (m\<lparr>im_by_path := hm_insert p inode (im_by_path m)\<rparr>)))))
        | None \<Rightarrow>
            (case hm_get (im_by_path m) p of
               Some inode \<Rightarrow> (inode, m)
             | None \<Rightarrow>
                (case allocate_inode m of (inode, m) \<Rightarrow>
                  (inode, m\<lparr>im_by_path := hm_insert p inode (im_by_path m)\<rparr>))))"

text \<open>The cached paths at or below a path, with the rest of each.\<close>

definition cached_below :: "string \<Rightarrow> string \<Rightarrow> string option" where
  "cached_below root p =
    (case str_strip_prefix p root of
       None \<Rightarrow> None
     | Some rest \<Rightarrow> if rest = [] \<or> starts_with_char (CHR ''/'') rest then Some rest else None)"

definition forget_path :: "string \<Rightarrow> InodeMap \<Rightarrow> InodeMap" where
  "forget_path cached m =
    m\<lparr>im_by_path := hm_remove cached (im_by_path m), im_identity_by_path := hm_remove cached (im_identity_by_path m)\<rparr>"

definition inode_remove_path :: "string \<Rightarrow> InodeMap \<Rightarrow> InodeMap" where
  "inode_remove_path p m =
    (let p = inode_normalize_path p;
         removed = filter (\<lambda>cached. cached_below p cached \<noteq> None) (hm_keys (im_by_path m));
         m = retain_live_identities (fold forget_path removed m)
     in m\<lparr>im_by_path := hm_insert ''/'' 1 (im_by_path m)\<rparr>)"

definition moved_paths :: "string \<Rightarrow> string \<Rightarrow> (string, u64) hash_map \<Rightarrow> (string \<times> u64 \<times> string) list" where
  "moved_paths old_path new_path by_path =
    List.map_filter (\<lambda>(p, inode). map_option (\<lambda>rest. (p, inode, new_path @ rest)) (cached_below old_path p)) by_path"

definition move_path :: "string \<times> u64 \<times> string \<Rightarrow> InodeMap \<Rightarrow> InodeMap" where
  "move_path = (\<lambda>(old, inode, new) m.
    let identity = hm_get (im_identity_by_path m) old;
        m = m\<lparr>im_identity_by_path := hm_remove old (im_identity_by_path m),
              im_by_path := hm_insert new inode (hm_remove old (im_by_path m))\<rparr>
    in case identity of
         None \<Rightarrow> m
       | Some identity \<Rightarrow> m\<lparr>im_identity_by_path := hm_insert new identity (im_identity_by_path m)\<rparr>)"

definition inode_rename_path :: "string \<Rightarrow> string \<Rightarrow> InodeMap \<Rightarrow> InodeMap" where
  "inode_rename_path old_path new_path m =
    (let old_path = inode_normalize_path old_path;
         new_path = inode_normalize_path new_path;
         m = inode_remove_path new_path m
     in fold move_path (moved_paths old_path new_path (im_by_path m)) m)"

section \<open>The invariant\<close>

definition numbered :: "InodeMap \<Rightarrow> u64 \<Rightarrow> bool" where
  "numbered m i \<longleftrightarrow> i \<noteq> 0 \<and> (i < im_next_inode m \<or> im_next_inode m = - 1)"

text \<open>
  The root has number 1, every number has been given out, an identity
  belongs to a cached path, and the identities with a number are those of the paths.
\<close>

definition inode_map_ok :: "InodeMap \<Rightarrow> bool" where
  "inode_map_ok m \<longleftrightarrow> hm_wf (im_by_path m) \<and> hm_wf (im_identity_by_path m) \<and> hm_wf (im_by_identity m)
    \<and> 2 \<le> im_next_inode m
    \<and> hm_get (im_by_path m) ''/'' = Some 1
    \<and> (\<forall>p i. hm_get (im_by_path m) p = Some i \<longrightarrow> numbered m i)
    \<and> (\<forall>identity i. hm_get (im_by_identity m) identity = Some i \<longrightarrow> numbered m i)
    \<and> dom (hm_get (im_identity_by_path m)) \<subseteq> dom (hm_get (im_by_path m))
    \<and> dom (hm_get (im_by_identity m)) = ran (hm_get (im_identity_by_path m))"

lemma inode_map_ok_new: "inode_map_ok InodeMap_new"
  by (simp add: InodeMap_new_def inode_map_ok_def numbered_def hm_wf_def)

lemma ran_hm_get: "hm_wf m \<Longrightarrow> ran (hm_get m) = snd ` set m"
  by (force simp: ran_def hm_get_iff)

lemma live_iff: "hm_wf m \<Longrightarrow> (\<exists>(q, c) \<in> set m. c = x) \<longleftrightarrow> x \<in> ran (hm_get m)"
  by (force simp: ran_hm_get)

lemma set_path_identity_fields [simp]:
  "im_by_path (set_path_identity p i identity m) = im_by_path m"
  "im_next_inode (set_path_identity p i identity m) = im_next_inode m"
  "im_identity_by_path (set_path_identity p i identity m) = hm_insert p identity (im_identity_by_path m)"
  by (simp_all add: set_path_identity_def Let_def split: option.split)

lemma set_path_identity_numbered [simp]: "numbered (set_path_identity p i identity m) = numbered m"
  by (simp add: numbered_def fun_eq_iff)

lemma by_identity_set_path_identity:
  assumes "hm_wf (im_identity_by_path m)"
  shows "hm_get (im_by_identity (set_path_identity p i identity m)) x =
    (if x = identity then Some i
     else if hm_get (im_identity_by_path m) p = Some x \<and> x \<notin> ran ((hm_get (im_identity_by_path m))(p \<mapsto> identity)) then None
     else hm_get (im_by_identity m) x)"
  using live_iff [of "hm_insert p identity (im_identity_by_path m)"] assms
  by (auto simp: set_path_identity_def Let_def split: option.split)

lemma set_path_identity_ok:
  assumes "inode_map_ok m" "hm_get (im_by_path m) p = Some i"
  shows "inode_map_ok (set_path_identity p i identity m)"
proof -
  let ?I = "hm_get (im_identity_by_path m)"
  note ok = assms(1) [unfolded inode_map_ok_def]
  have w: "hm_wf (im_identity_by_path m)" using ok by simp
  have wf: "hm_wf (im_by_identity (set_path_identity p i identity m))"
    using ok by (simp add: set_path_identity_def Let_def split: option.split)
  have "x \<in> dom (hm_get (im_by_identity (set_path_identity p i identity m))) \<longleftrightarrow> x \<in> ran (?I(p \<mapsto> identity))" for x
  proof -
    have d: "hm_get (im_by_identity m) x = None \<longleftrightarrow> x \<notin> ran ?I" using ok by (metis domIff)
    have "x \<in> ran (?I(p \<mapsto> identity)) \<longleftrightarrow> x = identity \<or> (\<exists>q. q \<noteq> p \<and> ?I q = Some x)"
      by (auto simp: ran_def)
    moreover have "x \<in> ran ?I \<longleftrightarrow> ?I p = Some x \<or> (\<exists>q. q \<noteq> p \<and> ?I q = Some x)"
      by (auto simp: ran_def)
    ultimately show ?thesis
      using d by (auto simp: by_identity_set_path_identity [OF w] dom_def)
  qed
  then have dom: "dom (hm_get (im_by_identity (set_path_identity p i identity m))) = ran (?I(p \<mapsto> identity))"
    by blast
  have "numbered m j" if "hm_get (im_by_identity (set_path_identity p i identity m)) x = Some j" for x j
    using that ok assms(2) by (auto simp: by_identity_set_path_identity [OF w] split: if_splits)
  then show ?thesis
    using ok wf dom assms(2) by (auto simp: inode_map_ok_def)
qed

lemma max_saturating [simp]: "2 \<le> n \<Longrightarrow> max (saturating_add n 1) 2 = saturating_add n (1 :: u64)"
  using unat_saturating_add [of n 1] by (auto simp: max_def word_le_nat_alt)

lemma numbered_mono:
  assumes "numbered m i" "im_next_inode m' = saturating_add (im_next_inode m) 1"
  shows "numbered m' i"
proof (cases "im_next_inode m = - 1")
  case True
  then show ?thesis using assms by (simp add: numbered_def saturating_add_def unat_max_word)
next
  case False
  have "unat (im_next_inode m') = min (unat (im_next_inode m) + 1) (2 ^ 64 - 1)"
    using unat_saturating_add [of "im_next_inode m" 1] assms(2) by simp
  moreover have "unat (im_next_inode m) < 2 ^ 64" by (rule order_less_le_trans [OF unsigned_less]) simp
  moreover have "unat i < unat (im_next_inode m)"
    using assms(1) False by (auto simp: numbered_def word_less_nat_alt)
  ultimately show ?thesis using assms(1) by (auto simp: numbered_def word_less_nat_alt min_def)
qed

lemma numbered_new:
  assumes "2 \<le> im_next_inode m" "im_next_inode m' = saturating_add (im_next_inode m) 1"
  shows "numbered m' (im_next_inode m)"
proof -
  have n: "im_next_inode m \<noteq> 0" using assms(1) by auto
  show ?thesis
  proof (cases "unat (im_next_inode m) + 1 < 2 ^ 64 - 1")
    case True
    then have "unat (im_next_inode m') = unat (im_next_inode m) + 1"
      using unat_saturating_add [of "im_next_inode m" 1] assms(2) by simp
    with n show ?thesis by (simp add: numbered_def word_less_nat_alt)
  next
    case False
    then have "unat (im_next_inode m') = 2 ^ 64 - 1"
      using unat_saturating_add [of "im_next_inode m" 1] assms(2) by simp
    then have "im_next_inode m' = - 1" using unat_max_word by (metis word_unat_eq_iff)
    with n show ?thesis by (simp add: numbered_def)
  qed
qed

text \<open>A path gets a number that has been given out, or the next one.\<close>

lemma insert_path_ok:
  assumes "inode_map_ok m" "numbered m i" "p \<noteq> ''/''"
  shows "inode_map_ok (m\<lparr>im_by_path := hm_insert p i (im_by_path m)\<rparr>)"
  using assms by (auto simp: inode_map_ok_def numbered_def)

lemma next_inode_ok:
  assumes "inode_map_ok m" "p \<noteq> ''/''"
  shows "inode_map_ok (m\<lparr>im_next_inode := saturating_add (im_next_inode m) 1,
    im_by_path := hm_insert p (im_next_inode m) (im_by_path m)\<rparr>)"
proof -
  let ?m = "m\<lparr>im_next_inode := saturating_add (im_next_inode m) 1\<rparr>"
  have n: "2 \<le> im_next_inode m" using assms(1) by (simp add: inode_map_ok_def)
  have "2 \<le> saturating_add (im_next_inode m) 1"
    using n unat_saturating_add [of "im_next_inode m" 1] by (simp add: word_le_nat_alt)
  then have "inode_map_ok ?m"
    using assms(1) numbered_mono [of m _ ?m] by (simp add: inode_map_ok_def)
  from insert_path_ok [OF this numbered_new [OF n] assms(2)] show ?thesis by simp
qed

lemma inode_for_ok:
  assumes "inode_map_ok m"
  shows "inode_map_ok (snd (inode_for p identity m))"
proof -
  let ?p = "inode_normalize_path p"
  have n: "2 \<le> im_next_inode m" "hm_get (im_by_path m) ''/'' = Some 1"
    using assms by (simp_all add: inode_map_ok_def)
  have "inode_map_ok (set_path_identity ?p i y (m\<lparr>im_by_path := hm_insert ?p i (im_by_path m)\<rparr>))"
    if "hm_get (im_by_identity m) y = Some i" "?p \<noteq> ''/''" for i y
    using insert_path_ok [OF assms _ that(2)] that(1) assms
    by (intro set_path_identity_ok) (auto simp: inode_map_ok_def)
  moreover have "inode_map_ok (set_path_identity ?p (im_next_inode m) y (m\<lparr>im_next_inode := saturating_add (im_next_inode m) 1,
      im_by_path := hm_insert ?p (im_next_inode m) (im_by_path m)\<rparr>))" if "?p \<noteq> ''/''" for y
    using next_inode_ok [OF assms that] by (intro set_path_identity_ok) auto
  ultimately show ?thesis
    using assms n next_inode_ok [OF assms]
    by (auto simp: inode_for_def Let_def allocate_inode_def set_path_identity_ok split: option.split)
qed

section \<open>Removal\<close>

lemma cached_below_Some: "cached_below root p = Some rest \<longleftrightarrow> p = root @ rest \<and> (rest = [] \<or> starts_with_char slash rest)"
  by (auto simp: cached_below_def str_strip_prefix_None str_strip_prefix_iff split: option.splits if_splits)

lemma retain_live_get:
  assumes "hm_wf (im_identity_by_path m)" "hm_wf (im_by_identity m)"
  shows "hm_get (im_by_identity (retain_live_identities m)) =
    (\<lambda>x. if x \<in> ran (hm_get (im_identity_by_path m)) then hm_get (im_by_identity m) x else None)"
  using assms by (auto simp: retain_live_identities_def Let_def hm_get_retain ran_hm_get fun_eq_iff split: option.split)

lemma cached_below_root: "cached_below ''/'' ''/'' = Some []"
  by (simp add: cached_below_Some)

lemma fold_forget_fields:
  "hm_get (im_by_path (fold forget_path ps m)) = (\<lambda>q. if q \<in> set ps then None else hm_get (im_by_path m) q)"
  "hm_get (im_identity_by_path (fold forget_path ps m)) = (\<lambda>q. if q \<in> set ps then None else hm_get (im_identity_by_path m) q)"
  "im_by_identity (fold forget_path ps m) = im_by_identity m"
  "im_next_inode (fold forget_path ps m) = im_next_inode m"
  "hm_wf (im_by_path m) \<Longrightarrow> hm_wf (im_by_path (fold forget_path ps m))"
  "hm_wf (im_identity_by_path m) \<Longrightarrow> hm_wf (im_identity_by_path (fold forget_path ps m))"
  by (induction ps arbitrary: m) (auto simp: forget_path_def fun_eq_iff)

lemma remove_path_fields:
  fixes p
  assumes "inode_map_ok m"
  defines "m' \<equiv> inode_remove_path p m"
  shows "hm_get (im_by_path m') = (\<lambda>q. if q = ''/'' then Some 1
      else if cached_below (inode_normalize_path p) q \<noteq> None then None else hm_get (im_by_path m) q)"
    "hm_get (im_identity_by_path m') = (\<lambda>q. if cached_below (inode_normalize_path p) q \<noteq> None then None
      else hm_get (im_identity_by_path m) q)"
    "hm_get (im_by_identity m') = (\<lambda>x. if x \<in> ran (hm_get (im_identity_by_path m')) then hm_get (im_by_identity m) x else None)"
    "im_next_inode m' = im_next_inode m"
    "hm_wf (im_by_path m')" "hm_wf (im_identity_by_path m')" "hm_wf (im_by_identity m')"
proof -
  let ?gone = "filter (\<lambda>q. cached_below (inode_normalize_path p) q \<noteq> None) (hm_keys (im_by_path m))"
  let ?m = "fold forget_path ?gone m"
  note ok = assms(1) [unfolded inode_map_ok_def]
  have eq: "m' = retain_live_identities ?m\<lparr>im_by_path := hm_insert ''/'' 1 (im_by_path ?m)\<rparr>"
    by (simp add: m'_def inode_remove_path_def Let_def retain_live_identities_def)
  have keys: "set (hm_keys (im_by_path m)) = dom (hm_get (im_by_path m))"
    by (simp add: hm_keys_def dom_map_of_conv_image_fst)
  show "hm_get (im_by_path m') = (\<lambda>q. if q = ''/'' then Some 1
      else if cached_below (inode_normalize_path p) q \<noteq> None then None else hm_get (im_by_path m) q)"
    using keys by (auto simp: eq retain_live_identities_def fold_forget_fields fun_eq_iff)
  show i: "hm_get (im_identity_by_path m') = (\<lambda>q. if cached_below (inode_normalize_path p) q \<noteq> None then None
      else hm_get (im_identity_by_path m) q)"
  proof
    fix q
    have "hm_get (im_by_path m) q = None \<Longrightarrow> hm_get (im_identity_by_path m) q = None"
      using ok by (metis domIff subsetD)
    then show "hm_get (im_identity_by_path m') q = (if cached_below (inode_normalize_path p) q \<noteq> None then None
      else hm_get (im_identity_by_path m) q)"
      using keys by (auto simp: eq retain_live_identities_def Let_def fold_forget_fields domIff)
  qed
  have w: "hm_wf (im_identity_by_path ?m)" "hm_wf (im_by_identity ?m)" "hm_wf (im_by_path ?m)"
    using ok by (simp_all add: fold_forget_fields)
  have "hm_get (im_identity_by_path m') = hm_get (im_identity_by_path ?m)"
    by (simp add: eq retain_live_identities_def Let_def)
  then show "hm_get (im_by_identity m') = (\<lambda>x. if x \<in> ran (hm_get (im_identity_by_path m')) then hm_get (im_by_identity m) x else None)"
    using retain_live_get [OF w(1,2)] by (simp add: eq fold_forget_fields(3) cong: if_cong)
  show "im_next_inode m' = im_next_inode m" "hm_wf (im_by_path m')" "hm_wf (im_identity_by_path m')" "hm_wf (im_by_identity m')"
    using w by (simp_all add: eq retain_live_identities_def Let_def fold_forget_fields)
qed

lemma remove_path_ok:
  assumes "inode_map_ok m"
  shows "inode_map_ok (inode_remove_path p m)"
proof -
  note ok = assms [unfolded inode_map_ok_def]
  note f = remove_path_fields [OF assms, of p]
  have num: "numbered (inode_remove_path p m) = numbered m" by (simp add: numbered_def fun_eq_iff f(4))
  have "numbered m 1" using ok by blast
  have "ran (hm_get (im_identity_by_path (inode_remove_path p m))) \<subseteq> ran (hm_get (im_identity_by_path m))"
    by (auto simp: f(2) ran_def split: if_splits)
  then have "dom (hm_get (im_by_identity (inode_remove_path p m))) = ran (hm_get (im_identity_by_path (inode_remove_path p m)))"
    using ok by (auto simp: f(3) dom_def split: if_splits)
  moreover have "dom (hm_get (im_identity_by_path (inode_remove_path p m))) \<subseteq> dom (hm_get (im_by_path (inode_remove_path p m)))"
    using ok by (fastforce simp: f(1,2) split: if_splits)
  moreover have "hm_get (im_by_identity (inode_remove_path p m)) x = Some i \<Longrightarrow> numbered m i" for x i
    using ok by (auto simp: f(3) split: if_splits)
  moreover have "hm_get (im_by_path (inode_remove_path p m)) q = Some i \<Longrightarrow> numbered m i" for q i
    using ok \<open>numbered m 1\<close> by (auto simp: f(1) split: if_splits)
  ultimately show ?thesis
    using ok f(4-7) by (simp add: inode_map_ok_def num f(1))
qed

section \<open>Renames\<close>

lemma move_path_fields [simp]:
  "im_by_identity (move_path e m) = im_by_identity m" "im_next_inode (move_path e m) = im_next_inode m"
  "hm_wf (im_by_path m) \<Longrightarrow> hm_wf (im_by_path (move_path e m))"
  "hm_wf (im_identity_by_path m) \<Longrightarrow> hm_wf (im_identity_by_path (move_path e m))"
  "hm_get (im_by_path (move_path (old, i, new) m)) = (hm_get (im_by_path m))(old := None, new \<mapsto> i)"
  by (cases e; simp add: move_path_def Let_def split: option.split)+

lemma move_path_identity:
  assumes "hm_get (im_identity_by_path m) new = None" "old \<noteq> new"
  shows "hm_get (im_identity_by_path (move_path (old, i, new) m)) =
    (hm_get (im_identity_by_path m))(old := None, new := hm_get (im_identity_by_path m) old)"
  using assms by (auto simp: move_path_def Let_def fun_eq_iff split: option.split)

lemma fold_move_fields:
  "im_by_identity (fold move_path es m) = im_by_identity m" "im_next_inode (fold move_path es m) = im_next_inode m"
  "hm_wf (im_by_path m) \<Longrightarrow> hm_wf (im_by_path (fold move_path es m))"
  "hm_wf (im_identity_by_path m) \<Longrightarrow> hm_wf (im_identity_by_path (fold move_path es m))"
  by (induction es arbitrary: m) simp_all

text \<open>Entries whose old and new paths are all different move independently of their order.\<close>

definition olds :: "(string \<times> u64 \<times> string) list \<Rightarrow> string set" where
  "olds es = {old. \<exists>i new. (old, i, new) \<in> set es}"

definition news :: "(string \<times> u64 \<times> string) list \<Rightarrow> string set" where
  "news es = {new. \<exists>old i. (old, i, new) \<in> set es}"

fun apart :: "(string \<times> u64 \<times> string) list \<Rightarrow> bool" where
  "apart [] \<longleftrightarrow> True"
| "apart ((old, i, new) # es) \<longleftrightarrow> old \<noteq> new \<and> old \<notin> olds es \<and> old \<notin> news es \<and> new \<notin> olds es \<and> new \<notin> news es \<and> apart es"

lemma olds_news [simp]:
  "olds [] = {}" "news [] = {}"
  "olds ((old, i, new) # es) = insert old (olds es)" "news ((old, i, new) # es) = insert new (news es)"
  by (auto simp: olds_def news_def)

lemma olds_newsI: "(old, i, new) \<in> set es \<Longrightarrow> old \<in> olds es" "(old, i, new) \<in> set es \<Longrightarrow> new \<in> news es"
  by (auto simp: olds_def news_def)

lemma fold_move_rest:
  assumes "apart es" "q \<notin> news es"
  shows "hm_get (im_by_path (fold move_path es m)) q = (if q \<in> olds es then None else hm_get (im_by_path m) q)"
  using assms by (induction es arbitrary: m rule: apart.induct) auto

lemma fold_move_new:
  assumes "apart es" "(old, i, new) \<in> set es"
  shows "hm_get (im_by_path (fold move_path es m)) new = Some i"
  using assms
proof (induction es arbitrary: m rule: apart.induct)
  case (2 old' i' new' es)
  then show ?case
    using fold_move_rest [of es new "move_path (old', i', new') m"] by auto
qed simp

lemma fold_move_rest_identity:
  assumes "apart es" "q \<notin> news es" "\<forall>n \<in> news es. hm_get (im_identity_by_path m) n = None"
  shows "hm_get (im_identity_by_path (fold move_path es m)) q =
    (if q \<in> olds es then None else hm_get (im_identity_by_path m) q)"
  using assms
  by (induction es arbitrary: m rule: apart.induct) (auto simp: move_path_identity)

lemma fold_move_new_identity:
  assumes "apart es" "(old, i, new) \<in> set es" "\<forall>n \<in> news es. hm_get (im_identity_by_path m) n = None"
  shows "hm_get (im_identity_by_path (fold move_path es m)) new = hm_get (im_identity_by_path m) old"
  using assms
proof (induction es arbitrary: m rule: apart.induct)
  case (2 old' i' new' es)
  have m: "hm_get (im_identity_by_path (move_path (old', i', new') m)) =
      (hm_get (im_identity_by_path m))(old' := None, new' := hm_get (im_identity_by_path m) old')"
    using 2 by (intro move_path_identity) auto
  then have none: "\<forall>n \<in> news es. hm_get (im_identity_by_path (move_path (old', i', new') m)) n = None"
    using 2 by auto
  show ?case
  proof (cases "(old, i, new) \<in> set es")
    case True
    then have "old \<in> olds es" by (rule olds_newsI)
    then have "old \<noteq> old'" "old \<noteq> new'" using 2(2) by auto
    then show ?thesis using 2(1) [OF _ True none] 2(2) m by simp
  next
    case False
    then have "old = old'" "new = new'" using 2(3) by auto
    then show ?thesis using fold_move_rest_identity [OF _ _ none, of new] 2(2) m by simp
  qed
qed simp

lemma ran_fold_move:
  assumes "apart es" "\<forall>n \<in> news es. hm_get (im_identity_by_path m) n = None"
  shows "ran (hm_get (im_identity_by_path (fold move_path es m))) = ran (hm_get (im_identity_by_path m))"
  using assms
proof (induction es arbitrary: m rule: apart.induct)
  case (2 old i new es)
  have m: "hm_get (im_identity_by_path (move_path (old, i, new) m)) =
      (hm_get (im_identity_by_path m))(old := None, new := hm_get (im_identity_by_path m) old)"
    using 2 by (intro move_path_identity) auto
  have "ran ((P :: string \<Rightarrow> FileIdentity option)(old := None, new := P old)) = ran P" if "P new = None" for P
    using that by (auto simp: ran_def) (metis option.distinct(1))+
  then show ?case using 2 m by simp
qed simp

lemma inode_normalize_valid: "valid_path p \<Longrightarrow> inode_normalize_path p = p"
proof -
  assume p: "valid_path p"
  from valid_path_components [OF this]
  have "\<forall>w \<in> set (path_components p). plain_name w" "render_path (path_components p) = p"
    using good_plain by blast+
  with strip_root_render [of "path_components p"] show ?thesis
    by (simp add: inode_normalize_path_def strip_root_def) (metis render_path_def)
qed

lemma cached_below_eq:
  "cached_below root p = (if path_is_in_subtree p root then Some (subtree_suffix p root) else None)"
proof (cases "path_is_in_subtree p root")
  case True
  then obtain t where t: "p = root @ t" "t = [] \<or> starts_with_char slash t" by (auto simp: path_is_in_subtree_iff)
  then have "cached_below root p = Some t" by (simp add: cached_below_Some)
  moreover have "subtree_suffix p root = t" using t(1) by simp
  ultimately show ?thesis using True by simp
next
  case False
  then have "cached_below root p \<noteq> Some t" for t by (auto simp: cached_below_Some path_is_in_subtree_iff)
  then show ?thesis using False by (cases "cached_below root p") auto
qed

lemma below_suffix: "path_is_in_subtree p root \<Longrightarrow> p = root @ subtree_suffix p root"
  by (auto simp: path_is_in_subtree_iff)

lemma below_append:
  "path_is_in_subtree p root \<Longrightarrow> path_is_in_subtree (other @ subtree_suffix p root) other"
  by (auto simp: path_is_in_subtree_iff)

lemma moved_paths_simps [simp]:
  "moved_paths old new [] = []"
  "moved_paths old new ((p, i) # bp) =
    (if path_is_in_subtree p old then [(p, i, new @ subtree_suffix p old)] else []) @ moved_paths old new bp"
  by (simp_all add: moved_paths_def List.map_filter_def cached_below_eq)

lemma moved_paths_set:
  "(p, i, q) \<in> set (moved_paths old new bp) \<longleftrightarrow>
    (p, i) \<in> set bp \<and> path_is_in_subtree p old \<and> q = new @ subtree_suffix p old"
  by (induction bp) auto

lemma olds_moved: "p \<in> olds (moved_paths old new bp) \<longleftrightarrow> p \<in> fst ` set bp \<and> path_is_in_subtree p old"
  by (force simp: olds_def moved_paths_set)

lemma news_moved: "q \<in> news (moved_paths old new bp) \<longleftrightarrow>
    (\<exists>p. p \<in> fst ` set bp \<and> path_is_in_subtree p old \<and> q = new @ subtree_suffix p old)"
  by (force simp: news_def moved_paths_set)

lemma apart_moved:
  assumes "hm_wf bp" "\<And>p. p \<in> fst ` set bp \<Longrightarrow> path_is_in_subtree p old \<Longrightarrow> \<not> path_is_in_subtree p new"
  shows "apart (moved_paths old new bp)"
  using assms
proof (induction bp)
  case (Cons e bp)
  obtain p i where e: "e = (p, i)" by (cases e)
  have ih: "apart (moved_paths old new bp)" using Cons by (auto simp: hm_wf_def)
  have p: "p \<notin> fst ` set bp" using Cons.prems(1) e by (simp add: hm_wf_def)
  have inj: "p' = p" if "path_is_in_subtree p old" "path_is_in_subtree p' old" "subtree_suffix p' old = subtree_suffix p old" for p'
    using that below_suffix [of p old] below_suffix [of p' old] by simp
  have n: "\<not> path_is_in_subtree p new" if "path_is_in_subtree p old" using Cons.prems(2) [of p] that e by simp
  have m: "\<not> path_is_in_subtree p' new" if "path_is_in_subtree p' old" "p' \<in> fst ` set bp" for p'
    using Cons.prems(2) [of p'] that e by simp
  have "path_is_in_subtree p old \<Longrightarrow> p \<noteq> new @ subtree_suffix p' old" if "path_is_in_subtree p' old" for p'
    using n below_append [OF that, of new] by metis
  moreover have "path_is_in_subtree p old \<Longrightarrow> new @ subtree_suffix p old \<notin> olds (moved_paths old new bp)"
    using m below_append [of p old new] by (auto simp: olds_moved)
  moreover have "path_is_in_subtree p old \<Longrightarrow> new @ subtree_suffix p old \<notin> news (moved_paths old new bp)"
    unfolding news_moved by (metis inj p same_append_eq)
  moreover have "p \<notin> olds (moved_paths old new bp)" using p by (simp add: olds_moved)
  moreover have "path_is_in_subtree p old \<Longrightarrow> p \<notin> news (moved_paths old new bp)"
    unfolding news_moved by (metis calculation(1))
  ultimately show ?case using ih e by simp
qed simp

text \<open>What a rename that the protocol allows does to the numbers and the identities.\<close>

lemma rename_path_maps:
  assumes ok: "inode_map_ok m" and v: "validate_rename_paths old new = Ok ()"
  defines "b \<equiv> inode_remove_path new m"
  defines "es \<equiv> moved_paths old new (im_by_path b)"
  shows "inode_rename_path old new m = fold move_path es b" "apart es"
    "\<forall>n \<in> news es. hm_get (im_identity_by_path b) n = None"
    "\<And>q. hm_get (im_by_path b) q = (if q = ''/'' then Some 1 else if path_is_in_subtree q new then None else hm_get (im_by_path m) q)"
proof -
  have p: "valid_path old" "valid_path new" "old \<noteq> ''/''" "new \<noteq> ''/''"
    using rename_paths_validD(1,2) [OF v] by (simp_all add: valid_non_root_iff)
  note f = remove_path_fields [OF ok, of new, folded b_def, unfolded inode_normalize_valid [OF p(2)] cached_below_eq]
  show "inode_rename_path old new m = fold move_path es b"
    by (simp add: inode_rename_path_def Let_def inode_normalize_valid p es_def b_def)
  show q: "hm_get (im_by_path b) q = (if q = ''/'' then Some 1 else if path_is_in_subtree q new then None else hm_get (im_by_path m) q)" for q
    by (simp add: f(1))
  have "\<not> path_is_in_subtree ''/'' old" "old \<noteq> []"
    using p(1,3) root_not_in_subtree [of old] by (auto simp: in_subtree_cache validate_path_value_def)
  then have "\<not> path_is_in_subtree r new" if "r \<in> fst ` set (im_by_path b)" "path_is_in_subtree r old" for r
    using that q [of r] hm_get_None_iff [of "im_by_path b" r] by (auto split: if_splits)
  then show "apart es" unfolding es_def by (intro apart_moved f(5))
  show "\<forall>n \<in> news es. hm_get (im_identity_by_path b) n = None"
    by (auto simp: es_def news_moved f(2) below_append)
qed

lemma rename_by_path:
  assumes ok: "inode_map_ok m" and v: "validate_rename_paths old new = Ok ()"
  shows "hm_get (im_by_path (inode_rename_path old new m)) = renamed_pathmap old new (hm_get (im_by_path m))"
proof
  fix q
  define b where "b = inode_remove_path new m"
  define es where "es = moved_paths old new (im_by_path b)"
  note r = rename_path_maps [OF ok v, folded b_def, folded es_def]
  have w: "hm_wf (im_by_path b)" using remove_path_fields(5) [OF ok] by (simp add: b_def)
  have ne: "old \<noteq> []" "new \<noteq> []" "old \<noteq> ''/''" "new \<noteq> ''/''" "\<not> path_is_in_subtree old new" "\<not> path_is_in_subtree new old"
    using rename_paths_validD [OF v] by (auto simp: valid_non_root_iff validate_path_value_def)
  have both: "\<not> (path_is_in_subtree x old \<and> path_is_in_subtree x new)" for x
    using in_subtree_string_linear ne(5,6) by blast
  have root: "\<not> path_is_in_subtree ''/'' old" "\<not> path_is_in_subtree ''/'' new" "hm_get (im_by_path m) ''/'' = Some 1"
    using root_not_in_subtree [of old] root_not_in_subtree [of new] ne ok by (simp_all add: in_subtree_cache inode_map_ok_def)
  have mem: "x \<in> fst ` set (im_by_path b) \<longleftrightarrow> hm_get (im_by_path b) x \<noteq> None" for x
    by (metis hm_get_None_iff)
  show "hm_get (im_by_path (inode_rename_path old new m)) q = renamed_pathmap old new (hm_get (im_by_path m)) q"
  proof (cases "path_is_in_subtree q new")
    case True
    let ?p = "old @ subtree_suffix q new"
    have p: "path_is_in_subtree ?p old" "subtree_suffix ?p old = subtree_suffix q new" "q = new @ subtree_suffix q new"
      using below_append [OF True] below_suffix [OF True] by simp_all
    have bp: "hm_get (im_by_path b) ?p = hm_get (im_by_path m) ?p" using p(1) both root(1) by (auto simp: r(4))
    show ?thesis
    proof (cases "hm_get (im_by_path m) ?p")
      case (Some i)
      then have "(?p, i, q) \<in> set es" using bp w p by (simp add: es_def moved_paths_set hm_get_iff)
      from fold_move_new [OF r(2) this] Some True ne show ?thesis
        by (simp add: r(1) renamed_pathmap_def in_subtree_cache)
    next
      case None
      have "q \<notin> news es"
      proof
        assume "q \<in> news es"
        then obtain x where x: "x \<in> fst ` set (im_by_path b)" "path_is_in_subtree x old" "q = new @ subtree_suffix x old"
          by (auto simp: es_def news_moved)
        then have "x = ?p" using below_suffix [OF x(2)] p(3) by (metis same_append_eq)
        with x(1) mem bp None show False by simp
      qed
      moreover have "q \<notin> olds es" using both True by (auto simp: es_def olds_moved)
      ultimately show ?thesis
        using fold_move_rest [OF r(2), of q b] None True ne root by (auto simp: r(1,4) renamed_pathmap_def in_subtree_cache)
    qed
  next
    case False
    then have n: "q \<notin> news es" using below_append by (auto simp: es_def news_moved)
    show ?thesis
      using fold_move_rest [OF r(2) n, of b] False ne root mem [of q]
      by (auto simp: r(1,4) renamed_pathmap_def in_subtree_cache es_def olds_moved)
  qed
qed

lemma rename_path_ok:
  assumes ok: "inode_map_ok m" and v: "validate_rename_paths old new = Ok ()"
  shows "inode_map_ok (inode_rename_path old new m)"
proof -
  define b where "b = inode_remove_path new m"
  define es where "es = moved_paths old new (im_by_path b)"
  note r = rename_path_maps [OF ok v, folded b_def, folded es_def]
  have b: "inode_map_ok b" using remove_path_ok [OF ok] by (simp add: b_def)
  note bf = b [unfolded inode_map_ok_def]
  have num: "numbered (fold move_path es b) = numbered b" by (simp add: numbered_def fun_eq_iff fold_move_fields)
  have ne: "old \<noteq> ''/''" "new \<noteq> ''/''" using rename_paths_validD [OF v] by (auto simp: valid_non_root_iff)
  have root: "hm_get (im_by_path (inode_rename_path old new m)) ''/'' = Some 1"
    using root_not_in_subtree [OF ne(1)] root_not_in_subtree [OF ne(2)] ok
    by (simp add: rename_by_path [OF ok v] renamed_pathmap_def inode_map_ok_def)
  have "numbered m i" if "hm_get (im_by_path (inode_rename_path old new m)) q = Some i" for q i
    using that ok by (auto simp: rename_by_path [OF ok v] renamed_pathmap_def inode_map_ok_def split: if_splits)
  moreover have "numbered m = numbered b" using remove_path_fields(4) [OF ok] by (simp add: b_def numbered_def fun_eq_iff)
  moreover have "q \<in> dom (hm_get (im_by_path (fold move_path es b)))" if "hm_get (im_identity_by_path (fold move_path es b)) q = Some x" for q x
  proof (cases "q \<in> news es")
    case True
    then show ?thesis using fold_move_new [OF r(2)] by (auto simp: news_def)
  next
    case False
    then show ?thesis
      using that fold_move_rest [OF r(2) False, of b] fold_move_rest_identity [OF r(2) False r(3)] bf
      by (auto split: if_splits)
  qed
  ultimately show ?thesis
    using bf root by (simp add: r(1) inode_map_ok_def fold_move_fields num ran_fold_move [OF r(2,3)]) blast
qed

section \<open>The numbers\<close>

text \<open>What the service does to the map: lookups, removals and the renames the protocol allows.\<close>

inductive inode_step :: "InodeMap \<Rightarrow> InodeMap \<Rightarrow> bool" where
  inode_lookup: "inode_step m (snd (inode_for p identity m))"
| inode_remove: "inode_step m (inode_remove_path p m)"
| inode_rename: "validate_rename_paths old new = Ok () \<Longrightarrow> inode_step m (inode_rename_path old new m)"

text \<open>Those of them that leave a path alone.\<close>

inductive inode_step_beside :: "string \<Rightarrow> InodeMap \<Rightarrow> InodeMap \<Rightarrow> bool" for p where
  beside_lookup: "inode_step_beside p m (snd (inode_for q identity m))"
| beside_remove: "valid_path q \<Longrightarrow> \<not> path_is_in_subtree p q \<Longrightarrow> inode_step_beside p m (inode_remove_path q m)"
| beside_rename: "validate_rename_paths old new = Ok () \<Longrightarrow> \<not> path_is_in_subtree p old \<Longrightarrow> \<not> path_is_in_subtree p new
    \<Longrightarrow> inode_step_beside p m (inode_rename_path old new m)"

lemma inode_step_ok: "inode_step m m' \<Longrightarrow> inode_map_ok m \<Longrightarrow> inode_map_ok m'"
  by (induction rule: inode_step.induct) (simp_all add: inode_for_ok remove_path_ok rename_path_ok)

lemma inode_step_beside_ok: "inode_step_beside p m m' \<Longrightarrow> inode_map_ok m \<Longrightarrow> inode_map_ok m'"
  by (induction rule: inode_step_beside.induct) (simp_all add: inode_for_ok remove_path_ok rename_path_ok)

lemma inode_for_by_path:
  "hm_get (im_by_path (snd (inode_for q identity m))) =
    (if inode_normalize_path q = ''/'' then hm_get (im_by_path m)
     else (hm_get (im_by_path m))(inode_normalize_path q \<mapsto> fst (inode_for q identity m)))"
  by (auto simp: inode_for_def Let_def allocate_inode_def split: option.split)

lemma inode_for_cached:
  assumes "inode_map_ok m" "hm_get (im_by_path m) (inode_normalize_path p) = Some i"
  shows "fst (inode_for p identity m) = i"
  using assms by (auto simp: inode_for_def Let_def inode_map_ok_def split: option.split)

lemma beside_keeps:
  assumes "inode_step_beside p m m'" "inode_map_ok m" "p \<noteq> []" "hm_get (im_by_path m) p = Some i"
  shows "hm_get (im_by_path m') p = Some i"
  using assms
proof (induction rule: inode_step_beside.induct)
  case (beside_lookup m q identity)
  then show ?case using inode_for_cached [of m q i identity] by (auto simp: inode_for_by_path)
next
  case (beside_remove q m)
  then show ?case
    by (auto simp: remove_path_fields(1) inode_normalize_valid cached_below_eq inode_map_ok_def)
next
  case (beside_rename old new m)
  then show ?case by (simp add: rename_by_path renamed_pathmap_def in_subtree_cache)
qed

lemma reachable_inode_map_ok: "inode_step\<^sup>*\<^sup>* InodeMap_new m \<Longrightarrow> inode_map_ok m"
proof (induction rule: rtranclp_induct)
  case base
  then show ?case by (rule inode_map_ok_new)
next
  case (step m m')
  then show ?case using inode_step_ok by blast
qed

lemma inode_for_caches:
  assumes "inode_map_ok m" "valid_path p"
  shows "hm_get (im_by_path (snd (inode_for p identity m))) p = Some (fst (inode_for p identity m))"
proof (cases "p = ''/''")
  case True
  then have "fst (inode_for p identity m) = 1" by (simp add: inode_for_def inode_normalize_path_def)
  with True assms(1) show ?thesis by (simp add: inode_for_by_path inode_normalize_path_def inode_map_ok_def)
next
  case False
  with assms(2) show ?thesis by (simp add: inode_for_by_path inode_normalize_valid)
qed

lemma beside_steps_keep:
  assumes "(inode_step_beside p)\<^sup>*\<^sup>* m m'" "inode_map_ok m" "p \<noteq> []" "hm_get (im_by_path m) p = Some i"
  shows "inode_map_ok m' \<and> hm_get (im_by_path m') p = Some i"
  using assms
proof (induction rule: rtranclp_induct)
  case (step m' m'')
  then show ?case using inode_step_beside_ok beside_keeps by blast
qed simp

text \<open>
  C38: the inode number of a path is stable. Once a lookup has answered with a number,
  every later lookup of the path answers with the same one, whatever file is found there,
  until the path or one above it is removed, renamed or replaced by a rename.
\<close>

theorem inode_number_stable:
  assumes "inode_step\<^sup>*\<^sup>* InodeMap_new m" "valid_path p" "inode_for p identity m = (i, m1)"
    "(inode_step_beside p)\<^sup>*\<^sup>* m1 m2"
  shows "fst (inode_for p identity' m2) = i"
proof -
  have ok: "inode_map_ok m" using assms(1) by (rule reachable_inode_map_ok)
  have "inode_map_ok m1" "hm_get (im_by_path m1) p = Some i"
    using inode_for_ok [OF ok, of p identity] inode_for_caches [OF ok assms(2), of identity] assms(3) by simp_all
  moreover have "p \<noteq> []" using assms(2) by (auto simp: validate_path_value_def)
  ultimately have "inode_map_ok m2 \<and> hm_get (im_by_path m2) p = Some i"
    using beside_steps_keep [OF assms(4)] by blast
  with assms(2) show ?thesis by (simp add: inode_for_cached inode_normalize_valid)
qed

definition sample_inodes :: InodeMap where
  "sample_inodes = snd (inode_for ''/a'' (Some \<lparr>fi_dev = 1, fi_ino = 5\<rparr>) InodeMap_new)"

lemma sample_inodes_reached: "inode_step\<^sup>*\<^sup>* InodeMap_new sample_inodes"
  unfolding sample_inodes_def by (rule r_into_rtranclp, rule inode_step.inode_lookup)

lemmas sample_inode_simps = inode_for_def Let_def inode_normalize_path_def trim_start_char_def trim_end_char_def
  InodeMap_new_def allocate_inode_def saturating_add_def set_path_identity_def hm_insert_def

lemma sample_inodes_eq:
  "sample_inodes = \<lparr>im_by_path = [(''/'', 1), (''/a'', 2)], im_identity_by_path = [(''/a'', \<lparr>fi_dev = 1, fi_ino = 5\<rparr>)],
    im_by_identity = [(\<lparr>fi_dev = 1, fi_ino = 5\<rparr>, 2)], im_next_inode = 3\<rparr>"
  by (simp add: sample_inodes_def sample_inode_simps)

theorem inode_number_stable_witness:
  "fst (inode_for ''/a'' (Some \<lparr>fi_dev = 9, fi_ino = 9\<rparr>) (inode_remove_path ''/b'' sample_inodes)) = 2"
proof -
  let ?x = "Some \<lparr>fi_dev = 1, fi_ino = 5\<rparr>"
  have a: "valid_path ''/a''" "valid_path ''/b''" "\<not> path_is_in_subtree ''/a'' ''/b''" by code_simp+
  have l: "inode_for ''/a'' ?x InodeMap_new = (2, sample_inodes)"
    by (simp add: sample_inodes_eq sample_inode_simps)
  have "(inode_step_beside ''/a'')\<^sup>*\<^sup>* sample_inodes (inode_remove_path ''/b'' sample_inodes)"
    by (rule r_into_rtranclp, rule inode_step_beside.beside_remove [OF a(2,3)])
  from inode_number_stable [OF rtranclp.rtrancl_refl a(1) l this] show ?thesis .
qed

text \<open>
  C39: the number of a path that has none yet. If the file found there is known under
  another path the new name gets the number recorded for the file, so hard links share a
  number; otherwise it gets a number that no path and no file has, as long as the 64 bits
  of an inode number last.
\<close>

theorem new_path_inode:
  assumes "inode_step\<^sup>*\<^sup>* InodeMap_new m" "valid_path p" "p \<noteq> ''/''" "hm_get (im_by_path m) p = None"
    "im_next_inode m \<noteq> - 1" "i = fst (inode_for p (Some x) m)"
  shows "if x \<in> ran (hm_get (im_identity_by_path m)) then hm_get (im_by_identity m) x = Some i
    else (\<forall>q. hm_get (im_by_path m) q \<noteq> Some i) \<and> (\<forall>y. hm_get (im_by_identity m) y \<noteq> Some i)"
proof -
  have ok: "inode_map_ok m" using assms(1) by (rule reachable_inode_map_ok)
  note f = ok [unfolded inode_map_ok_def]
  have live: "x \<in> ran (hm_get (im_identity_by_path m)) \<longleftrightarrow> hm_get (im_by_identity m) x \<noteq> None"
    using f by (metis domIff)
  have i: "i = (case hm_get (im_by_identity m) x of None \<Rightarrow> im_next_inode m | Some i \<Rightarrow> i)"
    using assms(2-4,6) by (simp add: inode_for_def inode_normalize_valid allocate_inode_def split: option.split)
  have "\<not> numbered m (im_next_inode m)" using assms(5) by (simp add: numbered_def)
  then show ?thesis using i live f by (auto split: option.splits)
qed

theorem new_path_inode_witness:
  "hm_get (im_by_identity sample_inodes) \<lparr>fi_dev = 1, fi_ino = 5\<rparr>
    = Some (fst (inode_for ''/link'' (Some \<lparr>fi_dev = 1, fi_ino = 5\<rparr>) sample_inodes))"
proof -
  have "valid_path ''/link''" "''/link'' \<noteq> ''/''" by code_simp+
  moreover have "hm_get (im_by_path sample_inodes) ''/link'' = None" "im_next_inode sample_inodes \<noteq> - 1"
    by (simp_all add: sample_inodes_eq)
  moreover have "\<lparr>fi_dev = 1, fi_ino = 5\<rparr> \<in> ran (hm_get (im_identity_by_path sample_inodes))"
    by (simp add: sample_inodes_eq)
  ultimately show ?thesis
    using new_path_inode [OF sample_inodes_reached, of "''/link''" _ "\<lparr>fi_dev = 1, fi_ino = 5\<rparr>"] by simp
qed

text \<open>
  C40: a rename that the protocol allows moves the inode number of every cached path below
  the old path to the corresponding path below the new one, drops what was there, and
  changes no other number: what the path cache of the client does with its paths.
\<close>

theorem inode_rename_moves:
  assumes "inode_step\<^sup>*\<^sup>* InodeMap_new m" "validate_rename_paths old new = Ok ()"
  shows "hm_get (im_by_path (inode_rename_path old new m)) = renamed_pathmap old new (hm_get (im_by_path m))"
  using rename_by_path reachable_inode_map_ok assms by blast

theorem inode_rename_moves_witness:
  "hm_get (im_by_path (inode_rename_path ''/a'' ''/b'' sample_inodes))
    = renamed_pathmap ''/a'' ''/b'' (hm_get (im_by_path sample_inodes))"
proof -
  have "validate_rename_paths ''/a'' ''/b'' = Ok ()" by code_simp
  from inode_rename_moves [OF sample_inodes_reached this] show ?thesis .
qed

text \<open>
  Two names of a file keep the number they share even after one of them is found to be
  another file, so that two files then have one number.
\<close>

lemma split_link_shares_inode:
  "let x = \<lparr>fi_dev = 1, fi_ino = 5\<rparr>; y = \<lparr>fi_dev = 2, fi_ino = 7\<rparr>;
       m = snd (inode_for ''/b'' (Some x) sample_inodes);
       (b, m) = inode_for ''/b'' (Some y) m;
       (a, m) = inode_for ''/a'' (Some x) m
   in a = b \<and> hm_get (im_identity_by_path m) ''/a'' \<noteq> hm_get (im_identity_by_path m) ''/b''"
  by (simp add: sample_inodes_eq sample_inode_simps)

end
