(* ===== verification/ServerByteIo.thy ===== *)
theory ServerByteIo
  imports ServerHost
begin

text \<open>
  Reading, writing and copying the bytes of open files,
  \<open>fabricfs-server/src/server/byte_io.rs\<close>. The host may transfer fewer bytes than
  asked for and may interrupt a call, which the code repeats; a loop that is
  interrupted for ever does not return, so the loops are partial functions and
  \<open>None\<close> is a call that does not return. The lemmas show that on a host which
  interrupts finitely often every call returns, and which bytes it has transferred.
\<close>

section \<open>Reading\<close>

text \<open>The cast of a \<open>usize\<close> to \<open>i64\<close> keeps its 64 bits.\<close>

definition usize_as_i64 :: "nat \<Rightarrow> i64" where
  "usize_as_i64 n = (if n < 2 ^ 63 then int n else int n - 2 ^ 64)"

definition read_amount :: "FsLimits \<Rightarrow> i64 \<Rightarrow> nat" where
  "read_amount limits n = nat (max (min n (usize_as_i64 (lim_max_read_bytes limits))) 0)"

partial_function (option) read_loop ::
    "('f, 'w) host_fs \<Rightarrow> 'f \<Rightarrow> nat \<Rightarrow> nat \<Rightarrow> bytes \<Rightarrow> 'w \<Rightarrow> ((i32 + bytes) \<times> 'w) option" where
  "read_loop h file chunk_size to_read got w =
    (if length got < to_read
     then (case hf_read h file (min (to_read - length got) chunk_size) w of
         (Inr buf, w') \<Rightarrow>
           if buf = [] then Some (Ok got, w')
           else read_loop h file chunk_size to_read (got @ buf) w'
       | (Inl e, w') \<Rightarrow>
           if is_interrupted e then read_loop h file chunk_size to_read got w'
           else Some (Err (io_errno e), w'))
     else Some (Ok got, w))"

definition read_file_at :: "('f, 'w) host_fs \<Rightarrow> 'f \<Rightarrow> i64 \<Rightarrow> i64 \<Rightarrow> FsLimits \<Rightarrow> 'w
    \<Rightarrow> ((i32 + bytes) \<times> 'w) option" where
  "read_file_at h file offset n limits w =
    (if offset < 0 then Some (Err EINVAL, w)
     else case io_do (hf_seek h file (word_of_int offset)) w of
       (Inl e, w') \<Rightarrow> Some (Err e, w')
     | (Inr _, w') \<Rightarrow> read_loop h file (lim_io_chunk_bytes limits) (read_amount limits n) [] w')"

section \<open>Writing\<close>

definition write_file_at :: "('f, 'w) host_fs \<Rightarrow> 'f \<Rightarrow> i64 \<Rightarrow> bytes \<Rightarrow> ('w, nat) call" where
  "write_file_at h file offset data =
    (if offset < 0 then srv_give (Err EINVAL)
     else srv_bind (io_do (hf_seek h file (word_of_int offset))) (\<lambda>_.
       srv_bind (io_do (hf_write h file data)) (\<lambda>written.
       srv_bind (io_do (hf_sync_all h file)) (\<lambda>_.
       srv_give (Ok written)))))"

section \<open>Copying\<close>

definition reject_overlapping_same_file_copy ::
    "('f, 'w) host_fs \<Rightarrow> 'f \<Rightarrow> 'f \<Rightarrow> u64 \<Rightarrow> u64 \<Rightarrow> u64 \<Rightarrow> ('w, unit) call" where
  "reject_overlapping_same_file_copy h src_file dst_file offset_in offset_out len =
    srv_bind (io_look (hf_metadata h src_file)) (\<lambda>src_meta.
    srv_bind (io_look (hf_metadata h dst_file)) (\<lambda>dst_meta.
      srv_give
        (if md_dev src_meta \<noteq> md_dev dst_meta \<or> md_ino src_meta \<noteq> md_ino dst_meta then Ok ()
         else try_bind (ok_or EINVAL (checked_add offset_in len)) (\<lambda>input_end.
           try_bind (ok_or EINVAL (checked_add offset_out len)) (\<lambda>output_end.
             if offset_in < output_end \<and> offset_out < input_end then Err EINVAL else Ok ())))))"

text \<open>\<open>buf\<close> is what is left of the bytes that were read, \<open>written\<close> how many are written.\<close>

partial_function (option) write_loop ::
    "('f, 'w) host_fs \<Rightarrow> 'f \<Rightarrow> u64 \<Rightarrow> bytes \<Rightarrow> nat \<Rightarrow> 'w \<Rightarrow> ((i32 + unit) \<times> 'w) option" where
  "write_loop h dst_file base buf written w =
    (if written < length buf
     then (case checked_add base (of_nat written) of
         None \<Rightarrow> Some (Err EINVAL, w)
       | Some write_offset \<Rightarrow>
          (case hf_write_at h dst_file (drop written buf) write_offset w of
             (Inr n, w') \<Rightarrow>
               if n = 0 then Some (Err EIO, w')
               else write_loop h dst_file base buf (written + n) w'
           | (Inl e, w') \<Rightarrow>
               if is_interrupted e then write_loop h dst_file base buf written w'
               else Some (Err (io_errno e), w')))
     else Some (Ok (), w))"

text \<open>
  One round copies what one read returned. The offsets of the round are checked before
  the read and, in the source, inside the inner loop; \<open>base_out + copied\<close> is the base
  of that loop.
\<close>

partial_function (option) copy_loop ::
    "('f, 'w) host_fs \<Rightarrow> 'f \<Rightarrow> 'f \<Rightarrow> u64 \<Rightarrow> u64 \<Rightarrow> u64 \<Rightarrow> nat \<Rightarrow> u64 \<Rightarrow> 'w
      \<Rightarrow> ((i32 + u64) \<times> 'w) option" where
  "copy_loop h src_file dst_file base_in base_out len chunk_size copied w =
    (if copied < len
     then (case checked_add base_in copied of
         None \<Rightarrow> Some (Err EINVAL, w)
       | Some read_offset \<Rightarrow>
          (case hf_read_at h src_file (min (unat (len - copied)) chunk_size) read_offset w of
             (Inr buf, w') \<Rightarrow>
               if buf = [] then Some (Ok copied, w')
               else (case checked_add base_out copied of
                   None \<Rightarrow> Some (Err EINVAL, w')
                 | Some write_base \<Rightarrow>
                     Option.bind (write_loop h dst_file write_base buf 0 w') (\<lambda>(r, w'').
                       case r of Inl e \<Rightarrow> Some (Err e, w'')
                       | Inr _ \<Rightarrow> copy_loop h src_file dst_file base_in base_out len chunk_size
                           (copied + of_nat (length buf)) w''))
           | (Inl e, w') \<Rightarrow>
               if is_interrupted e
               then copy_loop h src_file dst_file base_in base_out len chunk_size copied w'
               else Some (Err (io_errno e), w')))
     else Some (Ok copied, w))"

definition copy_file_range_at :: "('f, 'w) host_fs \<Rightarrow> 'f \<Rightarrow> 'f \<Rightarrow> i64 \<Rightarrow> i64 \<Rightarrow> u64 \<Rightarrow> FsLimits \<Rightarrow> 'w
    \<Rightarrow> ((i32 + u64) \<times> 'w) option" where
  "copy_file_range_at h src_file dst_file offset_in offset_out len limits w =
    (if offset_in < 0 \<or> offset_out < 0 then Some (Err EINVAL, w)
     else if len = 0 then Some (Ok 0, w)
     else case reject_overlapping_same_file_copy h src_file dst_file
         (word_of_int offset_in) (word_of_int offset_out) len w of
       (Inl e, w') \<Rightarrow> Some (Err e, w')
     | (Inr _, w') \<Rightarrow>
         copy_loop h src_file dst_file (word_of_int offset_in) (word_of_int offset_out) len
           (max (min (lim_io_chunk_bytes limits) (unat len)) 1) 0 w')"

section \<open>What the host promises\<close>

text \<open>
  The documented behaviour of \<open>read\<close> and \<open>lseek\<close> on one open file, for a reading of
  its content and its position in the states of the host: a read returns the next
  bytes, at most as many as asked for and none only at the end of the file, a call that
  fails changes neither, and the host runs out of \<open>patience\<close> to interrupt.
\<close>

definition reads_well :: "('f, 'w) host_fs \<Rightarrow> 'f \<Rightarrow> ('w \<Rightarrow> bytes) \<Rightarrow> ('w \<Rightarrow> nat) \<Rightarrow> ('w \<Rightarrow> nat) \<Rightarrow> bool" where
  "reads_well h file content cursor patience \<longleftrightarrow>
    (\<forall>n w r w'. hf_read h file n w = (r, w') \<longrightarrow> content w' = content w \<and>
      (case r of
         Inr buf \<Rightarrow> cursor w' = cursor w + length buf \<and> length buf \<le> n
           \<and> buf = take (length buf) (drop (cursor w) (content w))
           \<and> (buf = [] \<longrightarrow> n = 0 \<or> length (content w) \<le> cursor w) \<and> patience w' \<le> patience w
       | Inl e \<Rightarrow> cursor w' = cursor w \<and> (is_interrupted e \<longrightarrow> patience w' < patience w))) \<and>
    (\<forall>n w r w'. hf_seek h file n w = (r, w') \<longrightarrow>
      content w' = content w \<and> (r = Inr () \<longrightarrow> cursor w' = unat n))"

text \<open>What \<open>pwrite\<close> does to the content of a file; a gap before the bytes is filled with zeros.\<close>

definition patch :: "nat \<Rightarrow> bytes \<Rightarrow> bytes \<Rightarrow> bytes" where
  "patch off bs c =
    (if bs = [] then c
     else take off c @ replicate (off - length c) 0 @ bs @ drop (off + length bs) c)"

text \<open>
  The documented behaviour of \<open>pread\<close>, \<open>pwrite\<close> and \<open>fstat\<close> on two open files that
  are the files \<open>i\<close> and \<open>j\<close> of the host, each a device and an inode number.
\<close>

definition copies_well :: "('f, 'w) host_fs \<Rightarrow> 'f \<Rightarrow> 'f \<Rightarrow> ('w \<Rightarrow> u64 \<times> u64 \<Rightarrow> bytes) \<Rightarrow> u64 \<times> u64 \<Rightarrow> u64 \<times> u64
    \<Rightarrow> ('w \<Rightarrow> nat) \<Rightarrow> bool" where
  "copies_well h src_file dst_file content i j patience \<longleftrightarrow>
    (\<forall>n off w r w'. hf_read_at h src_file n off w = (r, w') \<longrightarrow> content w' = content w \<and>
      (case r of
         Inr buf \<Rightarrow> length buf \<le> n \<and> buf = take (length buf) (drop (unat off) (content w i))
           \<and> (buf = [] \<longrightarrow> n = 0 \<or> length (content w i) \<le> unat off) \<and> patience w' \<le> patience w
       | Inl e \<Rightarrow> is_interrupted e \<longrightarrow> patience w' < patience w)) \<and>
    (\<forall>bs off w r w'. hf_write_at h dst_file bs off w = (r, w') \<longrightarrow>
      (case r of
         Inr n \<Rightarrow> n \<le> length bs \<and> patience w' \<le> patience w
           \<and> content w' = (content w)(j := patch (unat off) (take n bs) (content w j))
       | Inl e \<Rightarrow> content w' = content w \<and> (is_interrupted e \<longrightarrow> patience w' < patience w))) \<and>
    (\<forall>w meta. hf_metadata h src_file w = Inr meta \<longrightarrow> (md_dev meta, md_ino meta) = i) \<and>
    (\<forall>w meta. hf_metadata h dst_file w = Inr meta \<longrightarrow> (md_dev meta, md_ino meta) = j)"

section \<open>Reading returns the bytes of the file\<close>

lemma ex3I: "P a b c \<Longrightarrow> \<exists>x y z. P x y z"
  by blast

lemma take_extend:
  assumes "got = take (length got) (drop off c)" "buf = take (length buf) (drop (off + length got) c)"
  shows "got @ buf = take (length (got @ buf)) (drop off c)"
proof -
  have "take (length got + length buf) (drop off c)
      = take (length got) (drop off c) @ take (length buf) (drop (length got) (drop off c))"
    by (rule take_add)
  then show ?thesis using assms by (metis add.commute drop_drop length_append)
qed

lemma read_loop_exact:
  assumes h: "reads_well h file content cursor patience" and chunk: "0 < chunk_size"
    and got: "got = take (length got) (drop off (content w))" "length got \<le> to_read"
    and at: "cursor w = off + length got"
  shows "\<exists>r w'. read_loop h file chunk_size to_read got w = Some (r, w') \<and> content w' = content w
    \<and> (\<forall>data. r = Ok data \<longrightarrow> data = take to_read (drop off (content w)))"
  using got at
proof (induction "to_read - length got + patience w" arbitrary: got w rule: less_induct)
  case less
  show ?case
  proof (cases "length got < to_read")
    case False
    with less.prems have "got = take to_read (drop off (content w))" by simp
    with False show ?thesis by (subst read_loop.simps) auto
  next
    case True
    let ?n = "min (to_read - length got) chunk_size"
    obtain r w1 where r: "hf_read h file ?n w = (r, w1)" by fastforce
    then have c: "content w1 = content w" using h unfolding reads_well_def by blast
    show ?thesis
    proof (cases r)
      case (Inl e)
      with r h have "cursor w1 = cursor w" "is_interrupted e \<Longrightarrow> patience w1 < patience w"
        unfolding reads_well_def by (force split: sum.splits)+
      with less.hyps [of got w1] less.prems c True Inl r show ?thesis
        by (subst read_loop.simps) auto
    next
      case (Inr buf)
      with r h have b: "cursor w1 = cursor w + length buf" "length buf \<le> ?n"
        "buf = take (length buf) (drop (cursor w) (content w))"
        "buf = [] \<Longrightarrow> ?n = 0 \<or> length (content w) \<le> cursor w" "patience w1 \<le> patience w"
        unfolding reads_well_def by (force split: sum.splits)+
      show ?thesis
      proof (cases "buf = []")
        case True
        with b(4) chunk \<open>length got < to_read\<close> have "length (content w) \<le> off + length got"
          using less.prems(3) by auto
        then have "length (drop off (content w)) \<le> length got" by simp
        with less.prems(1) have "got = drop off (content w)" by (metis take_all)
        with \<open>length got < to_read\<close> have "got = take to_read (drop off (content w))"
          by (metis less_imp_le_nat take_all)
        with True \<open>length got < to_read\<close> r Inr c show ?thesis
          by (subst read_loop.simps) auto
      next
        case False
        have ext: "got @ buf = take (length (got @ buf)) (drop off (content w1))"
          using take_extend [OF less.prems(1), of buf] b(3) less.prems(3) c by metis
        have "to_read - length (got @ buf) + patience w1 < to_read - length got + patience w"
          using True b(2,5) False by (cases buf) auto
        moreover have "length (got @ buf) \<le> to_read" "cursor w1 = off + length (got @ buf)"
          using b(1,2) less.prems(3) True by auto
        ultimately have "\<exists>r w'. read_loop h file chunk_size to_read (got @ buf) w1 = Some (r, w') \<and> content w' = content w1
            \<and> (\<forall>data. r = Ok data \<longrightarrow> data = take to_read (drop off (content w1)))"
          using less.hyps [OF _ ext] by blast
        moreover have "read_loop h file chunk_size to_read got w = read_loop h file chunk_size to_read (got @ buf) w1"
          using True False r Inr by (subst read_loop.simps) simp
        ultimately show ?thesis using c by metis
      qed
    qed
  qed
qed

lemma reads_well_seek:
  assumes "reads_well h file content cursor patience" "hf_seek h file n w = (r, w')"
  shows "content w' = content w" "r = Inr () \<Longrightarrow> cursor w' = unat n"
  using assms unfolding reads_well_def by blast+

lemma unat_word_of_offset: "0 \<le> offset \<Longrightarrow> offset < 2 ^ 63 \<Longrightarrow> unat (word_of_int offset :: u64) = nat offset"
  by (simp add: unat_eq_nat_uint uint_word_of_int)

section \<open>Writing patches the file\<close>

lemma patch_Nil [simp]: "patch off [] c = c"
  by (simp add: patch_def)

lemma length_patch: "bs \<noteq> [] \<Longrightarrow> length (patch off bs c) = max (length c) (off + length bs)"
proof -
  have "min n off + (off - n + (b + (n - (off + b)))) = max n (off + b)" for n b :: nat by linarith
  then show "bs \<noteq> [] \<Longrightarrow> ?thesis" by (simp add: patch_def)
qed

lemma nth_patch:
  assumes "bs \<noteq> []" "k < length (patch off bs c)"
  shows "patch off bs c ! k =
    (if off \<le> k \<and> k < off + length bs then bs ! (k - off) else if k < length c then c ! k else 0)"
proof -
  let ?p = "take off c @ replicate (off - length c) 0"
  have p: "length ?p = off" by auto
  have "?p ! k = (if k < length c then c ! k else 0)" if "k < off"
    using that by (auto simp: nth_append)
  moreover have "patch off bs c ! k = (if k < off then ?p ! k
      else if k < off + length bs then bs ! (k - off) else drop (off + length bs) c ! (k - off - length bs))"
    using assms(1) p nth_append [of ?p "bs @ drop (off + length bs) c" k]
      nth_append [of bs "drop (off + length bs) c" "k - off"]
    by (auto simp: patch_def)
  moreover have "drop (off + length bs) c ! (k - off - length bs) = c ! k" "k < length c"
    if "\<not> k < off + length bs"
    using that assms length_patch [OF assms(1), of off c] by auto
  ultimately show ?thesis by auto
qed

lemma patch_append: "patch (off + length a) b (patch off a c) = patch off (a @ b) c"
proof (cases "a = [] \<or> b = []")
  case False
  then have ne: "a \<noteq> []" "b \<noteq> []" "a @ b \<noteq> []" by auto
  note len = length_patch [OF ne(1)] length_patch [OF ne(2)] length_patch [OF ne(3)]
  have eq: "length (patch (off + length a) b (patch off a c)) = length (patch off (a @ b) c)"
    unfolding len by simp
  show ?thesis
  proof (rule nth_equalityI [OF eq])
    fix k assume k: "k < length (patch (off + length a) b (patch off a c))"
    have "patch (off + length a) b (patch off a c) ! k =
        (if off + length a \<le> k \<and> k < off + length a + length b then b ! (k - (off + length a))
         else if k < length (patch off a c) then patch off a c ! k else 0)"
      by (rule nth_patch [OF ne(2) k])
    moreover have "patch off (a @ b) c ! k = (if off \<le> k \<and> k < off + length (a @ b)
        then (a @ b) ! (k - off) else if k < length c then c ! k else 0)"
      using k unfolding eq by (rule nth_patch [OF ne(3)])
    moreover have "k < length (patch off a c) \<Longrightarrow> patch off a c ! k =
        (if off \<le> k \<and> k < off + length a then a ! (k - off) else if k < length c then c ! k else 0)"
      by (rule nth_patch [OF ne(1)])
    moreover have "k < length (patch off a c) \<longleftrightarrow> k < length c \<or> k < off + length a"
      unfolding len by auto
    ultimately show "patch (off + length a) b (patch off a c) ! k = patch off (a @ b) c ! k"
      by (auto simp: nth_append)
  qed
qed auto

lemma window_patch:
  assumes "off + len \<le> length c" "off + len \<le> out \<or> out + length bs \<le> off"
  shows "take len (drop off (patch out bs c)) = take len (drop off c)"
proof (cases "bs = []")
  case False
  note len = length_patch [OF False, of out c]
  have eq: "length (take len (drop off (patch out bs c))) = length (take len (drop off c))"
    using assms(1) by (simp add: len)
  show ?thesis
  proof (rule nth_equalityI [OF eq])
    fix k assume k: "k < length (take len (drop off (patch out bs c)))"
    then have "k < len" "off + k < length (patch out bs c)" "off + k < length c"
      using assms(1) by (simp_all add: len)
    then show "take len (drop off (patch out bs c)) ! k = take len (drop off c) ! k"
      using assms nth_patch [OF False, of "off + k" out c] by auto
  qed
qed simp

lemma copies_well_read:
  assumes h: "copies_well h src_file dst_file content i j patience"
    and r: "hf_read_at h src_file n off w = (r, w')"
  shows "content w' = content w" "r = Inl e \<Longrightarrow> is_interrupted e \<Longrightarrow> patience w' < patience w"
    "r = Inr buf \<Longrightarrow> length buf \<le> n \<and> buf = take (length buf) (drop (unat off) (content w i))
      \<and> (buf = [] \<longrightarrow> n = 0 \<or> length (content w i) \<le> unat off) \<and> patience w' \<le> patience w"
proof -
  from h r have "content w' = content w \<and> (case r of
       Inr buf \<Rightarrow> length buf \<le> n \<and> buf = take (length buf) (drop (unat off) (content w i))
         \<and> (buf = [] \<longrightarrow> n = 0 \<or> length (content w i) \<le> unat off) \<and> patience w' \<le> patience w
     | Inl e \<Rightarrow> is_interrupted e \<longrightarrow> patience w' < patience w)"
    unfolding copies_well_def by blast
  then show "content w' = content w" "r = Inl e \<Longrightarrow> is_interrupted e \<Longrightarrow> patience w' < patience w"
    "r = Inr buf \<Longrightarrow> length buf \<le> n \<and> buf = take (length buf) (drop (unat off) (content w i))
      \<and> (buf = [] \<longrightarrow> n = 0 \<or> length (content w i) \<le> unat off) \<and> patience w' \<le> patience w"
    by (simp_all split: sum.splits)
qed

lemma copies_well_write:
  assumes h: "copies_well h src_file dst_file content i j patience"
    and r: "hf_write_at h dst_file bs off w = (r, w')"
  shows "r = Inr n \<Longrightarrow> n \<le> length bs \<and> patience w' \<le> patience w
      \<and> content w' = (content w)(j := patch (unat off) (take n bs) (content w j))"
    "r = Inl e \<Longrightarrow> content w' = content w" "r = Inl e \<Longrightarrow> is_interrupted e \<Longrightarrow> patience w' < patience w"
proof -
  from h r have "case r of
       Inr n \<Rightarrow> n \<le> length bs \<and> patience w' \<le> patience w
         \<and> content w' = (content w)(j := patch (unat off) (take n bs) (content w j))
     | Inl e \<Rightarrow> content w' = content w \<and> (is_interrupted e \<longrightarrow> patience w' < patience w)"
    unfolding copies_well_def by blast
  then show "r = Inr n \<Longrightarrow> n \<le> length bs \<and> patience w' \<le> patience w
      \<and> content w' = (content w)(j := patch (unat off) (take n bs) (content w j))"
    "r = Inl e \<Longrightarrow> content w' = content w" "r = Inl e \<Longrightarrow> is_interrupted e \<Longrightarrow> patience w' < patience w"
    by simp_all
qed

lemma write_loop_patches:
  assumes h: "copies_well h src_file dst_file content i j patience"
    and "written \<le> length buf" "unat base + length buf < 2 ^ 64"
  shows "\<exists>r w' m. write_loop h dst_file base buf written w = Some (r, w') \<and> written \<le> m \<and> m \<le> length buf
    \<and> content w' = (content w)(j := patch (unat base + written) (take (m - written) (drop written buf)) (content w j))
    \<and> (r = Ok () \<longrightarrow> m = length buf \<and> patience w' \<le> patience w)"
  using assms(2)
proof (induction "length buf - written + patience w" arbitrary: written w rule: less_induct)
  case less
  note unfold = write_loop.simps [of h dst_file base buf written w]
  show ?case
  proof (cases "written < length buf")
    case False
    then have "write_loop h dst_file base buf written w = Some (Ok (), w)" by (subst unfold) simp
    with False less.prems show ?thesis
      by (intro ex3I [of _ "Ok ()" w written]) simp
  next
    case True
    have u: "unat (of_nat written :: u64) = written"
      using True assms(3) by (simp add: unsigned_of_nat take_bit_nat_eq_self)
    with True assms(3) have off: "checked_add base (of_nat written) = Some (base + of_nat written)"
      "unat (base + of_nat written) = unat base + written"
      by (simp_all add: checked_add_def unat_word_ariths)
    obtain r w1 where r: "hf_write_at h dst_file (drop written buf) (base + of_nat written) w = (r, w1)"
      by fastforce
    show ?thesis
    proof (cases r)
      case (Inl e)
      note p = copies_well_write(2,3) [OF h r Inl]
      show ?thesis
      proof (cases "is_interrupted e")
        case True
        with p have "length buf - written + patience w1 < length buf - written + patience w" by simp
        from less.hyps [OF this less.prems] obtain r' w' m where
          "write_loop h dst_file base buf written w1 = Some (r', w')" "written \<le> m" "m \<le> length buf"
          "content w' = (content w1)(j := patch (unat base + written)
            (take (m - written) (drop written buf)) (content w1 j))"
          "r' = Ok () \<Longrightarrow> m = length buf \<and> patience w' \<le> patience w1" by blast
        moreover have "write_loop h dst_file base buf written w = write_loop h dst_file base buf written w1"
          using True \<open>written < length buf\<close> Inl r off(1)
          by (simp add: unfold)
        ultimately show ?thesis using p True by (intro ex3I [of _ r' w' m]) auto
      next
        case False
        with True Inl r off(1) have "write_loop h dst_file base buf written w = Some (Err (io_errno e), w1)"
          by (simp add: unfold)
        with p(1) less.prems show ?thesis
          by (intro ex3I [of _ "Err (io_errno e)" w1 written]) simp
      qed
    next
      case (Inr n)
      from copies_well_write(1) [OF h r Inr] off(2)
      have n: "n \<le> length buf - written" "patience w1 \<le> patience w"
        "content w1 = (content w)(j := patch (unat base + written) (take n (drop written buf)) (content w j))"
        by simp_all
      show ?thesis
      proof (cases "n = 0")
        case True
        with \<open>written < length buf\<close> Inr r off(1) have "write_loop h dst_file base buf written w = Some (Err EIO, w1)"
          by (simp add: unfold)
        with n(3) less.prems True show ?thesis
          by (intro ex3I [of _ "Err EIO" w1 written]) simp
      next
        case False
        have "length buf - (written + n) + patience w1 < length buf - written + patience w"
          using False n(1,2) True by simp
        moreover have "written + n \<le> length buf" using n(1) True by simp
        ultimately obtain r' w' m where
          m: "write_loop h dst_file base buf (written + n) w1 = Some (r', w')" "written + n \<le> m" "m \<le> length buf"
            "content w' = (content w1)(j := patch (unat base + (written + n))
              (take (m - (written + n)) (drop (written + n) buf)) (content w1 j))"
            "r' = Ok () \<Longrightarrow> m = length buf \<and> patience w' \<le> patience w1"
          using less.hyps by blast
        have "take n (drop written buf) @ take (m - (written + n)) (drop (written + n) buf)
            = take (m - written) (drop written buf)"
          using take_add [of n "m - (written + n)" "drop written buf"] m(2) by (simp add: add.commute)
        moreover have "length (take n (drop written buf)) = n" using n(1) by simp
        ultimately have "content w' = (content w)(j := patch (unat base + written)
            (take (m - written) (drop written buf)) (content w j))"
          using m(4) n(3) patch_append [of "unat base + written" "take n (drop written buf)"]
          by (simp add: add.assoc)
        moreover have "write_loop h dst_file base buf written w = write_loop h dst_file base buf (written + n) w1"
          using True False Inr r off(1) by (simp add: unfold)
        ultimately show ?thesis using m n(2)
          by (intro ex3I [of _ r' w' m]) auto
      qed
    qed
  qed
qed

section \<open>Copying\<close>

text \<open>
  \<open>window\<close> is what the copy may read: the part of the source that starts at the input
  offset. It stays the same while the copy runs unless the copy extends its own source.
\<close>

lemma copy_loop_patches:
  assumes h: "copies_well h src_file dst_file content i j patience" and chunk: "0 < chunk_size"
    and room: "unat base_in + unat len < 2 ^ 64" "unat base_out + unat len < 2 ^ 64"
    and window: "window = take (unat len) (drop (unat base_in) (c i))"
    and stable: "\<And>m. m \<le> length window \<Longrightarrow>
      take (unat len) (drop (unat base_in) ((c(j := patch (unat base_out) (take m window) (c j))) i)) = window"
    and "unat copied \<le> length window"
    "content w = c(j := patch (unat base_out) (take (unat copied) window) (c j))"
  shows "\<exists>r w' m. copy_loop h src_file dst_file base_in base_out len chunk_size copied w = Some (r, w')
    \<and> m \<le> length window \<and> content w' = c(j := patch (unat base_out) (take m window) (c j))
    \<and> (\<forall>n. r = Ok n \<longrightarrow> unat n = length window \<and> m = length window)"
  using assms(7,8)
proof (induction "unat len - unat copied + patience w" arbitrary: copied w rule: less_induct)
  case less
  note unfold = copy_loop.simps [of h src_file dst_file base_in base_out len chunk_size copied w]
  have win: "length window \<le> unat len" by (simp add: window)
  show ?case
  proof (cases "copied < len")
    case False
    then have "unat copied = length window" using less.prems(1) win by (simp add: word_less_nat_alt)
    moreover from False have "copy_loop h src_file dst_file base_in base_out len chunk_size copied w = Some (Ok copied, w)"
      by (subst unfold) simp
    ultimately show ?thesis
      using less.prems by (intro ex3I [of _ "Ok copied" w "length window"]) simp
  next
    case True
    then have lt: "unat copied < unat len" by (simp add: word_less_nat_alt)
    have off: "checked_add base_in copied = Some (base_in + copied)" "checked_add base_out copied = Some (base_out + copied)"
      "unat (base_in + copied) = unat base_in + unat copied" "unat (base_out + copied) = unat base_out + unat copied"
      "unat (len - copied) = unat len - unat copied"
      using lt room True by (simp_all add: checked_add_def unat_word_ariths unat_sub_if_size
          word_less_nat_alt order_le_less)
    let ?n = "min (unat (len - copied)) chunk_size"
    obtain r w1 where r: "hf_read_at h src_file ?n (base_in + copied) w = (r, w1)" by fastforce
    note c1 = copies_well_read(1) [OF h r]
    show ?thesis
    proof (cases r)
      case (Inl e)
      note p = copies_well_read(2) [OF h r Inl]
      show ?thesis
      proof (cases "is_interrupted e")
        case True
        with p have "unat len - unat copied + patience w1 < unat len - unat copied + patience w" by simp
        from less.hyps [OF this less.prems(1)] less.prems(2) c1
        have "\<exists>r w' m. copy_loop h src_file dst_file base_in base_out len chunk_size copied w1 = Some (r, w')
          \<and> m \<le> length window \<and> content w' = c(j := patch (unat base_out) (take m window) (c j))
          \<and> (\<forall>n. r = Ok n \<longrightarrow> unat n = length window \<and> m = length window)" by simp
        moreover have "copy_loop h src_file dst_file base_in base_out len chunk_size copied w
            = copy_loop h src_file dst_file base_in base_out len chunk_size copied w1"
          using True \<open>copied < len\<close> Inl r off(1) by (simp add: unfold)
        ultimately show ?thesis by simp
      next
        case False
        then have "copy_loop h src_file dst_file base_in base_out len chunk_size copied w = Some (Err (io_errno e), w1)"
          using \<open>copied < len\<close> Inl r off(1) by (simp add: unfold)
        with less.prems c1 show ?thesis
          by (intro ex3I [of _ "Err (io_errno e)" w1 "unat copied"]) simp
      qed
    next
      case (Inr buf)
      from copies_well_read(3) [OF h r Inr] off
      have b: "length buf \<le> unat len - unat copied" "length buf \<le> chunk_size"
        "buf = take (length buf) (drop (unat base_in + unat copied) (content w i))"
        "buf = [] \<Longrightarrow> length (content w i) \<le> unat base_in + unat copied" "patience w1 \<le> patience w"
        using lt chunk by auto
      have same: "take (unat len) (drop (unat base_in) (content w i)) = window"
        using stable [OF less.prems(1)] less.prems(2) by simp
      have buf: "buf = take (length buf) (drop (unat copied) window)"
      proof -
        have "take (length buf) (drop (unat copied) window)
            = take (min (length buf) (unat len - unat copied)) (drop (unat base_in + unat copied) (content w i))"
          unfolding same [symmetric] by (simp add: drop_take add.commute)
        with b(1,3) show ?thesis by (simp add: min_absorb1)
      qed
      show ?thesis
      proof (cases "buf = []")
        case True
        with b(4) have "length window \<le> unat copied" unfolding same [symmetric] by simp
        with less.prems(1) have eq: "unat copied = length window" by simp
        have "copy_loop h src_file dst_file base_in base_out len chunk_size copied w = Some (Ok copied, w1)"
          using True \<open>copied < len\<close> Inr r off(1) by (simp add: unfold)
        with eq less.prems(2) c1 show ?thesis
          by (intro ex3I [of _ "Ok copied" w1 "length window"]) simp
      next
        case False
        have fits: "unat copied + length buf \<le> length window"
        proof -
          have "length buf \<le> length (drop (unat copied) window)" using buf by (metis length_take min.cobounded1)
          with less.prems(1) show ?thesis by simp
        qed
        have "unat (base_out + copied) + length buf < 2 ^ 64" using fits win room(2) off(4) by simp
        from write_loop_patches [OF h le0 this, of w1] obtain r' w2 m where
          m: "write_loop h dst_file (base_out + copied) buf 0 w1 = Some (r', w2)" "m \<le> length buf"
            "content w2 = (content w1)(j := patch (unat base_out + unat copied) (take m buf) (content w1 j))"
            "r' = Ok () \<Longrightarrow> m = length buf \<and> patience w2 \<le> patience w1"
          using off(4) by auto
        have c2: "content w2 = c(j := patch (unat base_out) (take (unat copied + m) window) (c j))"
        proof -
          have "take (unat copied + m) window = take (unat copied) window @ take m buf"
            using take_add [of "unat copied" m window] m(2) buf by (metis min.absorb1 take_take)
          moreover have "length (take (unat copied) window) = unat copied" using less.prems(1) by simp
          ultimately show ?thesis
            using m(3) c1 less.prems(2)
              patch_append [of "unat base_out" "take (unat copied) window" "take m buf" "c j"] by simp
        qed
        show ?thesis
        proof (cases r')
          case (Inl e)
          then have "copy_loop h src_file dst_file base_in base_out len chunk_size copied w = Some (Err e, w2)"
            using False \<open>copied < len\<close> Inr r off(1,2) m(1) by (simp add: unfold)
          with c2 m(2) fits show ?thesis
            by (intro ex3I [of _ "Err e" w2 "unat copied + m"]) simp
        next
          case ok: (Inr u)
          have n: "unat (copied + of_nat (length buf)) = unat copied + length buf"
            using fits win unat_u64_bound [of len] by (simp add: unat_word_ariths unsigned_of_nat take_bit_nat_eq_self)
          have "unat len - unat (copied + of_nat (length buf)) + patience w2 < unat len - unat copied + patience w"
            using n False lt m(4) b(5) ok by (cases buf) auto
          moreover have "unat (copied + of_nat (length buf)) \<le> length window" using n fits by simp
          moreover have "content w2 = c(j := patch (unat base_out) (take (unat (copied + of_nat (length buf))) window) (c j))"
            using c2 m(4) ok n by simp
          ultimately have "\<exists>r w' m. copy_loop h src_file dst_file base_in base_out len chunk_size
                (copied + of_nat (length buf)) w2 = Some (r, w')
              \<and> m \<le> length window \<and> content w' = c(j := patch (unat base_out) (take m window) (c j))
              \<and> (\<forall>n. r = Ok n \<longrightarrow> unat n = length window \<and> m = length window)"
            using less.hyps by blast
          moreover have "copy_loop h src_file dst_file base_in base_out len chunk_size copied w
              = copy_loop h src_file dst_file base_in base_out len chunk_size (copied + of_nat (length buf)) w2"
            using False \<open>copied < len\<close> Inr r off(1,2) m(1) ok by (simp add: unfold)
          ultimately show ?thesis by simp
        qed
      qed
    qed
  qed
qed

lemma copy_window_stable:
  assumes "i \<noteq> j \<or> off + len \<le> length (c i) \<and> (off + len \<le> out \<or> out + len \<le> off)"
    and window: "window = take len (drop off (c i))"
  shows "take len (drop off ((c(j := patch out (take m window) (c j))) i)) = window"
proof (cases "i = j")
  case True
  with assms(1) have a: "off + len \<le> length (c i)" "off + len \<le> out \<or> out + len \<le> off" by auto
  then have "off + len \<le> out \<or> out + length (take m window) \<le> off" by (auto simp: window)
  from window_patch [OF a(1) this] True show ?thesis by (simp add: window)
qed (simp add: window)

lemma reject_overlapping_cases:
  assumes h: "copies_well h src_file dst_file content i j patience"
    and r: "reject_overlapping_same_file_copy h src_file dst_file a b len w = (r, w')"
  shows "w' = w" "r = Ok () \<Longrightarrow> i \<noteq> j \<or> unat a + unat len \<le> unat b \<or> unat b + unat len \<le> unat a"
proof -
  show "w' = w" using r
    by (auto simp: reject_overlapping_same_file_copy_def srv_bind_def io_look_def split: sum.splits)
  assume "r = Ok ()"
  with r obtain s d where m: "hf_metadata h src_file w = Ok s" "hf_metadata h dst_file w = Ok d"
    and o: "md_dev s \<noteq> md_dev d \<or> md_ino s \<noteq> md_ino d \<or> (\<exists>e f. checked_add a len = Some e
      \<and> checked_add b len = Some f \<and> \<not> (a < f \<and> b < e))"
    by (auto simp: reject_overlapping_same_file_copy_def srv_bind_def io_look_def ok_iffs map_err_def
        split: sum.splits if_splits)
  from m h have "i = (md_dev s, md_ino s)" "j = (md_dev d, md_ino d)"
    unfolding copies_well_def by metis+
  with o show "i \<noteq> j \<or> unat a + unat len \<le> unat b \<or> unat b + unat len \<le> unat a"
    by (auto simp: checked_add_def word_less_nat_alt not_less unat_word_ariths split: if_splits)
qed

section \<open>A host in memory\<close>

text \<open>
  A host for the examples: files are numbered and kept in memory, a read returns at
  most two bytes, a write takes at most three, and the first calls are interrupted.
\<close>

record memory =
  mem_files :: "(u64, bytes) hash_map"
  mem_cursor :: nat
  mem_interrupts :: nat

definition mem_bytes :: "memory \<Rightarrow> u64 \<Rightarrow> bytes" where
  "mem_bytes m f = (case hm_get (mem_files m) f of None \<Rightarrow> [] | Some b \<Rightarrow> b)"

definition mem_metadata :: "memory \<Rightarrow> u64 \<Rightarrow> Metadata" where
  "mem_metadata m f =
    \<lparr>md_dev = 0, md_ino = f, md_mode = 0x81A4, md_nlink = 1, md_uid = 0, md_gid = 0,
     md_size = of_nat (length (mem_bytes m f)), md_atime = 0, md_atime_nsec = 0, md_mtime = 0,
     md_mtime_nsec = 0, md_ctime = 0, md_ctime_nsec = 0\<rparr>"

definition mem_interruptible :: "(memory, 'a) io_call \<Rightarrow> (memory, 'a) io_call" where
  "mem_interruptible f m =
    (if mem_interrupts m > 0 then (Err (Os EINTR), m\<lparr>mem_interrupts := mem_interrupts m - 1\<rparr>) else f m)"

definition memory_host :: "(u64, memory) host_fs" where
  "memory_host = refusing_host
    \<lparr>hf_metadata := (\<lambda>f m. Ok (mem_metadata m f)),
     hf_try_clone := (\<lambda>f m. (Ok f, m)),
     hf_seek := (\<lambda>f n m. (Ok (), m\<lparr>mem_cursor := unat n\<rparr>)),
     hf_read := (\<lambda>f n. mem_interruptible (\<lambda>m.
       let buf = take (min n 2) (drop (mem_cursor m) (mem_bytes m f))
       in (Ok buf, m\<lparr>mem_cursor := mem_cursor m + length buf\<rparr>))),
     hf_write := (\<lambda>f bs m. (Ok (length bs),
       m\<lparr>mem_files := hm_insert f (patch (mem_cursor m) bs (mem_bytes m f)) (mem_files m)\<rparr>)),
     hf_sync_all := (\<lambda>f m. (Ok (), m)),
     hf_sync_data := (\<lambda>f m. (Ok (), m)),
     hf_read_at := (\<lambda>f n off. mem_interruptible (\<lambda>m.
       (Ok (take (min n 2) (drop (unat off) (mem_bytes m f))), m))),
     hf_write_at := (\<lambda>f bs off. mem_interruptible (\<lambda>m.
       (Ok (min 3 (length bs)),
        m\<lparr>mem_files := hm_insert f (patch (unat off) (take 3 bs) (mem_bytes m f)) (mem_files m)\<rparr>)))\<rparr>"

definition mem_content :: "memory \<Rightarrow> u64 \<times> u64 \<Rightarrow> bytes" where
  "mem_content m = (\<lambda>(dev, ino). if dev = 0 then mem_bytes m ino else [])"

lemma take_min_length [simp]:
  "take (min (length c - k) n) (drop k c) = take n (drop k c)" "take (min n (length c)) c = take n c"
  by (simp_all add: min_def)

lemma mem_bytes_update [simp]:
  "mem_bytes (m\<lparr>mem_cursor := k\<rparr>) f = mem_bytes m f"
  "mem_bytes (m\<lparr>mem_interrupts := n\<rparr>) f = mem_bytes m f"
  by (simp_all add: mem_bytes_def)

lemma memory_reads_well: "reads_well memory_host f (\<lambda>m. mem_bytes m f) mem_cursor mem_interrupts"
  unfolding reads_well_def
  by (auto simp: memory_host_def mem_interruptible_def is_interrupted_def Let_def
      split: if_splits sum.splits)

lemma mem_content_update [simp]:
  "mem_content (m\<lparr>mem_files := hm_insert f b (mem_files m)\<rparr>) = (mem_content m)((0, f) := b)"
  "mem_content (m\<lparr>mem_interrupts := n\<rparr>) = mem_content m"
  "mem_content m (0, f) = mem_bytes m f"
  by (auto simp: mem_content_def mem_bytes_def fun_eq_iff)

lemma memory_copies_well: "copies_well memory_host f g mem_content (0, f) (0, g) mem_interrupts"
  unfolding copies_well_def
  by (auto simp: memory_host_def mem_interruptible_def is_interrupted_def mem_metadata_def
      split: if_splits sum.splits)

section \<open>The calls\<close>

text \<open>
  Reading returns, and returns the right bytes. On a host that keeps the contract
  of \<open>read\<close> and \<open>lseek\<close> and interrupts finitely often, a read at an offset comes back;
  unless the host failed, its data is exactly the part of the file that starts at the
  offset, as long as asked for and allowed, however the host cut the transfer up.
\<close>

lemma read_file_at_exact:
  assumes "reads_well h file content cursor patience" "0 \<le> offset" "offset < 2 ^ 63"
    "0 < lim_io_chunk_bytes limits"
  shows "\<exists>r w'. read_file_at h file offset n limits w = Some (r, w') \<and> content w' = content w
    \<and> (\<forall>data. r = Ok data \<longrightarrow> data = take (read_amount limits n) (drop (nat offset) (content w)))"
proof -
  obtain r w1 where r: "hf_seek h file (word_of_int offset) w = (r, w1)" by fastforce
  note s = reads_well_seek [OF assms(1) r]
  show ?thesis
  proof (cases r)
    case (Inl e)
    then have "read_file_at h file offset n limits w = Some (Err (io_errno e), w1)"
      using assms(2) r by (simp add: read_file_at_def io_do_def)
    with s(1) show ?thesis by simp
  next
    case (Inr u)
    then have "cursor w1 = nat offset + length ([] :: bytes)"
      using s(2) unat_word_of_offset [OF assms(2,3)] by simp
    from read_loop_exact [where got = "[]" and off = "nat offset", OF assms(1,4) _ _ this, of "read_amount limits n"] s(1)
    have "\<exists>r w'. read_loop h file (lim_io_chunk_bytes limits) (read_amount limits n) [] w1 = Some (r, w')
      \<and> content w' = content w
      \<and> (\<forall>data. r = Ok data \<longrightarrow> data = take (read_amount limits n) (drop (nat offset) (content w)))"
      by simp
    moreover have "read_file_at h file offset n limits w
        = read_loop h file (lim_io_chunk_bytes limits) (read_amount limits n) [] w1"
      using assms(2) r Inr by (simp add: read_file_at_def io_do_def)
    ultimately show ?thesis by simp
  qed
qed

definition sample_memory :: memory where
  "sample_memory = \<lparr>mem_files = [(7, [1, 2, 3, 4, 5]), (8, [9])], mem_cursor = 0, mem_interrupts = 1\<rparr>"

text \<open>
  C34: copying between files returns and copies what it says. On a host that keeps the
  contract of \<open>pread\<close>, \<open>pwrite\<close> and \<open>fstat\<close> and interrupts finitely often, a copy
  comes back; the output has changed by a prefix of the requested part of the input at
  the output offset and nothing else has; and when the copy reports a number of bytes
  the prefix is all of that part and the number is its length. Input and output may be
  the same file if the requested part of it exists.
\<close>

theorem copy_file_range_exact:
  assumes "copies_well h src_file dst_file content i j patience"
    "0 \<le> offset_in" "offset_in < 2 ^ 63" "0 \<le> offset_out" "offset_out < 2 ^ 63"
    "nat offset_in + unat len < 2 ^ 64" "nat offset_out + unat len < 2 ^ 64"
    "i \<noteq> j \<or> nat offset_in + unat len \<le> length (content w i)"
    "window = take (unat len) (drop (nat offset_in) (content w i))"
  shows "\<exists>r w' m. copy_file_range_at h src_file dst_file offset_in offset_out len limits w = Some (r, w')
    \<and> m \<le> length window
    \<and> content w' = (content w)(j := patch (nat offset_out) (take m window) (content w j))
    \<and> (\<forall>n. r = Ok n \<longrightarrow> unat n = length window \<and> m = length window)"
proof -
  note off = unat_word_of_offset [OF assms(2,3)] unat_word_of_offset [OF assms(4,5)]
  obtain r w1 where r: "reject_overlapping_same_file_copy h src_file dst_file
      (word_of_int offset_in) (word_of_int offset_out) len w = (r, w1)" by fastforce
  note rej = reject_overlapping_cases [OF assms(1) r]
  consider "len = 0" | e where "len \<noteq> 0" "r = Err e" | "len \<noteq> 0" "r = Ok ()"
    by (cases r) auto
  then show ?thesis
  proof cases
    case 1
    with assms(2,4) have "copy_file_range_at h src_file dst_file offset_in offset_out len limits w = Some (Ok 0, w)"
      by (simp add: copy_file_range_at_def)
    with 1 assms(9) show ?thesis by simp
  next
    case 2
    with assms(2,4) r rej(1) have "copy_file_range_at h src_file dst_file offset_in offset_out len limits w = Some (Err e, w)"
      by (simp add: copy_file_range_at_def)
    then show ?thesis by (intro ex3I [of _ "Err e" w 0]) simp
  next
    case 3
    let ?chunk = "max (min (lim_io_chunk_bytes limits) (unat len)) 1"
    have room: "unat (word_of_int offset_in :: u64) + unat len < 2 ^ 64"
      "unat (word_of_int offset_out :: u64) + unat len < 2 ^ 64" using assms(6,7) off by simp_all
    have stable: "take (unat len) (drop (unat (word_of_int offset_in :: u64)) (((content w)
        (j := patch (unat (word_of_int offset_out :: u64)) (take m window) (content w j))) i)) = window" for m
      using copy_window_stable [of i j "nat offset_in" "unat len" "content w" "nat offset_out" window m]
        assms(8,9) rej(2) [OF 3(2)] off by auto
    from copy_loop_patches [OF assms(1) _ room _ stable, where chunk_size = ?chunk and copied = 0 and w = w1]
      rej(1) off assms(9)
    have "\<exists>r w' m. copy_loop h src_file dst_file (word_of_int offset_in) (word_of_int offset_out) len
        ?chunk 0 w1 = Some (r, w') \<and> m \<le> length window
      \<and> content w' = (content w)(j := patch (nat offset_out) (take m window) (content w j))
      \<and> (\<forall>n. r = Ok n \<longrightarrow> unat n = length window \<and> m = length window)" by simp
    moreover have "copy_file_range_at h src_file dst_file offset_in offset_out len limits w
        = copy_loop h src_file dst_file (word_of_int offset_in) (word_of_int offset_out) len ?chunk 0 w1"
      using assms(2,4) r 3 by (simp add: copy_file_range_at_def)
    ultimately show ?thesis by simp
  qed
qed

theorem copy_file_range_exact_witness:
  "\<exists>r w' m. copy_file_range_at memory_host 7 8 1 2 9 FsLimits_default sample_memory = Some (r, w')
    \<and> mem_content w' (0, 8) = patch 2 (take m [2, 3, 4, 5]) [9] \<and> (\<forall>n. r = Ok n \<longrightarrow> unat n = 4 \<and> m = 4)"
proof -
  have c: "[2, 3, 4, 5] = take (unat (9 :: u64)) (drop (nat 1) (mem_content sample_memory (0, 7)))"
    "mem_content sample_memory (0, 8) = [9]"
    by (simp_all add: sample_memory_def mem_bytes_def)
  have "\<exists>r w' m. copy_file_range_at memory_host 7 8 1 2 9 FsLimits_default sample_memory = Some (r, w')
      \<and> m \<le> length [2, 3, 4, 5 :: u8]
      \<and> mem_content w' = (mem_content sample_memory)((0, 8) := patch (nat 2) (take m [2, 3, 4, 5]) (mem_content sample_memory (0, 8)))
      \<and> (\<forall>n. r = Ok n \<longrightarrow> unat n = length [2, 3, 4, 5 :: u8] \<and> m = length [2, 3, 4, 5 :: u8])"
    by (rule copy_file_range_exact [OF memory_copies_well _ _ _ _ _ _ _ c(1)]) simp_all
  then obtain r w' m where "copy_file_range_at memory_host 7 8 1 2 9 FsLimits_default sample_memory = Some (r, w')"
      "mem_content w' (0, 8) = patch 2 (take m [2, 3, 4, 5]) [9]" "\<forall>n. r = Ok n \<longrightarrow> unat n = 4 \<and> m = 4"
    unfolding c(2) by (metis fun_upd_same list.size(3,4) nat_numeral numeral_Bit0 numeral_One
        add_Suc_right add.right_neutral One_nat_def one_add_one)
  then show ?thesis by blast
qed

text \<open>
  Within one file the same copy does not stop at the end of the file when the output
  lies behind it: the first write extends the file, and the next read returns the zeros
  of the gap. Copying four bytes from the start of a file of two reports four.
\<close>

lemma copy_past_own_end:
  "map_option (\<lambda>(r, w). (r, mem_bytes w 7)) (copy_file_range_at memory_host 7 7 0 4 4 FsLimits_default
      \<lparr>mem_files = [(7, [1, 2])], mem_cursor = 0, mem_interrupts = 0\<rparr>)
    = Some (Ok 4, [1, 2, 0, 0, 1, 2, 0, 0])"
  by (simp add: copy_file_range_at_def reject_overlapping_same_file_copy_def srv_bind_def io_look_def
      memory_host_def mem_metadata_def checked_add_def copy_loop.simps write_loop.simps
      mem_interruptible_def mem_bytes_def patch_def FsLimits_default_def)
    (simp add: numeral_2_eq_2)

end
