(* ===== verification/StorageRuntime.thy ===== *)
theory StorageRuntime
  imports ServerByteIo ServerPaths
begin

text \<open>
  The open objects of the server, \<open>fabricfs-server/src/storage_runtime.rs\<close>: the table
  of handles and the two lock tables, each behind a mutex, over a host. A mutex is a
  poison flag beside what it protects; a poisoned mutex is repaired by the next
  operation that locks it, which then fails (\<open>runtime_state.rs\<close>). The state of the host
  is a component of the state, so that every operation is a function of one state.
\<close>

section \<open>State\<close>

definition MIN_HANDLE_ID :: u64 where "MIN_HANDLE_ID = 1"

record ResolvedStorageObject =
  ro_virtual_path :: string
  ro_host_path :: string
  ro_permission_updates_blocked :: bool

definition ResolvedStorageObject_new :: "string \<Rightarrow> string \<Rightarrow> ResolvedStorageObject" where
  "ResolvedStorageObject_new virtual_path host_path =
    \<lparr>ro_virtual_path = virtual_path, ro_host_path = host_path, ro_permission_updates_blocked = False\<rparr>"

definition with_permission_updates_blocked :: "ResolvedStorageObject \<Rightarrow> bool \<Rightarrow> ResolvedStorageObject" where
  "with_permission_updates_blocked object deny = object\<lparr>ro_permission_updates_blocked := deny\<rparr>"

record 'f HandleEntry =
  he_path :: string
  he_kind :: HandleKind
  he_access_bits :: u32
  he_offset :: u64
  he_permission_updates_blocked :: bool
  he_file :: "'f option"

record 'f HandleState =
  hs_next :: u64
  hs_entries :: "(u64, 'f HandleEntry) hash_map"

record ('f, 'w) StorageRuntime =
  sr_limits :: FsLimits
  sr_handles :: "'f HandleState"
  sr_handles_poisoned :: bool
  sr_locks :: LockTable
  sr_locks_poisoned :: bool
  sr_flocks :: FlockTable
  sr_flocks_poisoned :: bool
  sr_world :: 'w

type_synonym ('f, 'w, 'a) rt_call = "(('f, 'w) StorageRuntime, 'a) call"

definition StorageRuntime_new :: "FsLimits \<Rightarrow> 'w \<Rightarrow> ('f, 'w) StorageRuntime" where
  "StorageRuntime_new limits w =
    \<lparr>sr_limits = limits_validated limits, sr_handles = \<lparr>hs_next = 0, hs_entries = []\<rparr>,
     sr_handles_poisoned = False, sr_locks = [], sr_locks_poisoned = False,
     sr_flocks = [], sr_flocks_poisoned = False, sr_world = w\<rparr>"

text \<open>A call of the host inside an operation.\<close>

definition on_host :: "('w, 'a) call \<Rightarrow> ('f, 'w, 'a) rt_call" where
  "on_host m s = (fst (m (sr_world s)), s\<lparr>sr_world := snd (m (sr_world s))\<rparr>)"

section \<open>Mutexes\<close>

definition rt_lock_handles :: "('f, 'w, 'f HandleState) rt_call" where
  "rt_lock_handles s =
    (if sr_handles_poisoned s
     then (Err EIO, s\<lparr>sr_handles := \<lparr>hs_next = MIN_HANDLE_ID, hs_entries = []\<rparr>, sr_handles_poisoned := False\<rparr>)
     else (Ok (sr_handles s), s))"

definition rt_lock_locks :: "('f, 'w, LockTable) rt_call" where
  "rt_lock_locks s =
    (if sr_locks_poisoned s then (Err EIO, s\<lparr>sr_locks := [], sr_locks_poisoned := False\<rparr>)
     else (Ok (sr_locks s), s))"

definition rt_lock_flocks :: "('f, 'w, FlockTable) rt_call" where
  "rt_lock_flocks s =
    (if sr_flocks_poisoned s then (Err EIO, s\<lparr>sr_flocks := [], sr_flocks_poisoned := False\<rparr>)
     else (Ok (sr_flocks s), s))"

section \<open>Handles\<close>

definition allocate_handle :: "string \<Rightarrow> HandleKind \<Rightarrow> u32 \<Rightarrow> bool \<Rightarrow> 'f option \<Rightarrow> ('f, 'w, u64) rt_call" where
  "allocate_handle p kind access_bits permission_updates_blocked file =
    srv_bind rt_lock_handles (\<lambda>handles s.
      let fh = max (hs_next handles) MIN_HANDLE_ID
      in (Ok fh, s\<lparr>sr_handles :=
            \<lparr>hs_next = saturating_add fh 1,
             hs_entries = hm_insert fh
               \<lparr>he_path = p, he_kind = kind, he_access_bits = access_bits, he_offset = 0,
                he_permission_updates_blocked = permission_updates_blocked, he_file = file\<rparr>
               (hs_entries handles)\<rparr>\<rparr>))"

definition ensure_handle_matches :: "'f HandleEntry \<Rightarrow> string \<Rightarrow> HandleKind \<Rightarrow> i32 + unit" where
  "ensure_handle_matches handle p expected =
    (if he_path handle \<noteq> p \<or> he_kind handle \<noteq> expected then Err EBADF else Ok ())"

definition clone_file_handle_with_policy_from_state ::
    "('f, 'w) host_fs \<Rightarrow> 'f HandleState \<Rightarrow> string \<Rightarrow> u64 \<Rightarrow> u32 \<Rightarrow> ('f, 'w, 'f \<times> u32 \<times> bool) rt_call" where
  "clone_file_handle_with_policy_from_state h handles p fh required_access =
    srv_bind (srv_give (ok_or EBADF (hm_get (hs_entries handles) fh))) (\<lambda>handle.
    srv_bind (srv_give (ensure_handle_matches handle p Handle_File)) (\<lambda>_.
      if he_access_bits handle AND required_access \<noteq> required_access then srv_give (Err EBADF)
      else srv_bind (srv_give (ok_or EBADF (he_file handle))) (\<lambda>file.
        srv_bind (on_host (io_do (hf_try_clone h file))) (\<lambda>file.
        srv_give (Ok (file, he_access_bits handle, he_permission_updates_blocked handle))))))"

definition clone_file_handle_from_state ::
    "('f, 'w) host_fs \<Rightarrow> 'f HandleState \<Rightarrow> string \<Rightarrow> u64 \<Rightarrow> u32 \<Rightarrow> ('f, 'w, 'f) rt_call" where
  "clone_file_handle_from_state h handles p fh required_access =
    srv_bind (clone_file_handle_with_policy_from_state h handles p fh required_access) (\<lambda>v.
      srv_give (Ok (fst v)))"

definition clone_file_handle_with_policy ::
    "('f, 'w) host_fs \<Rightarrow> ResolvedStorageObject \<Rightarrow> u64 \<Rightarrow> u32 \<Rightarrow> ('f, 'w, 'f \<times> u32 \<times> bool) rt_call" where
  "clone_file_handle_with_policy h object fh required_access =
    srv_bind rt_lock_handles (\<lambda>handles.
      clone_file_handle_with_policy_from_state h handles (ro_virtual_path object) fh required_access)"

definition clone_file_handle ::
    "('f, 'w) host_fs \<Rightarrow> ResolvedStorageObject \<Rightarrow> u64 \<Rightarrow> u32 \<Rightarrow> ('f, 'w, 'f) rt_call" where
  "clone_file_handle h object fh required_access =
    srv_bind (clone_file_handle_with_policy h object fh required_access) (\<lambda>v. srv_give (Ok (fst v)))"

definition sync_handle_from_state ::
    "('f, 'w) host_fs \<Rightarrow> 'f HandleState \<Rightarrow> string \<Rightarrow> u64 \<Rightarrow> HandleKind \<Rightarrow> bool \<Rightarrow> ('f, 'w, unit) rt_call" where
  "sync_handle_from_state h handles p fh expected datasync =
    srv_bind (srv_give (ok_or EBADF (hm_get (hs_entries handles) fh))) (\<lambda>handle.
    srv_bind (srv_give (ensure_handle_matches handle p expected)) (\<lambda>_.
    srv_bind (srv_give (ok_or EBADF (he_file handle))) (\<lambda>file.
      on_host (io_do (if datasync then hf_sync_data h file else hf_sync_all h file)))))"

section \<open>Opening and releasing\<close>

definition open_existing ::
    "('f, 'w) host_fs \<Rightarrow> ResolvedStorageObject \<Rightarrow> HandleKind \<Rightarrow> i32 \<Rightarrow> FuseContext \<Rightarrow> ('f, 'w, u64 \<times> Stat) rt_call" where
  "open_existing h object kind flags ctx =
    srv_bind (on_host (io_look (h_symlink_metadata h (ro_host_path object)))) (\<lambda>link_meta.
    srv_bind (if md_is_symlink link_meta then on_host (io_look (h_metadata h (ro_host_path object)))
        else srv_give (Ok link_meta)) (\<lambda>meta.
      if kind = Handle_Dir \<and> \<not> md_is_dir meta then srv_give (Err ENOTDIR)
      else if kind = Handle_File \<and> md_is_dir meta then srv_give (Err EISDIR)
      else case kind of
        Handle_File \<Rightarrow>
          srv_bind (srv_give (ensure_regular_file meta)) (\<lambda>_.
          srv_bind (srv_give (ensure_open_flags_allowed meta (ctx_uid ctx) (ctx_gid ctx) flags)) (\<lambda>access_bits.
          srv_bind (on_host (io_do (h_open h (oo_read_only\<lparr>oo_read := access_bits AND 4 \<noteq> 0,
              oo_write := access_bits AND 2 \<noteq> 0\<rparr>) (ro_host_path object)))) (\<lambda>file.
          srv_bind (if flags AND O_TRUNC \<noteq> 0 then on_host (io_do (hf_set_len h file 0)) else srv_give (Ok ())) (\<lambda>_.
          srv_bind (on_host (io_look (hf_metadata h file))) (\<lambda>meta.
          srv_bind (allocate_handle (ro_virtual_path object) kind access_bits
              (ro_permission_updates_blocked object) (Some file)) (\<lambda>fh.
          srv_give (Ok (fh, metadata_to_stat meta))))))))
      | Handle_Dir \<Rightarrow>
          srv_bind (srv_give (ensure_search_allowed meta (ctx_uid ctx) (ctx_gid ctx))) (\<lambda>_.
          srv_bind (on_host (io_do (h_open h oo_read_only (ro_host_path object)))) (\<lambda>file.
          srv_bind (allocate_handle (ro_virtual_path object) kind 0
              (ro_permission_updates_blocked object) (Some file)) (\<lambda>fh.
          srv_give (Ok (fh, metadata_to_stat meta)))))))"

definition register_file_handle ::
    "('f, 'w) host_fs \<Rightarrow> ResolvedStorageObject \<Rightarrow> u32 \<Rightarrow> 'f \<Rightarrow> ('f, 'w, u64 \<times> Stat) rt_call" where
  "register_file_handle h object access_bits file =
    srv_bind (on_host (io_look (hf_metadata h file))) (\<lambda>meta.
    srv_bind (allocate_handle (ro_virtual_path object) Handle_File access_bits
        (ro_permission_updates_blocked object) (Some file)) (\<lambda>fh.
    srv_give (Ok (fh, metadata_to_stat meta))))"

definition check_handle :: "ResolvedStorageObject \<Rightarrow> u64 option \<Rightarrow> HandleKind \<Rightarrow> ('f, 'w, unit) rt_call" where
  "check_handle object fh expected =
    srv_bind (srv_give (ok_or EINVAL fh)) (\<lambda>fh.
    srv_bind rt_lock_handles (\<lambda>handles.
    srv_bind (srv_give (ok_or EBADF (hm_get (hs_entries handles) fh))) (\<lambda>handle.
    srv_give (ensure_handle_matches handle (ro_virtual_path object) expected))))"

definition rt_release_handle :: "u64 \<Rightarrow> ('f, 'w) StorageRuntime \<Rightarrow> ('f, 'w) StorageRuntime" where
  "rt_release_handle fh s =
    (let s = (if sr_handles_poisoned s then s
          else s\<lparr>sr_handles := (sr_handles s)\<lparr>hs_entries := hm_remove fh (hs_entries (sr_handles s))\<rparr>\<rparr>);
         s = (if sr_locks_poisoned s then s else s\<lparr>sr_locks := locks_release_handle fh (sr_locks s)\<rparr>)
     in if sr_flocks_poisoned s then s else s\<lparr>sr_flocks := flock_release_handle fh (sr_flocks s)\<rparr>)"

definition rewrite_entry :: "string \<Rightarrow> string \<Rightarrow> 'f HandleEntry \<Rightarrow> 'f HandleEntry" where
  "rewrite_entry old_path new_path e =
    (if he_path e = old_path then e\<lparr>he_path := new_path\<rparr>
     else case descendant_suffix (he_path e) old_path of
       None \<Rightarrow> e
     | Some rest \<Rightarrow> e\<lparr>he_path := new_path @ rest\<rparr>)"

definition rewrite_paths :: "string \<Rightarrow> string \<Rightarrow> ('f, 'w, unit) rt_call" where
  "rewrite_paths old_path new_path =
    srv_bind (srv_bind rt_lock_handles (\<lambda>handles s. (Ok (), s\<lparr>sr_handles :=
      handles\<lparr>hs_entries := map (\<lambda>(k, e). (k, rewrite_entry old_path new_path e)) (hs_entries handles)\<rparr>\<rparr>))) (\<lambda>_.
    srv_bind (srv_bind rt_lock_locks (\<lambda>locks s. (Ok (), s\<lparr>sr_locks := locks_rename_path old_path new_path locks\<rparr>))) (\<lambda>_.
    srv_bind rt_lock_flocks (\<lambda>flocks s. (Ok (), s\<lparr>sr_flocks := flock_rename_path old_path new_path flocks\<rparr>))))"

section \<open>Bytes and attributes\<close>

text \<open>An operation that may not return, on the host inside an operation on handles.\<close>

definition loop_on_host :: "('w \<Rightarrow> ((i32 + 'a) \<times> 'w) option) \<Rightarrow> ('f, 'w) StorageRuntime
    \<Rightarrow> ((i32 + 'a) \<times> ('f, 'w) StorageRuntime) option" where
  "loop_on_host m s = map_option (\<lambda>(r, w). (r, s\<lparr>sr_world := w\<rparr>)) (m (sr_world s))"

text \<open>What comes before the loop: an error ends the operation.\<close>

definition then_loop :: "('s, 'a) call \<Rightarrow> ('a \<Rightarrow> 's \<Rightarrow> ((i32 + 'b) \<times> 's) option) \<Rightarrow> 's \<Rightarrow> ((i32 + 'b) \<times> 's) option" where
  "then_loop m f s = (case m s of (Inr a, s') \<Rightarrow> f a s' | (Inl e, s') \<Rightarrow> Some (Err e, s'))"

definition rt_read_path :: "('f, 'w) host_fs \<Rightarrow> ResolvedStorageObject \<Rightarrow> i64 \<Rightarrow> i64 \<Rightarrow> FuseContext
    \<Rightarrow> ('f, 'w) StorageRuntime \<Rightarrow> ((i32 + bytes) \<times> ('f, 'w) StorageRuntime) option" where
  "rt_read_path h object offset n ctx =
    then_loop (srv_bind (on_host (io_do (h_open h oo_read_only (ro_host_path object)))) (\<lambda>file.
      srv_bind (on_host (io_look (hf_metadata h file))) (\<lambda>meta.
      srv_bind (srv_give (ensure_read_allowed meta (ctx_uid ctx) (ctx_gid ctx))) (\<lambda>_.
      srv_give (Ok file)))))
    (\<lambda>file s. loop_on_host (read_file_at h file offset n (sr_limits s)) s)"

definition rt_write_path :: "('f, 'w) host_fs \<Rightarrow> ResolvedStorageObject \<Rightarrow> i64 \<Rightarrow> bytes \<Rightarrow> FuseContext
    \<Rightarrow> ('f, 'w, nat) rt_call" where
  "rt_write_path h object offset data ctx =
    srv_bind (on_host (io_do (h_open h oo_write_only (ro_host_path object)))) (\<lambda>file.
    srv_bind (on_host (io_look (hf_metadata h file))) (\<lambda>meta.
    srv_bind (srv_give (ensure_write_allowed meta (ctx_uid ctx) (ctx_gid ctx))) (\<lambda>_.
    on_host (write_file_at h file offset data))))"

text \<open>The open file of a handle that matches a path and grants an access.\<close>

definition handle_file :: "ResolvedStorageObject \<Rightarrow> u64 \<Rightarrow> u32 \<Rightarrow> ('f, 'w, 'f) rt_call" where
  "handle_file object fh access =
    srv_bind rt_lock_handles (\<lambda>handles.
    srv_bind (srv_give (ok_or EBADF (hm_get (hs_entries handles) fh))) (\<lambda>handle.
    srv_bind (srv_give (ensure_handle_matches handle (ro_virtual_path object) Handle_File)) (\<lambda>_.
      if he_access_bits handle AND access = 0 then srv_give (Err EBADF)
      else srv_give (ok_or EBADF (he_file handle)))))"

definition rt_read_fh :: "('f, 'w) host_fs \<Rightarrow> ResolvedStorageObject \<Rightarrow> u64 \<Rightarrow> i64 \<Rightarrow> i64
    \<Rightarrow> ('f, 'w) StorageRuntime \<Rightarrow> ((i32 + bytes) \<times> ('f, 'w) StorageRuntime) option" where
  "rt_read_fh h object fh offset n =
    then_loop (handle_file object fh 4)
      (\<lambda>file s. loop_on_host (read_file_at h file offset n (sr_limits s)) s)"

definition rt_write_fh :: "('f, 'w) host_fs \<Rightarrow> ResolvedStorageObject \<Rightarrow> u64 \<Rightarrow> i64 \<Rightarrow> bytes \<Rightarrow> ('f, 'w, nat) rt_call" where
  "rt_write_fh h object fh offset data =
    srv_bind (handle_file object fh 2) (\<lambda>file. on_host (write_file_at h file offset data))"

definition rt_setattr_fh :: "('f, 'w) host_fs \<Rightarrow> ResolvedStorageObject \<Rightarrow> u64 \<Rightarrow> u32 option \<Rightarrow> u32 option
    \<Rightarrow> u32 option \<Rightarrow> u64 option \<Rightarrow> FuseContext \<Rightarrow> ('f, 'w, Stat) rt_call" where
  "rt_setattr_fh h object fh mode uid gid n ctx =
    srv_bind (clone_file_handle_with_policy h object fh (if n \<noteq> None then 2 else 0)) (\<lambda>(file, access_bits, deny).
      if (mode \<noteq> None \<or> uid \<noteq> None \<or> gid \<noteq> None) \<and> deny then srv_give (Err EACCES)
      else on_host (apply_handle_setattr h file access_bits mode uid gid n ctx))"

definition rt_sync_file_fh :: "('f, 'w) host_fs \<Rightarrow> ResolvedStorageObject \<Rightarrow> u64 \<Rightarrow> bool \<Rightarrow> ('f, 'w, unit) rt_call" where
  "rt_sync_file_fh h object fh datasync =
    srv_bind rt_lock_handles (\<lambda>handles.
      sync_handle_from_state h handles (ro_virtual_path object) fh Handle_File datasync)"

definition rt_sync_dir_fh :: "('f, 'w) host_fs \<Rightarrow> ResolvedStorageObject \<Rightarrow> u64 \<Rightarrow> bool \<Rightarrow> ('f, 'w, unit) rt_call" where
  "rt_sync_dir_fh h object fh datasync =
    srv_bind rt_lock_handles (\<lambda>handles.
      sync_handle_from_state h handles (ro_virtual_path object) fh Handle_Dir datasync)"

definition rt_copy_file_range :: "('f, 'w) host_fs \<Rightarrow> ResolvedStorageObject \<Rightarrow> ResolvedStorageObject \<Rightarrow> u64 \<Rightarrow> u64
    \<Rightarrow> i64 \<Rightarrow> i64 \<Rightarrow> u64 \<Rightarrow> ('f, 'w) StorageRuntime \<Rightarrow> ((i32 + u64) \<times> ('f, 'w) StorageRuntime) option" where
  "rt_copy_file_range h input output fh_in fh_out offset_in offset_out len =
    then_loop
      (if offset_in < 0 \<or> offset_out < 0 then srv_give (Err EINVAL)
       else srv_bind rt_lock_handles (\<lambda>handles.
         srv_bind (clone_file_handle_from_state h handles (ro_virtual_path input) fh_in 4) (\<lambda>src_file.
         srv_bind (clone_file_handle_from_state h handles (ro_virtual_path output) fh_out 2) (\<lambda>dst_file.
         srv_give (Ok (src_file, dst_file))))))
      (\<lambda>(src_file, dst_file) s.
        loop_on_host (copy_file_range_at h src_file dst_file offset_in offset_out len (sr_limits s)) s)"

definition rt_fallocate :: "('f, 'w) host_fs \<Rightarrow> ResolvedStorageObject \<Rightarrow> u64 \<Rightarrow> i64 \<Rightarrow> i64 \<Rightarrow> i32 \<Rightarrow> ('f, 'w, unit) rt_call" where
  "rt_fallocate h object fh offset len mode =
    srv_bind (srv_give (ensure_fallocate_mode_supported mode)) (\<lambda>_.
    srv_bind (clone_file_handle h object fh 2) (\<lambda>file.
    on_host (apply_mode_zero_fallocate h file offset len)))"

definition rt_lseek :: "('f, 'w) host_fs \<Rightarrow> ResolvedStorageObject \<Rightarrow> u64 \<Rightarrow> i64 \<Rightarrow> i32 \<Rightarrow> ('f, 'w, i64) rt_call" where
  "rt_lseek h object fh offset whence =
    srv_bind rt_lock_handles (\<lambda>handles.
    srv_bind (srv_give (ok_or EBADF (hm_get (hs_entries handles) fh))) (\<lambda>handle.
    srv_bind (srv_give (ensure_handle_matches handle (ro_virtual_path object) Handle_File)) (\<lambda>_.
    srv_bind (srv_give (ok_or EBADF (he_file handle))) (\<lambda>file.
    srv_bind (on_host (io_look (hf_metadata h file))) (\<lambda>meta.
    srv_bind (srv_give (seek_offset (he_offset handle) (md_size meta) offset whence)) (\<lambda>new_offset s.
      (Ok (sint new_offset),
       s\<lparr>sr_handles := handles\<lparr>hs_entries :=
         hm_insert fh (handle\<lparr>he_offset := new_offset\<rparr>) (hs_entries handles)\<rparr>\<rparr>)))))))"

section \<open>Locks\<close>

definition rt_lock_key :: "('f, 'w) host_fs \<Rightarrow> 'f \<Rightarrow> ('f, 'w, string) rt_call" where
  "rt_lock_key h file =
    srv_bind (on_host (io_look (hf_metadata h file))) (\<lambda>meta.
      srv_give (Ok (lock_key_for_file (md_dev meta) (md_ino meta))))"

definition rt_release_posix_locks :: "('f, 'w) host_fs \<Rightarrow> ResolvedStorageObject \<Rightarrow> u64 \<Rightarrow> u64 \<Rightarrow> ('f, 'w, unit) rt_call" where
  "rt_release_posix_locks h object fh owner =
    srv_bind (clone_file_handle h object fh 0) (\<lambda>file.
    srv_bind (rt_lock_key h file) (\<lambda>lock_key.
    srv_bind rt_lock_locks (\<lambda>locks s. (Ok (), s\<lparr>sr_locks := locks_release_owner lock_key owner locks\<rparr>))))"

definition rt_getlk :: "('f, 'w) host_fs \<Rightarrow> ResolvedStorageObject \<Rightarrow> u64 \<Rightarrow> u64 \<Rightarrow> u64 \<Rightarrow> u64 \<Rightarrow> i32
    \<Rightarrow> ('f, 'w, ServerFileLock option) rt_call" where
  "rt_getlk h object fh owner start stop ty =
    srv_bind (srv_give (lock_required_access ty)) (\<lambda>access.
    srv_bind (clone_file_handle h object fh access) (\<lambda>file.
    srv_bind (rt_lock_key h file) (\<lambda>lock_key.
    srv_bind rt_lock_locks (\<lambda>locks. srv_give (getlk lock_key owner start stop ty locks)))))"

definition rt_setlk :: "('f, 'w) host_fs \<Rightarrow> ResolvedStorageObject \<Rightarrow> u64 \<Rightarrow> u64 \<Rightarrow> u64 \<Rightarrow> u64 \<Rightarrow> i32 \<Rightarrow> u32
    \<Rightarrow> ('f, 'w, unit) rt_call" where
  "rt_setlk h object fh owner start stop ty pid =
    srv_bind (srv_give (lock_required_access ty)) (\<lambda>access.
    srv_bind (clone_file_handle h object fh access) (\<lambda>file.
    srv_bind (rt_lock_key h file) (\<lambda>lock_key.
    srv_bind rt_lock_locks (\<lambda>locks s.
      case setlk lock_key fh owner start stop ty pid locks of (r, locks') \<Rightarrow> (r, s\<lparr>sr_locks := locks'\<rparr>)))))"

definition rt_flock :: "('f, 'w) host_fs \<Rightarrow> ResolvedStorageObject \<Rightarrow> u64 \<Rightarrow> u64 \<Rightarrow> i32 \<Rightarrow> ('f, 'w, unit) rt_call" where
  "rt_flock h object fh owner operation =
    srv_bind (clone_file_handle h object fh 0) (\<lambda>file.
    srv_bind (rt_lock_key h file) (\<lambda>lock_key.
    srv_bind rt_lock_flocks (\<lambda>flocks s.
      case flock lock_key fh owner operation flocks of (r, flocks') \<Rightarrow> (r, s\<lparr>sr_flocks := flocks'\<rparr>))))"

section \<open>Reasoning about operations\<close>

text \<open>
  \<open>runs I P m Q\<close>: from a state with \<open>P\<close> the operation keeps \<open>I\<close>, also when it fails,
  and when it succeeds its result and the state it leaves satisfy \<open>Q\<close>.
\<close>

definition runs :: "('s \<Rightarrow> bool) \<Rightarrow> ('s \<Rightarrow> bool) \<Rightarrow> ('s, 'a) call \<Rightarrow> ('a \<Rightarrow> 's \<Rightarrow> bool) \<Rightarrow> bool" where
  "runs I P m Q \<longleftrightarrow> (\<forall>s. P s \<longrightarrow> I (snd (m s)) \<and> (\<forall>a. fst (m s) = Inr a \<longrightarrow> Q a (snd (m s))))"

lemma runsI: "(\<And>s. P s \<Longrightarrow> I (snd (m s))) \<Longrightarrow> (\<And>s a. P s \<Longrightarrow> fst (m s) = Inr a \<Longrightarrow> Q a (snd (m s))) \<Longrightarrow> runs I P m Q"
  by (simp add: runs_def)

lemma runsD: "runs I P m Q \<Longrightarrow> P s \<Longrightarrow> I (snd (m s))"
  by (simp add: runs_def)

lemma runsD_Ok: "runs I P m Q \<Longrightarrow> P s \<Longrightarrow> m s = (Inr a, s') \<Longrightarrow> Q a s'"
  unfolding runs_def by (metis fst_conv snd_conv)

lemma runs_bind:
  assumes m: "runs I P m R" and f: "\<And>a. runs I (R a) (f a) Q"
  shows "runs I P (srv_bind m f) Q"
proof (rule runsI)
  fix s assume s: "P s"
  obtain r s' where r: "m s = (r, s')" by fastforce
  have "I (snd (srv_bind m f s)) \<and> (\<forall>a. fst (srv_bind m f s) = Inr a \<longrightarrow> Q a (snd (srv_bind m f s)))"
  proof (cases r)
    case (Inl e)
    with r runsD [OF m s] show ?thesis by simp
  next
    case (Inr a)
    with r runsD_Ok [OF m s] have "R a s'" by simp
    with f [of a] Inr r show ?thesis by (simp add: runs_def)
  qed
  then show "I (snd (srv_bind m f s))" "\<And>a. fst (srv_bind m f s) = Inr a \<Longrightarrow> Q a (snd (srv_bind m f s))" by auto
qed

lemma runs_give: "(\<And>s. P s \<Longrightarrow> I s) \<Longrightarrow> (\<And>a s. P s \<Longrightarrow> r = Inr a \<Longrightarrow> Q a s) \<Longrightarrow> runs I P (srv_give r) Q"
  by (rule runsI) auto

lemma runs_on_host:
  assumes "\<And>s w. P s \<Longrightarrow> I (s\<lparr>sr_world := w\<rparr>)" "\<And>a s w. P s \<Longrightarrow> Q a (s\<lparr>sr_world := w\<rparr>)"
  shows "runs I P (on_host m) Q"
  using assms by (intro runsI) (simp_all add: on_host_def)

lemma runs_weaken: "runs I P m Q \<Longrightarrow> (\<And>s. P' s \<Longrightarrow> P s) \<Longrightarrow> (\<And>a s. Q a s \<Longrightarrow> Q' a s) \<Longrightarrow> runs I P' m Q'"
  by (auto simp: runs_def)

lemma runs_if: "(b \<Longrightarrow> runs I P m Q) \<Longrightarrow> (\<not> b \<Longrightarrow> runs I P m' Q) \<Longrightarrow> runs I P (if b then m else m') Q"
  by simp

section \<open>The invariant\<close>

definition handles_ok :: "'f HandleState \<Rightarrow> bool" where
  "handles_ok H \<longleftrightarrow> hm_wf (hs_entries H) \<and>
    (\<forall>fh e. hm_get (hs_entries H) fh = Some e \<longrightarrow>
      fh \<noteq> 0 \<and> (fh < hs_next H \<or> hs_next H = - 1) \<and> he_file e \<noteq> None
      \<and> (he_kind e = Handle_Dir \<longrightarrow> he_access_bits e = 0))"

definition runtime_ok :: "('f, 'w) StorageRuntime \<Rightarrow> bool" where
  "runtime_ok s \<longleftrightarrow> 0 < lim_io_chunk_bytes (sr_limits s)
    \<and> (\<not> sr_handles_poisoned s \<longrightarrow> handles_ok (sr_handles s))
    \<and> (\<not> sr_locks_poisoned s \<longrightarrow> locks_ok (sr_locks s))
    \<and> (\<not> sr_flocks_poisoned s \<longrightarrow> flocks_ok (sr_flocks s))"

lemma runtime_ok_world [simp]: "runtime_ok (s\<lparr>sr_world := w\<rparr>) = runtime_ok s"
  by (simp add: runtime_ok_def)

lemma handles_ok_empty [simp]: "handles_ok \<lparr>hs_next = n, hs_entries = []\<rparr>"
  by (simp add: handles_ok_def)

lemma flocks_ok_Nil: "flocks_ok []"
  by (simp add: flocks_ok_def inode_keys_def locks_at_def flock_list_ok_def)

text \<open>\<open>holding H s\<close>: the invariant holds and the locked table of handles is \<open>H\<close>.\<close>

definition holding :: "'f HandleState \<Rightarrow> ('f, 'w) StorageRuntime \<Rightarrow> bool" where
  "holding H s \<longleftrightarrow> runtime_ok s \<and> \<not> sr_handles_poisoned s \<and> sr_handles s = H"

lemma holding_ok: "holding H s \<Longrightarrow> runtime_ok s" "holding H s \<Longrightarrow> handles_ok H"
  "holding H (s\<lparr>sr_world := w\<rparr>) = holding H s"
  by (auto simp: holding_def runtime_ok_def)

lemma lock_handles_runs: "runs runtime_ok runtime_ok rt_lock_handles holding"
  by (rule runsI) (auto simp: rt_lock_handles_def runtime_ok_def holding_def split: if_splits)

lemma lock_locks_runs: "runs runtime_ok runtime_ok rt_lock_locks
    (\<lambda>T s. runtime_ok s \<and> \<not> sr_locks_poisoned s \<and> sr_locks s = T)"
  by (rule runsI) (auto simp: rt_lock_locks_def runtime_ok_def locks_ok_Nil split: if_splits)

lemma lock_flocks_runs: "runs runtime_ok runtime_ok rt_lock_flocks
    (\<lambda>T s. runtime_ok s \<and> \<not> sr_flocks_poisoned s \<and> sr_flocks s = T)"
  by (rule runsI) (auto simp: rt_lock_flocks_def runtime_ok_def flocks_ok_Nil split: if_splits)

lemma host_runs: "runs runtime_ok runtime_ok (on_host m) (\<lambda>_. runtime_ok)"
  by (rule runs_on_host) simp_all

lemma host_holding: "runs runtime_ok (holding H) (on_host m) (\<lambda>_. holding H)"
  by (rule runs_on_host) (simp_all add: holding_ok)

lemma give_runs: "runs runtime_ok runtime_ok (srv_give r) (\<lambda>a s. runtime_ok s \<and> r = Inr a)"
  by (rule runs_give) simp_all

lemma give_holding: "runs runtime_ok (holding H) (srv_give r) (\<lambda>a s. holding H s \<and> r = Inr a)"
  by (rule runs_give) (simp_all add: holding_ok)

section \<open>Every operation keeps the invariant\<close>

definition safe :: "('f, 'w, 'a) rt_call \<Rightarrow> bool" where
  "safe m \<longleftrightarrow> runs runtime_ok runtime_ok m (\<lambda>_. runtime_ok)"

named_theorems safe_intro \<open>operations that keep the invariant of the storage runtime\<close>

lemma safeI: "(\<And>s. runtime_ok s \<Longrightarrow> runtime_ok (snd (m s))) \<Longrightarrow> safe m"
  by (simp add: safe_def runs_def)

lemma safeD: "safe m \<Longrightarrow> runtime_ok s \<Longrightarrow> runtime_ok (snd (m s))"
  by (simp add: safe_def runs_def)

lemma safe_bind [safe_intro]: "safe m \<Longrightarrow> (\<And>a. safe (f a)) \<Longrightarrow> safe (srv_bind m f)"
  unfolding safe_def by (rule runs_bind)

lemma safe_give [safe_intro]: "safe (srv_give r)"
  by (rule safeI) simp

lemma safe_host [safe_intro]: "safe (on_host m)"
  by (rule safeI) (simp add: on_host_def)

lemma safe_if [safe_intro]: "(b \<Longrightarrow> safe m) \<Longrightarrow> (\<not> b \<Longrightarrow> safe m') \<Longrightarrow> safe (if b then m else m')"
  by simp

lemma safe_kind [safe_intro]:
  "(kind = Handle_File \<Longrightarrow> safe m) \<Longrightarrow> (kind = Handle_Dir \<Longrightarrow> safe m') \<Longrightarrow> safe (case kind of Handle_File \<Rightarrow> m | Handle_Dir \<Rightarrow> m')"
  by (cases kind) simp_all

lemma safe_prod [safe_intro]: "(\<And>a b. safe (f a b)) \<Longrightarrow> safe (case x of (a, b) \<Rightarrow> f a b)"
  by (cases x) simp

lemma safe_lock_handles [safe_intro]: "safe rt_lock_handles"
  unfolding safe_def by (rule runs_weaken [OF lock_handles_runs]) (simp_all add: holding_ok)

text \<open>An operation that replaces a table by one that is well formed as well.\<close>

lemma safe_locked_handles:
  assumes "\<And>H. handles_ok H \<Longrightarrow> handles_ok (snd (g H))"
  shows "safe (srv_bind rt_lock_handles (\<lambda>H s. (fst (g H), s\<lparr>sr_handles := snd (g H)\<rparr>)))"
  unfolding safe_def
proof (rule runs_bind [OF lock_handles_runs], rule runsI)
  fix H and s :: "('a, 'c) StorageRuntime" assume "holding H s"
  then show "runtime_ok (snd (fst (g H), s\<lparr>sr_handles := snd (g H)\<rparr>))"
    using assms by (auto simp: holding_def runtime_ok_def)
  then show "runtime_ok (snd (fst (g H), s\<lparr>sr_handles := snd (g H)\<rparr>))" .
qed

lemma safe_locked_locks:
  assumes "\<And>T. locks_ok T \<Longrightarrow> locks_ok (snd (g T))"
  shows "safe (srv_bind rt_lock_locks (\<lambda>T s. (fst (g T), s\<lparr>sr_locks := snd (g T)\<rparr>)))"
  unfolding safe_def
proof (rule runs_bind [OF lock_locks_runs], rule runsI)
  fix T and s :: "('f, 'w) StorageRuntime" assume "runtime_ok s \<and> \<not> sr_locks_poisoned s \<and> sr_locks s = T"
  then show "runtime_ok (snd (fst (g T), s\<lparr>sr_locks := snd (g T)\<rparr>))"
    using assms by (auto simp: runtime_ok_def)
  then show "runtime_ok (snd (fst (g T), s\<lparr>sr_locks := snd (g T)\<rparr>))" .
qed

lemma safe_locked_flocks:
  assumes "\<And>T. flocks_ok T \<Longrightarrow> flocks_ok (snd (g T))"
  shows "safe (srv_bind rt_lock_flocks (\<lambda>T s. (fst (g T), s\<lparr>sr_flocks := snd (g T)\<rparr>)))"
  unfolding safe_def
proof (rule runs_bind [OF lock_flocks_runs], rule runsI)
  fix T and s :: "('f, 'w) StorageRuntime" assume "runtime_ok s \<and> \<not> sr_flocks_poisoned s \<and> sr_flocks s = T"
  then show "runtime_ok (snd (fst (g T), s\<lparr>sr_flocks := snd (g T)\<rparr>))"
    using assms by (auto simp: runtime_ok_def)
  then show "runtime_ok (snd (fst (g T), s\<lparr>sr_flocks := snd (g T)\<rparr>))" .
qed

lemma safe_read_locks [safe_intro]: "safe (srv_bind rt_lock_locks (\<lambda>T. srv_give (g T)))"
  unfolding safe_def
  by (rule runs_bind [OF lock_locks_runs], rule runs_give) simp_all

lemma next_handle_fresh:
  assumes "handles_ok H" "fh = max (hs_next H) MIN_HANDLE_ID"
  shows "fh \<noteq> 0" "fh < saturating_add fh 1 \<or> saturating_add fh 1 = - 1"
    "hs_next H \<noteq> - 1 \<Longrightarrow> hm_get (hs_entries H) fh = None"
    "k < hs_next H \<or> hs_next H = - 1 \<Longrightarrow> k < saturating_add fh 1 \<or> saturating_add fh 1 = - 1"
proof -
  have m: "unat fh = max (unat (hs_next H)) 1"
    using assms(2) by (auto simp: MIN_HANDLE_ID_def max_def word_le_nat_alt)
  then show "fh \<noteq> 0" by (metis unat_0 max.cobounded2 not_one_le_zero)
  have top: "saturating_add fh 1 = - 1 \<longleftrightarrow> 2 ^ 64 - 1 \<le> unat fh + 1"
    using unat_saturating_add [of fh 1] unat_max_word
    by (metis min.absorb2 min_def unat_1 word_unat_eq_iff nat_le_linear)
  then show "fh < saturating_add fh 1 \<or> saturating_add fh 1 = - 1"
    using unat_saturating_add [of fh 1] by (auto simp: word_less_nat_alt)
  show "hm_get (hs_entries H) fh = None" if n: "hs_next H \<noteq> - 1"
  proof (rule ccontr)
    assume "hm_get (hs_entries H) fh \<noteq> None"
    with assms(1) n have "unat fh < unat (hs_next H)" by (auto simp: handles_ok_def word_less_nat_alt)
    with m show False by simp
  qed
  show "k < saturating_add fh 1 \<or> saturating_add fh 1 = - 1" if k: "k < hs_next H \<or> hs_next H = - 1"
  proof (cases "hs_next H = - 1")
    case True
    then have "unat fh = 2 ^ 64 - 1" using m unat_max_word by simp
    with top show ?thesis by simp
  next
    case False
    with k m have "unat k < unat fh" by (simp add: word_less_nat_alt)
    with top show ?thesis using unat_saturating_add [of fh 1] by (auto simp: word_less_nat_alt)
  qed
qed

lemma safe_allocate [safe_intro]:
  assumes "file \<noteq> None" "kind = Handle_Dir \<Longrightarrow> access_bits = 0"
  shows "safe (allocate_handle p kind access_bits deny file)"
  unfolding allocate_handle_def Let_def
proof (rule safe_locked_handles [where g = "\<lambda>H. (Ok (max (hs_next H) MIN_HANDLE_ID), \<lparr>hs_next =
    saturating_add (max (hs_next H) MIN_HANDLE_ID) 1, hs_entries = hm_insert (max (hs_next H) MIN_HANDLE_ID)
      \<lparr>he_path = p, he_kind = kind, he_access_bits = access_bits, he_offset = 0,
       he_permission_updates_blocked = deny, he_file = file\<rparr> (hs_entries H)\<rparr>)", simplified fst_conv snd_conv])
  fix H :: "'a HandleState" assume H: "handles_ok H"
  note fresh = next_handle_fresh [OF H refl]
  show "handles_ok \<lparr>hs_next = saturating_add (max (hs_next H) MIN_HANDLE_ID) 1,
      hs_entries = hm_insert (max (hs_next H) MIN_HANDLE_ID)
        \<lparr>he_path = p, he_kind = kind, he_access_bits = access_bits, he_offset = 0,
         he_permission_updates_blocked = deny, he_file = file\<rparr> (hs_entries H)\<rparr>"
    using H fresh(1,2,4) assms unfolding handles_ok_def by auto
qed

lemma safe_lock_key:
  assumes "\<And>dev ino. safe (f (lock_key_for_file dev ino))"
  shows "safe (srv_bind (rt_lock_key h file) f)"
proof (rule safeI)
  fix s :: "('a, 'b) StorageRuntime" assume s: "runtime_ok s"
  obtain r where r: "io_look (hf_metadata h file) (sr_world s) = (r, sr_world s)"
    by (simp add: io_look_def)
  show "runtime_ok (snd (srv_bind (rt_lock_key h file) f s))"
    using s r safeD [OF assms s]
    by (cases r) (simp_all add: rt_lock_key_def srv_bind_def on_host_def)
qed

lemma safe_clone [safe_intro]:
  "safe (clone_file_handle_with_policy_from_state h H p fh access)"
  "safe (clone_file_handle_from_state h H p fh access)"
  "safe (clone_file_handle_with_policy h object fh access)"
  "safe (clone_file_handle h object fh access)"
  unfolding clone_file_handle_def clone_file_handle_with_policy_def clone_file_handle_from_state_def
    clone_file_handle_with_policy_from_state_def
  by (intro safe_intro)+

lemma safe_handle_file [safe_intro]: "safe (handle_file object fh access)"
  unfolding handle_file_def by (intro safe_intro)

lemma safe_open [safe_intro]: "safe (open_existing h object kind flags ctx)"
  unfolding open_existing_def by (intro safe_intro) auto

lemma safe_register [safe_intro]: "safe (register_file_handle h object access file)"
  unfolding register_file_handle_def by (intro safe_intro) simp_all

lemma safe_check [safe_intro]: "safe (check_handle object fh kind)"
  unfolding check_handle_def by (intro safe_intro)

lemma safe_sync [safe_intro]: "safe (rt_sync_file_fh h object fh datasync)" "safe (rt_sync_dir_fh h object fh datasync)"
  unfolding rt_sync_file_fh_def rt_sync_dir_fh_def sync_handle_from_state_def by (intro safe_intro)+

lemma safe_write [safe_intro]: "safe (rt_write_path h object offset data ctx)" "safe (rt_write_fh h object fh offset data)"
  unfolding rt_write_path_def rt_write_fh_def by (intro safe_intro)+

lemma safe_setattr [safe_intro]: "safe (rt_setattr_fh h object fh mode uid gid n ctx)"
  unfolding rt_setattr_fh_def by (intro safe_intro)

lemma safe_fallocate [safe_intro]: "safe (rt_fallocate h object fh offset len mode)"
  unfolding rt_fallocate_def by (intro safe_intro)

lemma safe_getlk [safe_intro]: "safe (rt_getlk h object fh owner start stop ty)"
  unfolding rt_getlk_def
  by (intro safe_bind [OF safe_give] safe_bind [OF safe_clone(4)] safe_lock_key safe_read_locks)

lemma safe_posix [safe_intro]: "safe (rt_release_posix_locks h object fh owner)"
  unfolding rt_release_posix_locks_def
  by (rule safe_bind [OF safe_clone(4)], rule safe_lock_key)
    (rule safe_locked_locks [where g = "\<lambda>T. (Ok (), locks_release_owner key owner T)" for key, simplified],
     rule release_owner_ok)

lemma safe_setlk [safe_intro]: "safe (rt_setlk h object fh owner start stop ty pid)"
proof -
  have "locks_ok (snd (setlk (lock_key_for_file dev ino) fh owner start stop ty pid T))" if "locks_ok T" for dev ino T
    by (rule lock_step_ok [OF lock_step.set_lock that])
  from safe_locked_locks [where g = "setlk (lock_key_for_file dev ino) fh owner start stop ty pid" for dev ino, OF this]
  show ?thesis unfolding rt_setlk_def case_prod_beta
    by (intro safe_bind [OF safe_give] safe_bind [OF safe_clone(4)] safe_lock_key)
qed

lemma safe_flock [safe_intro]: "safe (rt_flock h object fh owner operation)"
proof -
  have "flocks_ok (snd (flock (lock_key_for_file dev ino) fh owner operation T))" if "flocks_ok T" for dev ino T
    by (rule flock_step_ok [OF flock_step.set_flock that])
  from safe_locked_flocks [where g = "flock (lock_key_for_file dev ino) fh owner operation" for dev ino, OF this]
  show ?thesis unfolding rt_flock_def case_prod_beta
    by (intro safe_bind [OF safe_clone(4)] safe_lock_key)
qed

lemma map_values_wf [simp]: "hm_wf (map (\<lambda>(k, v). (k, f v)) T) = hm_wf T"
  by (simp add: hm_wf_def comp_def case_prod_beta)

lemma rewrite_entry_kept [simp]:
  "he_file (rewrite_entry old new e) = he_file e" "he_kind (rewrite_entry old new e) = he_kind e"
  "he_access_bits (rewrite_entry old new e) = he_access_bits e"
  by (simp_all add: rewrite_entry_def split: option.splits)

lemma safe_rewrite:
  assumes "starts_with_char slash old"
  shows "safe (rewrite_paths old new)"
proof -
  have "handles_ok (H\<lparr>hs_entries := map (\<lambda>(k, e). (k, rewrite_entry old new e)) (hs_entries H)\<rparr>)"
    if "handles_ok H" for H :: "'f HandleState"
    using that by (auto simp: handles_ok_def map_values_get)
  note h = safe_locked_handles [where g = "\<lambda>H. (Ok (), H\<lparr>hs_entries :=
    map (\<lambda>(k, e). (k, rewrite_entry old new e)) (hs_entries H)\<rparr>)", simplified, OF this]
  note l = safe_locked_locks [where g = "\<lambda>T. (Ok (), locks_rename_path old new T)", simplified,
    OF lock_step_ok [OF lock_step.rename [OF assms]]]
  note f = safe_locked_flocks [where g = "\<lambda>T. (Ok (), flock_rename_path old new T)", simplified,
    OF flock_step_ok [OF flock_step.rename_flocks [OF assms]]]
  show ?thesis unfolding rewrite_paths_def by (intro safe_bind h l f)
qed

lemma safe_lseek [safe_intro]: "safe (rt_lseek h object fh offset whence)"
proof -
  have "runs runtime_ok (\<lambda>s. holding H s \<and> hm_get (hs_entries H) fh = Some e)
      (\<lambda>s. (Ok (sint n), s\<lparr>sr_handles := H\<lparr>hs_entries := hm_insert fh (e\<lparr>he_offset := n\<rparr>) (hs_entries H)\<rparr>\<rparr>))
      (\<lambda>_. runtime_ok)" for H :: "'a HandleState" and e n
    by (rule runsI) (auto simp: holding_def runtime_ok_def handles_ok_def)
  note * = runs_weaken [OF this]
  have host: "runs runtime_ok (\<lambda>s. holding H s \<and> Q) (on_host m) (\<lambda>_ s. holding H s \<and> Q)"
    for H :: "'a HandleState" and Q and m :: "('b, 'x) call"
    by (rule runs_on_host) (auto simp: holding_ok)
  have give: "runs runtime_ok (\<lambda>s. holding H s \<and> Q) (srv_give r) (\<lambda>a s. holding H s \<and> Q \<and> r = Inr a)"
    for H :: "'a HandleState" and Q and r :: "i32 + 'x"
    by (rule runs_give) (auto simp: holding_ok)
  show ?thesis
    unfolding safe_def rt_lseek_def
    apply (rule runs_bind [OF lock_handles_runs])
    apply (rule runs_bind [OF give_holding])
    apply (rule runs_bind [OF give])
    apply (rule runs_bind [OF give])
    apply (rule runs_bind [OF host])
    apply (rule runs_bind [OF give])
    apply (rule *)
     apply (auto simp: ok_or_eq_Ok_iff)
    done
qed

lemma release_safe: "runtime_ok s \<Longrightarrow> runtime_ok (rt_release_handle fh s)"
proof -
  assume s: "runtime_ok s"
  have "handles_ok (H\<lparr>hs_entries := hm_remove fh (hs_entries H)\<rparr>)" if "handles_ok H" for H :: "'a HandleState"
    using that by (auto simp: handles_ok_def)
  with s lock_step_ok [OF lock_step.close_handle] flock_step_ok [OF flock_step.close_flock_handle]
  show ?thesis by (simp add: rt_release_handle_def runtime_ok_def Let_def)
qed

lemma loop_safe:
  assumes "safe m" "runtime_ok s" "then_loop m (\<lambda>a s. loop_on_host (f a s) s) s = Some (r, s')"
  shows "runtime_ok s'"
  using assms safeD [OF assms(1,2)]
  by (auto simp: then_loop_def loop_on_host_def split: prod.splits sum.splits)

text \<open>
  What can happen to a runtime: any operation, with any arguments, and a panic while
  one of the mutexes is held, which leaves behind it any table at all and the poison.
\<close>

inductive rt_step :: "('f, 'w) host_fs \<Rightarrow> ('f, 'w) StorageRuntime \<Rightarrow> ('f, 'w) StorageRuntime \<Rightarrow> bool" for h where
  step_open: "rt_step h s (snd (open_existing h object kind flags ctx s))"
| step_register: "rt_step h s (snd (register_file_handle h object access file s))"
| step_check: "rt_step h s (snd (check_handle object fh_opt kind s))"
| step_release: "rt_step h s (rt_release_handle fh s)"
| step_rewrite: "starts_with_char slash old \<Longrightarrow> rt_step h s (snd (rewrite_paths old new s))"
| step_read_path: "rt_read_path h object offset n ctx s = Some (data, s') \<Longrightarrow> rt_step h s s'"
| step_read: "rt_read_fh h object fh offset n s = Some (data, s') \<Longrightarrow> rt_step h s s'"
| step_write_path: "rt_step h s (snd (rt_write_path h object offset data ctx s))"
| step_write: "rt_step h s (snd (rt_write_fh h object fh offset data s))"
| step_setattr: "rt_step h s (snd (rt_setattr_fh h object fh mode uid gid len ctx s))"
| step_sync: "rt_step h s (snd (rt_sync_file_fh h object fh datasync s))"
| step_sync_dir: "rt_step h s (snd (rt_sync_dir_fh h object fh datasync s))"
| step_copy: "rt_copy_file_range h object out_object fh fh_out offset offset_out amount s = Some (copied, s') \<Longrightarrow> rt_step h s s'"
| step_fallocate: "rt_step h s (snd (rt_fallocate h object fh offset n mode_bits s))"
| step_lseek: "rt_step h s (snd (rt_lseek h object fh offset whence s))"
| step_release_locks: "rt_step h s (snd (rt_release_posix_locks h object fh owner s))"
| step_getlk: "rt_step h s (snd (rt_getlk h object fh owner start stop ty s))"
| step_setlk: "rt_step h s (snd (rt_setlk h object fh owner start stop ty pid s))"
| step_flock: "rt_step h s (snd (rt_flock h object fh owner operation s))"
| panic_handles: "rt_step h s (s\<lparr>sr_handles := handles, sr_handles_poisoned := True\<rparr>)"
| panic_locks: "rt_step h s (s\<lparr>sr_locks := locks, sr_locks_poisoned := True\<rparr>)"
| panic_flocks: "rt_step h s (s\<lparr>sr_flocks := flocks, sr_flocks_poisoned := True\<rparr>)"

lemma rt_step_ok: "rt_step h s s' \<Longrightarrow> runtime_ok s \<Longrightarrow> runtime_ok s'"
proof (induction rule: rt_step.induct)
  case (step_read_path object offset n ctx s data s')
  then show ?case unfolding rt_read_path_def by (elim loop_safe [rotated 2]) (intro safe_intro)
next
  case (step_read object fh offset n s data s')
  then show ?case unfolding rt_read_fh_def by (elim loop_safe [rotated 2]) (intro safe_intro)
next
  case (step_copy object out_object fh fh_out offset offset_out amount s copied s')
  then show ?case unfolding rt_copy_file_range_def case_prod_beta
    by (elim loop_safe [rotated 2]) (intro safe_intro)
next
  case (step_rewrite old s new)
  then show ?case by (intro safeD [OF safe_rewrite])
qed (simp_all add: release_safe safeD [OF safe_open] safeD [OF safe_register] safeD [OF safe_check]
    safeD [OF safe_write(1)] safeD [OF safe_write(2)] safeD [OF safe_setattr] safeD [OF safe_sync(1)]
    safeD [OF safe_sync(2)] safeD [OF safe_fallocate] safeD [OF safe_lseek] safeD [OF safe_posix]
    safeD [OF safe_getlk] safeD [OF safe_setlk] safeD [OF safe_flock], simp_all add: runtime_ok_def)

section \<open>The runtime\<close>

text \<open>
  C33: after any sequence of operations and panics from a new runtime, unless the mutex
  of a table is poisoned: every handle is a nonzero number below the next one to be
  given out, has its file and, for a directory, no access to bytes; and no byte of a
  file is locked by two owners of which one locks for writing, in either lock table.
\<close>

theorem runtime_invariant:
  assumes "(rt_step h)\<^sup>*\<^sup>* (StorageRuntime_new limits w) s"
  shows "runtime_ok s"
  using assms
proof (induction rule: rtranclp_induct)
  case base
  then show ?case
    by (simp add: StorageRuntime_new_def runtime_ok_def limits_validated_def locks_ok_Nil flocks_ok_Nil)
next
  case (step s s')
  then show ?case using rt_step_ok by blast
qed

definition sample_object :: ResolvedStorageObject where
  "sample_object = ResolvedStorageObject_new ''/a'' ''/srv/a''"

theorem runtime_invariant_witness:
  "runtime_ok (rt_release_handle 1 (snd (register_file_handle memory_host sample_object 6 7
    (StorageRuntime_new FsLimits_default sample_memory))))"
proof -
  let ?new = "StorageRuntime_new FsLimits_default sample_memory :: (u64, memory) StorageRuntime"
  have "(rt_step memory_host)\<^sup>*\<^sup>* ?new
      (rt_release_handle 1 (snd (register_file_handle memory_host sample_object 6 7 ?new)))"
    by (rule rtranclp.rtrancl_into_rtrancl [OF rtranclp.rtrancl_into_rtrancl [OF rtranclp.rtrancl_refl]])
      (rule rt_step.intros refl)+
  then show ?thesis by (rule runtime_invariant)
qed

lemma allocate_handle_Ok:
  assumes "allocate_handle p kind access deny file s = (Ok fh, s')"
  shows "\<not> sr_handles_poisoned s" "fh = max (hs_next (sr_handles s)) MIN_HANDLE_ID"
    "hs_entries (sr_handles s') = hm_insert fh \<lparr>he_path = p, he_kind = kind, he_access_bits = access,
      he_offset = 0, he_permission_updates_blocked = deny, he_file = file\<rparr> (hs_entries (sr_handles s))"
  using assms
  by (auto simp: allocate_handle_def rt_lock_handles_def srv_bind_def Let_def split: if_splits)

lemma on_host_fields [simp]:
  "sr_handles (snd (on_host m s)) = sr_handles s"
  "sr_handles_poisoned (snd (on_host m s)) = sr_handles_poisoned s"
  by (simp_all add: on_host_def)

lemma on_host_Ok: "on_host m s = (Ok a, s') \<Longrightarrow> sr_handles s' = sr_handles s \<and> sr_handles_poisoned s' = sr_handles_poisoned s"
  by (auto simp: on_host_def)

lemma srv_give_Ok: "srv_give r s = (Ok a, s') \<longleftrightarrow> r = Ok a \<and> s' = s"
  by (auto simp: srv_give_def)

text \<open>The metadata an open goes by: those of the file a symbolic link leads to.\<close>

definition found_metadata :: "('f, 'w) host_fs \<Rightarrow> string \<Rightarrow> 'w \<Rightarrow> io_error + Metadata" where
  "found_metadata h p w =
    try_bind (h_symlink_metadata h p w) (\<lambda>link. if md_is_symlink link then h_metadata h p w else Ok link)"

definition open_options :: "HandleKind \<Rightarrow> u32 \<Rightarrow> OpenOptions" where
  "open_options kind access_bits =
    (case kind of
       Handle_File \<Rightarrow> oo_read_only\<lparr>oo_read := access_bits AND 4 \<noteq> 0, oo_write := access_bits AND 2 \<noteq> 0\<rparr>
     | Handle_Dir \<Rightarrow> oo_read_only)"

lemma bind_found:
  "srv_bind (on_host (io_look (h_symlink_metadata h p))) (\<lambda>link.
     srv_bind (if md_is_symlink link then on_host (io_look (h_metadata h p)) else srv_give (Ok link)) g) s
   = (case found_metadata h p (sr_world s) of Inl e \<Rightarrow> (Err (io_errno e), s) | Inr meta \<Rightarrow> g meta s)"
  by (cases "h_symlink_metadata h p (sr_world s)"; cases "h_metadata h p (sr_world s)")
    (simp_all add: found_metadata_def srv_bind_def srv_give_def on_host_def io_look_def)

lemma on_host_do_Ok:
  "on_host (io_do m) s = (Ok a, s') \<longleftrightarrow> m (sr_world s) = (Ok a, sr_world s') \<and> s' = s\<lparr>sr_world := sr_world s'\<rparr>"
  by (cases "m (sr_world s)", rename_tac r w, case_tac r) (auto simp: on_host_def io_do_def)

lemma open_existing_Ok:
  assumes "open_existing h object kind flags ctx s = (Ok (fh, stat), s')"
  shows "\<exists>s1 access file meta. sr_handles s1 = sr_handles s \<and> sr_handles_poisoned s1 = sr_handles_poisoned s
    \<and> allocate_handle (ro_virtual_path object) kind access (ro_permission_updates_blocked object) (Some file) s1 = (Ok fh, s')
    \<and> found_metadata h (ro_host_path object) (sr_world s) = Ok meta
    \<and> fst (h_open h (open_options kind access) (ro_host_path object) (sr_world s)) = Ok file
    \<and> (kind = Handle_File \<longrightarrow> md_is_file meta \<and> ensure_open_flags_allowed meta (ctx_uid ctx) (ctx_gid ctx) flags = Ok access)
    \<and> (kind = Handle_Dir \<longrightarrow> md_is_dir meta \<and> access = 0 \<and> ensure_search_allowed meta (ctx_uid ctx) (ctx_gid ctx) = Ok ())"
proof -
  obtain meta where m: "found_metadata h (ro_host_path object) (sr_world s) = Ok meta"
    using assms by (cases "found_metadata h (ro_host_path object) (sr_world s)") (simp_all add: open_existing_def bind_found)
  show ?thesis
  proof (cases kind)
    case Handle_File
    with assms m have "\<not> md_is_dir meta" by (auto simp: open_existing_def bind_found srv_give_Ok split: if_splits)
    with assms m Handle_File obtain access s1 s2 s3 fd opened where
      p: "ensure_regular_file meta = Ok ()" "ensure_open_flags_allowed meta (ctx_uid ctx) (ctx_gid ctx) flags = Ok access"
      and f: "on_host (io_do (h_open h (open_options kind access) (ro_host_path object))) s = (Ok fd, s1)"
      and t: "(if flags AND O_TRUNC \<noteq> 0 then on_host (io_do (hf_set_len h fd 0)) else srv_give (Ok ())) s1 = (Ok (), s2)"
      and l: "on_host (io_look (hf_metadata h fd)) s2 = (Ok opened, s3)"
      and a: "allocate_handle (ro_virtual_path object) kind access (ro_permission_updates_blocked object) (Some fd) s3 = (Ok fh, s')"
      by (simp add: open_existing_def bind_found srv_bind_Ok_iff srv_give_Ok open_options_def) blast
    have "sr_handles s2 = sr_handles s1 \<and> sr_handles_poisoned s2 = sr_handles_poisoned s1"
      using t by (auto simp: srv_give_Ok split: if_splits dest: on_host_Ok)
    with on_host_Ok [OF f] on_host_Ok [OF l] have "sr_handles s3 = sr_handles s \<and> sr_handles_poisoned s3 = sr_handles_poisoned s"
      by simp
    with Handle_File m p a f show ?thesis
      by (intro exI [of _ s3] exI [of _ access] exI [of _ fd] exI [of _ meta])
        (auto simp: on_host_do_Ok ensure_regular_file_def split: if_splits)
  next
    case Handle_Dir
    with assms m have "md_is_dir meta" by (auto simp: open_existing_def bind_found srv_give_Ok split: if_splits)
    with assms m Handle_Dir obtain s1 fd where
      p: "md_is_dir meta" "ensure_search_allowed meta (ctx_uid ctx) (ctx_gid ctx) = Ok ()"
      and f: "on_host (io_do (h_open h (open_options kind 0) (ro_host_path object))) s = (Ok fd, s1)"
      and a: "allocate_handle (ro_virtual_path object) kind 0 (ro_permission_updates_blocked object) (Some fd) s1 = (Ok fh, s')"
      by (simp add: open_existing_def bind_found srv_bind_Ok_iff srv_give_Ok open_options_def) blast
    with Handle_Dir m on_host_Ok [OF f] show ?thesis
      by (intro exI [of _ s1] exI [of _ 0] exI [of _ fd] exI [of _ meta]) (auto simp: on_host_do_Ok)
  qed
qed

text \<open>
  C36: opening a file or directory gives a handle that no open file has, for the path and
  kind asked for. The host finds the file or directory, behind a symbolic link if there is
  one, with metadata that permit the caller the access: to search a directory, to open a
  regular file as the flags ask. The handle has that access and the descriptor that the host
  opened at the path for just that access, and no other handle changes. The number of the
  handles given out is bounded by the 64 bits of a handle.
\<close>

theorem open_gives_fresh_handle:
  assumes "runtime_ok s" "hs_next (sr_handles s) \<noteq> - 1"
    "open_existing h object kind flags ctx s = (Ok (fh, stat), s')"
  shows "\<exists>e meta fd. fh \<noteq> 0 \<and> hm_get (hs_entries (sr_handles s)) fh = None
    \<and> hm_get (hs_entries (sr_handles s')) = (hm_get (hs_entries (sr_handles s)))(fh \<mapsto> e)
    \<and> he_path e = ro_virtual_path object \<and> he_kind e = kind \<and> he_offset e = 0 \<and> he_file e = Some fd
    \<and> found_metadata h (ro_host_path object) (sr_world s) = Ok meta
    \<and> fst (h_open h (open_options kind (he_access_bits e)) (ro_host_path object) (sr_world s)) = Ok fd
    \<and> (case kind of
         Handle_File \<Rightarrow> md_is_file meta
           \<and> ensure_open_flags_allowed meta (ctx_uid ctx) (ctx_gid ctx) flags = Ok (he_access_bits e)
       | Handle_Dir \<Rightarrow> md_is_dir meta \<and> he_access_bits e = 0
           \<and> ensure_search_allowed meta (ctx_uid ctx) (ctx_gid ctx) = Ok ())"
proof -
  obtain s1 access fd meta where s1: "sr_handles s1 = sr_handles s" "sr_handles_poisoned s1 = sr_handles_poisoned s"
    and a: "allocate_handle (ro_virtual_path object) kind access (ro_permission_updates_blocked object) (Some fd) s1 = (Ok fh, s')"
    and m: "found_metadata h (ro_host_path object) (sr_world s) = Ok meta"
      "fst (h_open h (open_options kind access) (ro_host_path object) (sr_world s)) = Ok fd"
    and k: "kind = Handle_File \<Longrightarrow> md_is_file meta \<and> ensure_open_flags_allowed meta (ctx_uid ctx) (ctx_gid ctx) flags = Ok access"
      "kind = Handle_Dir \<Longrightarrow> md_is_dir meta \<and> access = 0 \<and> ensure_search_allowed meta (ctx_uid ctx) (ctx_gid ctx) = Ok ()"
    using open_existing_Ok [OF assms(3)] by blast
  note a = allocate_handle_Ok [OF a, unfolded s1]
  have "handles_ok (sr_handles s)" using assms(1) a(1) by (simp add: runtime_ok_def)
  note fresh = next_handle_fresh [OF this a(2)]
  show ?thesis
    by (rule exI, rule exI [of _ meta], rule exI [of _ fd], intro conjI, rule fresh(1), rule fresh(3) [OF assms(2)],
        simp only: a(3) hm_get_insert) (use k m in \<open>simp_all split: HandleKind.split\<close>)
qed


text \<open>
  C37: releasing a handle frees it and every lock taken through it. The handle is gone,
  reads through it give \<open>EBADF\<close>, and no byte lock and no whole-file lock of any file
  is held through it any more; other handles and the locks held through them stay.
\<close>

theorem release_frees_handle:
  assumes "runtime_ok s" "\<not> sr_handles_poisoned s" "\<not> sr_locks_poisoned s" "\<not> sr_flocks_poisoned s"
    "s' = rt_release_handle fh s"
  shows "hm_get (hs_entries (sr_handles s')) = (hm_get (hs_entries (sr_handles s)))(fh := None)
    \<and> locks_at (sr_locks s') key = filter (\<lambda>lock. bl_handle lock \<noteq> fh) (locks_at (sr_locks s) key)
    \<and> locks_at (sr_flocks s') key = filter (\<lambda>lock. bf_handle lock \<noteq> fh) (locks_at (sr_flocks s) key)
    \<and> rt_read_fh h object fh offset n s' = Some (Err EBADF, s')"
proof -
  have "hm_wf (sr_locks s)" "hm_wf (sr_flocks s)"
    using assms(1,3,4) by (simp_all add: runtime_ok_def locks_ok_def table_wf_def flocks_ok_def)
  then show ?thesis
    using assms(2-5)
    by (simp add: rt_release_handle_def locks_release_handle_def flock_release_handle_def retained_at
        rt_read_fh_def then_loop_def handle_file_def rt_lock_handles_def srv_bind_def srv_give_def ok_or_def)
qed

definition sample_runtime :: "(u64, memory) StorageRuntime" where
  "sample_runtime = snd (register_file_handle memory_host sample_object 6 7 (StorageRuntime_new FsLimits_default sample_memory))"

definition sample_open :: "(i32 + u64 \<times> Stat) \<times> (u64, memory) StorageRuntime" where
  "sample_open = open_existing (memory_host\<lparr>h_symlink_metadata := (\<lambda>p m. Ok (mem_metadata m 7)),
      h_open := (\<lambda>options p m. (Ok 7, m))\<rparr>)
    sample_object Handle_File 0 \<lparr>ctx_uid = 5, ctx_gid = 5, ctx_pid = 1\<rparr> sample_runtime"

lemmas sample_defs = ResolvedStorageObject_new_def
  allocate_handle_def rt_lock_handles_def srv_bind_def srv_give_def on_host_def io_look_def io_do_def StorageRuntime_new_def
  FsLimits_default_def limits_validated_def memory_host_def mem_metadata_def MIN_HANDLE_ID_def saturating_add_def

lemma sample_runtime_eq: "sample_runtime = \<lparr>sr_limits = limits_validated FsLimits_default, sr_handles =
  \<lparr>hs_next = 2, hs_entries = [(1, \<lparr>he_path = ''/a'', he_kind = Handle_File, he_access_bits = 6, he_offset = 0,
   he_permission_updates_blocked = False, he_file = Some 7\<rparr>)]\<rparr>, sr_handles_poisoned = False,
   sr_locks = [], sr_locks_poisoned = False, sr_flocks = [], sr_flocks_poisoned = False, sr_world = sample_memory\<rparr>"
  by (simp add: sample_runtime_def sample_object_def register_file_handle_def sample_defs Let_def hm_insert_def)

lemma sample_metadata:
  "\<not> md_is_symlink (mem_metadata m 7)" "\<not> md_is_dir (mem_metadata m 7)" "md_is_file (mem_metadata m 7)"
  "ensure_open_flags_allowed (mem_metadata m 7) 5 5 0 = Ok 4"
  by (simp_all add: mem_metadata_def md_is_symlink_def md_is_dir_def md_is_file_def S_IFMT_def S_IFLNK_def S_IFDIR_def
      S_IFREG_def ensure_open_flags_allowed_def open_access_bits_def ensure_access_bits_def class_bits_def
      O_ACCMODE_def O_RDONLY_def O_TRUNC_def)

lemma sample_open_Ok: "fst sample_open = Ok (2, metadata_to_stat (mem_metadata sample_memory 7))"
  by (simp add: sample_open_def open_existing_def sample_runtime_eq sample_object_def ResolvedStorageObject_new_def
      allocate_handle_def rt_lock_handles_def srv_bind_def srv_give_def on_host_def io_look_def io_do_def
      ensure_regular_file_def memory_host_def sample_metadata MIN_HANDLE_ID_def)

lemma sample_runtime_ok: "runtime_ok sample_runtime"
  unfolding sample_runtime_def
  by (rule safeD [OF safe_register]) (simp add: StorageRuntime_new_def runtime_ok_def limits_validated_def
      locks_ok_Nil flocks_ok_Nil)

theorem open_gives_fresh_handle_witness:
  "fst sample_open = Ok (2, metadata_to_stat (mem_metadata sample_memory 7))
    \<and> hm_get (hs_entries (sr_handles sample_runtime)) 2 = None
    \<and> map_option he_path (hm_get (hs_entries (sr_handles (snd sample_open))) 2) = Some ''/a''"
proof -
  have r: "hs_next (sr_handles sample_runtime) \<noteq> - 1" "ro_virtual_path sample_object = ''/a''"
    by (simp_all add: sample_runtime_eq sample_object_def ResolvedStorageObject_new_def)
  have "sample_open = (Ok (2, metadata_to_stat (mem_metadata sample_memory 7)), snd sample_open)"
    by (simp add: prod_eq_iff sample_open_Ok)
  from open_gives_fresh_handle [OF sample_runtime_ok r(1) this [unfolded sample_open_def]] r(2) sample_open_Ok
  show ?thesis by (auto simp: sample_open_def)
qed


theorem release_frees_handle_witness:
  "rt_read_fh memory_host sample_object 1 1 3 (rt_release_handle 1 sample_runtime)
    = Some (Err EBADF, rt_release_handle 1 sample_runtime)"
proof -
  have "\<not> sr_handles_poisoned sample_runtime" "\<not> sr_locks_poisoned sample_runtime" "\<not> sr_flocks_poisoned sample_runtime"
    by (simp_all add: sample_runtime_eq)
  from release_frees_handle [OF sample_runtime_ok this refl] show ?thesis by simp
qed

end
