(* ===== verification/Passthrough.thy ===== *)
theory Passthrough
  imports StorageRuntime
begin

text \<open>
  The storage that serves one directory of the host, after
  \<open>fabricfs-server/src/passthrough.rs\<close> and \<open>fabricfs-server/src/root.rs\<close>. An operation
  takes the calls of the host, the root and mask of the storage and its own arguments, and
  runs on the state of the storage runtime, which holds the state of the host. The theories
  \<open>PassthroughConfinement\<close> and \<open>PassthroughAccess\<close> show that the storage stays inside its
  root, that names come and go only with the permission of the directories they are in, and
  what a rename does to the open handles.
\<close>

section \<open>Roots\<close>

datatype StorageInitError =
    MissingDirectory string string
  | CreateDirectory string string io_error

definition path_pop :: "string \<Rightarrow> string" where
  "path_pop p = (case path_parent p of None \<Rightarrow> p | Some q \<Rightarrow> q)"

fun clean_component :: "string \<Rightarrow> Component \<Rightarrow> string" where
  "clean_component cleaned RootDir = path_join cleaned ''/''"
| "clean_component cleaned CurDir = cleaned"
| "clean_component cleaned ParentDir = path_pop cleaned"
| "clean_component cleaned (Normal segment) = path_join cleaned segment"

definition clean_root :: "string \<Rightarrow> string" where
  "clean_root p =
    (let cleaned = foldl clean_component [] (components p) in if cleaned = [] then ''/'' else cleaned)"

definition require_existing_dir :: "('f, 'w) host_fs \<Rightarrow> string \<Rightarrow> string \<Rightarrow> 'w \<Rightarrow> StorageInitError + string" where
  "require_existing_dir h p label w =
    (let cleaned = clean_root p
     in case h_metadata h cleaned w of
          Inr meta \<Rightarrow> if md_is_dir meta then Ok cleaned else Err (MissingDirectory label cleaned)
        | Inl _ \<Rightarrow> Err (MissingDirectory label cleaned))"

definition ensure_dir :: "('f, 'w) host_fs \<Rightarrow> string \<Rightarrow> string \<Rightarrow> 'w \<Rightarrow> (StorageInitError + unit) \<times> 'w" where
  "ensure_dir h p label w =
    (case h_create_dir_all h p w of (r, w') \<Rightarrow> (map_err (CreateDirectory label p) r, w'))"

section \<open>The storage\<close>

record PassthroughFs =
  pf_root :: string
  pf_umask :: u32

definition PassthroughFs_new :: "('f, 'w) host_fs \<Rightarrow> string \<Rightarrow> FsOptions \<Rightarrow> 'w
    \<Rightarrow> StorageInitError + PassthroughFs \<times> ('f, 'w) StorageRuntime" where
  "PassthroughFs_new h root options w =
    (let options = options_normalized options; limits = limits_validated (opt_limits options)
     in try_bind (require_existing_dir h root ''passthrough_root'' w) (\<lambda>root.
       Ok (\<lparr>pf_root = root, pf_umask = opt_umask options\<rparr>, StorageRuntime_new limits w)))"

definition resolve_path :: "PassthroughFs \<Rightarrow> string \<Rightarrow> string" where
  "resolve_path fs rel = path_join (pf_root fs) (strip_root rel)"

definition resolved_object :: "PassthroughFs \<Rightarrow> string \<Rightarrow> ResolvedStorageObject" where
  "resolved_object fs rel = ResolvedStorageObject_new rel (resolve_path fs rel)"

definition apply_umask :: "PassthroughFs \<Rightarrow> u32 \<Rightarrow> u32" where
  "apply_umask fs mode = mode AND NOT (pf_umask fs)"

text \<open>How the operations begin: the caller, the path, the metadata of a path.\<close>

definition for_caller :: "FuseContext option \<Rightarrow> (FuseContext \<Rightarrow> ('f, 'w, 'a) rt_call) \<Rightarrow> ('f, 'w, 'a) rt_call" where
  "for_caller ctx f = srv_bind (srv_give (require_context ctx)) f"

definition with_path :: "string \<Rightarrow> (string \<Rightarrow> ('f, 'w, 'a) rt_call) \<Rightarrow> ('f, 'w, 'a) rt_call" where
  "with_path p f = srv_bind (srv_give (normalize_path p)) f"

definition on_object :: "PassthroughFs \<Rightarrow> string \<Rightarrow> (ResolvedStorageObject \<Rightarrow> ('f, 'w, 'a) rt_call) \<Rightarrow> ('f, 'w, 'a) rt_call" where
  "on_object fs p f = with_path p (\<lambda>rel. f (resolved_object fs rel))"

definition link_metadata :: "('f, 'w) host_fs \<Rightarrow> PassthroughFs \<Rightarrow> string \<Rightarrow> ('f, 'w, Metadata) rt_call" where
  "link_metadata h fs rel = on_host (io_look (h_symlink_metadata h (resolve_path fs rel)))"

definition check :: "i32 + unit \<Rightarrow> ('f, 'w, 'a) rt_call \<Rightarrow> ('f, 'w, 'a) rt_call" where
  "check r m = srv_bind (srv_give r) (\<lambda>_. m)"

definition after :: "('w, unit) call \<Rightarrow> ('f, 'w, 'a) rt_call \<Rightarrow> ('f, 'w, 'a) rt_call" where
  "after m n = srv_bind (on_host m) (\<lambda>_. n)"

definition finish :: "'a \<Rightarrow> ('f, 'w, 'a) rt_call" where
  "finish a = srv_give (Ok a)"

section \<open>Open files\<close>

definition pt_read :: "('f, 'w) host_fs \<Rightarrow> PassthroughFs \<Rightarrow> string \<Rightarrow> i64 \<Rightarrow> i64 \<Rightarrow> FuseContext option
    \<Rightarrow> ('f, 'w) StorageRuntime \<Rightarrow> ((i32 + bytes) \<times> ('f, 'w) StorageRuntime) option" where
  "pt_read h fs p offset n ctx =
    then_loop (srv_give (require_context ctx)) (\<lambda>ctx.
    then_loop (srv_give (normalize_path p)) (\<lambda>rel.
      rt_read_path h (resolved_object fs rel) offset n ctx))"

definition pt_read_fh :: "('f, 'w) host_fs \<Rightarrow> PassthroughFs \<Rightarrow> string \<Rightarrow> u64 \<Rightarrow> i64 \<Rightarrow> i64 \<Rightarrow> FuseContext option
    \<Rightarrow> ('f, 'w) StorageRuntime \<Rightarrow> ((i32 + bytes) \<times> ('f, 'w) StorageRuntime) option" where
  "pt_read_fh h fs p fh offset n ctx =
    then_loop (srv_give (require_context ctx)) (\<lambda>_.
    then_loop (srv_give (normalize_path p)) (\<lambda>rel.
      rt_read_fh h (resolved_object fs rel) fh offset n))"

definition pt_write :: "('f, 'w) host_fs \<Rightarrow> PassthroughFs \<Rightarrow> string \<Rightarrow> i64 \<Rightarrow> bytes \<Rightarrow> FuseContext option
    \<Rightarrow> ('f, 'w, nat) rt_call" where
  "pt_write h fs p offset data ctx =
    for_caller ctx (\<lambda>ctx. on_object fs p (\<lambda>object. rt_write_path h object offset data ctx))"

definition pt_write_fh :: "('f, 'w) host_fs \<Rightarrow> PassthroughFs \<Rightarrow> string \<Rightarrow> u64 \<Rightarrow> i64 \<Rightarrow> bytes \<Rightarrow> FuseContext option
    \<Rightarrow> ('f, 'w, nat) rt_call" where
  "pt_write_fh h fs p fh offset data ctx =
    for_caller ctx (\<lambda>_. on_object fs p (\<lambda>object. rt_write_fh h object fh offset data))"

definition pt_sync_file_fh :: "('f, 'w) host_fs \<Rightarrow> PassthroughFs \<Rightarrow> string \<Rightarrow> u64 \<Rightarrow> bool \<Rightarrow> ('f, 'w, unit) rt_call" where
  "pt_sync_file_fh h fs p fh datasync = on_object fs p (\<lambda>object. rt_sync_file_fh h object fh datasync)"

definition pt_sync_dir_fh :: "('f, 'w) host_fs \<Rightarrow> PassthroughFs \<Rightarrow> string \<Rightarrow> u64 \<Rightarrow> bool \<Rightarrow> ('f, 'w, unit) rt_call" where
  "pt_sync_dir_fh h fs p fh datasync = on_object fs p (\<lambda>object. rt_sync_dir_fh h object fh datasync)"

definition pt_sync_file :: "('f, 'w) host_fs \<Rightarrow> PassthroughFs \<Rightarrow> string \<Rightarrow> bool \<Rightarrow> ('f, 'w, unit) rt_call" where
  "pt_sync_file h fs p datasync =
    with_path p (\<lambda>rel.
    srv_bind (on_host (io_do (h_open h oo_read_only (resolve_path fs rel)))) (\<lambda>file.
    on_host (io_do (hf_sync_all h file))))"

definition pt_setattr_fh :: "('f, 'w) host_fs \<Rightarrow> PassthroughFs \<Rightarrow> string \<Rightarrow> u64 \<Rightarrow> u32 option \<Rightarrow> u32 option
    \<Rightarrow> u32 option \<Rightarrow> u64 option \<Rightarrow> FuseContext option \<Rightarrow> ('f, 'w, Stat) rt_call" where
  "pt_setattr_fh h fs p fh mode uid gid n ctx =
    for_caller ctx (\<lambda>ctx. on_object fs p (\<lambda>object. rt_setattr_fh h object fh mode uid gid n ctx))"

definition pt_open :: "('f, 'w) host_fs \<Rightarrow> PassthroughFs \<Rightarrow> string \<Rightarrow> HandleKind \<Rightarrow> i32 \<Rightarrow> FuseContext option
    \<Rightarrow> ('f, 'w, u64 \<times> Stat) rt_call" where
  "pt_open h fs p kind flags ctx =
    for_caller ctx (\<lambda>ctx. on_object fs p (\<lambda>object. open_existing h object kind flags ctx))"

definition pt_check_handle :: "PassthroughFs \<Rightarrow> string \<Rightarrow> u64 option \<Rightarrow> HandleKind \<Rightarrow> ('f, 'w, unit) rt_call" where
  "pt_check_handle fs p fh expected = on_object fs p (\<lambda>object. check_handle object fh expected)"

definition pt_release_posix_locks :: "('f, 'w) host_fs \<Rightarrow> PassthroughFs \<Rightarrow> string \<Rightarrow> u64 \<Rightarrow> u64 \<Rightarrow> ('f, 'w, unit) rt_call" where
  "pt_release_posix_locks h fs p fh owner = on_object fs p (\<lambda>object. rt_release_posix_locks h object fh owner)"

definition pt_getlk :: "('f, 'w) host_fs \<Rightarrow> PassthroughFs \<Rightarrow> string \<Rightarrow> u64 \<Rightarrow> u64 \<Rightarrow> u64 \<Rightarrow> u64 \<Rightarrow> i32
    \<Rightarrow> ('f, 'w, ServerFileLock option) rt_call" where
  "pt_getlk h fs p fh owner start stop ty = on_object fs p (\<lambda>object. rt_getlk h object fh owner start stop ty)"

definition pt_setlk :: "('f, 'w) host_fs \<Rightarrow> PassthroughFs \<Rightarrow> string \<Rightarrow> u64 \<Rightarrow> u64 \<Rightarrow> u64 \<Rightarrow> u64 \<Rightarrow> i32 \<Rightarrow> u32
    \<Rightarrow> ('f, 'w, unit) rt_call" where
  "pt_setlk h fs p fh owner start stop ty pid = on_object fs p (\<lambda>object. rt_setlk h object fh owner start stop ty pid)"

definition pt_flock :: "('f, 'w) host_fs \<Rightarrow> PassthroughFs \<Rightarrow> string \<Rightarrow> u64 \<Rightarrow> u64 \<Rightarrow> i32 \<Rightarrow> u32 \<Rightarrow> ('f, 'w, unit) rt_call" where
  "pt_flock h fs p fh owner operation pid = on_object fs p (\<lambda>object. rt_flock h object fh owner operation)"

definition pt_copy_file_range :: "('f, 'w) host_fs \<Rightarrow> PassthroughFs \<Rightarrow> string \<Rightarrow> string \<Rightarrow> u64 \<Rightarrow> u64 \<Rightarrow> i64 \<Rightarrow> i64 \<Rightarrow> u64
    \<Rightarrow> FuseContext option \<Rightarrow> ('f, 'w) StorageRuntime \<Rightarrow> ((i32 + u64) \<times> ('f, 'w) StorageRuntime) option" where
  "pt_copy_file_range h fs from_path to_path fh_in fh_out offset_in offset_out len ctx =
    then_loop (srv_give (require_context ctx)) (\<lambda>_.
    then_loop (srv_give (normalize_path from_path)) (\<lambda>from_rel.
    then_loop (srv_give (normalize_path to_path)) (\<lambda>to_rel.
      rt_copy_file_range h (resolved_object fs from_rel) (resolved_object fs to_rel)
        fh_in fh_out offset_in offset_out len)))"

definition pt_fallocate :: "('f, 'w) host_fs \<Rightarrow> PassthroughFs \<Rightarrow> string \<Rightarrow> u64 \<Rightarrow> i64 \<Rightarrow> i64 \<Rightarrow> i32 \<Rightarrow> ('f, 'w, unit) rt_call" where
  "pt_fallocate h fs p fh offset len mode = on_object fs p (\<lambda>object. rt_fallocate h object fh offset len mode)"

definition pt_lseek :: "('f, 'w) host_fs \<Rightarrow> PassthroughFs \<Rightarrow> string \<Rightarrow> u64 \<Rightarrow> i64 \<Rightarrow> i32 \<Rightarrow> ('f, 'w, i64) rt_call" where
  "pt_lseek h fs p fh offset whence = on_object fs p (\<lambda>object. rt_lseek h object fh offset whence)"

section \<open>Names\<close>

definition pt_mkdir :: "('f, 'w) host_fs \<Rightarrow> PassthroughFs \<Rightarrow> string \<Rightarrow> u32 \<Rightarrow> FuseContext option \<Rightarrow> ('f, 'w, unit) rt_call" where
  "pt_mkdir h fs p mode ctx =
    for_caller ctx (\<lambda>ctx. with_path p (\<lambda>rel.
    let target = resolve_path fs rel; masked = apply_umask fs mode
    in srv_bind (link_metadata h fs (parent_rel rel)) (\<lambda>parent_meta.
    check (ensure_dir_creation_allowed parent_meta (ctx_uid ctx) (ctx_gid ctx))
    (after (io_do (h_create_dir h target))
    (after (io_do (h_set_permissions h target (S_IFDIR OR masked)))
    (on_host (apply_ownership h target (ctx_uid ctx) (ctx_gid ctx) True)))))))"

definition pt_unlink :: "('f, 'w) host_fs \<Rightarrow> PassthroughFs \<Rightarrow> string \<Rightarrow> FuseContext option \<Rightarrow> ('f, 'w, unit) rt_call" where
  "pt_unlink h fs p ctx =
    for_caller ctx (\<lambda>ctx. with_path p (\<lambda>rel.
    srv_bind (link_metadata h fs rel) (\<lambda>meta.
    if md_is_dir meta then srv_give (Err EISDIR)
    else srv_bind (link_metadata h fs (parent_rel rel)) (\<lambda>parent_meta.
    check (ensure_removal_allowed parent_meta meta (ctx_uid ctx) (ctx_gid ctx))
    (check (ensure_sticky_allowed parent_meta meta (ctx_uid ctx))
    (on_host (io_do (h_remove_file h (resolve_path fs rel)))))))))"

definition pt_rmdir :: "('f, 'w) host_fs \<Rightarrow> PassthroughFs \<Rightarrow> string \<Rightarrow> FuseContext option \<Rightarrow> ('f, 'w, unit) rt_call" where
  "pt_rmdir h fs p ctx =
    for_caller ctx (\<lambda>ctx. with_path p (\<lambda>rel.
    srv_bind (on_host (dir_is_empty h (resolve_path fs rel))) (\<lambda>empty.
    if \<not> empty then srv_give (Err ENOTEMPTY)
    else srv_bind (link_metadata h fs (parent_rel rel)) (\<lambda>parent_meta.
    srv_bind (link_metadata h fs rel) (\<lambda>meta.
    check (ensure_removal_allowed parent_meta meta (ctx_uid ctx) (ctx_gid ctx))
    (check (ensure_sticky_allowed parent_meta meta (ctx_uid ctx))
    (on_host (io_do (h_remove_dir h (resolve_path fs rel))))))))))"

text \<open>The destination of a rename is removed if it is there.\<close>

definition remove_destination :: "('f, 'w) host_fs \<Rightarrow> string \<Rightarrow> ('w, unit) call" where
  "remove_destination h dst w =
    (case h_symlink_metadata h dst w of
       Inl _ \<Rightarrow> (Ok (), w)
     | Inr meta \<Rightarrow>
         srv_bind (if md_is_dir meta then dir_is_empty h dst else srv_give (Ok True)) (\<lambda>empty.
           if \<not> empty then srv_give (Err ENOTEMPTY)
           else if md_is_dir meta then io_do (h_remove_dir h dst) else io_do (h_remove_file h dst)) w)"

definition create_parent :: "('f, 'w) host_fs \<Rightarrow> string \<Rightarrow> ('w, unit) call" where
  "create_parent h p =
    (case path_parent p of None \<Rightarrow> srv_give (Ok ()) | Some parent \<Rightarrow> io_do (h_create_dir_all h parent))"

definition pt_rename :: "('f, 'w) host_fs \<Rightarrow> PassthroughFs \<Rightarrow> string \<Rightarrow> string \<Rightarrow> FuseContext option \<Rightarrow> ('f, 'w, unit) rt_call" where
  "pt_rename h fs from_path to_path ctx =
    for_caller ctx (\<lambda>ctx. with_path from_path (\<lambda>from_rel. with_path to_path (\<lambda>to_rel.
    let src = resolve_path fs from_rel; dst = resolve_path fs to_rel
    in srv_bind (link_metadata h fs from_rel) (\<lambda>src_meta.
    srv_bind (link_metadata h fs (parent_rel from_rel)) (\<lambda>from_parent_meta.
    check (ensure_removal_allowed from_parent_meta src_meta (ctx_uid ctx) (ctx_gid ctx))
    (srv_bind (link_metadata h fs (parent_rel to_rel)) (\<lambda>to_parent_meta.
    check (ensure_dir_creation_allowed to_parent_meta (ctx_uid ctx) (ctx_gid ctx))
    (srv_bind (on_host (\<lambda>w. (Ok (case h_symlink_metadata h dst w of Inr meta \<Rightarrow> meta | Inl _ \<Rightarrow> src_meta), w))) (\<lambda>dest_meta.
    check (ensure_sticky_allowed to_parent_meta dest_meta (ctx_uid ctx))
    (after (remove_destination h dst)
    (after (create_parent h dst)
    (after (io_do (h_rename h src dst))
    (rewrite_paths from_rel to_rel)))))))))))))"

definition pt_create_file :: "('f, 'w) host_fs \<Rightarrow> PassthroughFs \<Rightarrow> string \<Rightarrow> u32 \<Rightarrow> i32 \<Rightarrow> FuseContext option
    \<Rightarrow> ('f, 'w, u64 \<times> Stat) rt_call" where
  "pt_create_file h fs p mode flags ctx =
    for_caller ctx (\<lambda>ctx. with_path p (\<lambda>rel.
    let target = resolve_path fs rel; masked = apply_umask fs mode
    in srv_bind (srv_give (open_access_bits flags)) (\<lambda>access_bits.
    srv_bind (on_host (\<lambda>w. case h_symlink_metadata h target w of
        Inl _ \<Rightarrow> (Ok None, w)
      | Inr meta \<Rightarrow> if md_is_symlink meta
          then srv_bind (io_look (h_metadata h target)) (\<lambda>meta. srv_give (Ok (Some meta))) w
          else (Ok (Some meta), w))) (\<lambda>existing_meta.
    let existed = existing_meta \<noteq> None
    in srv_bind (link_metadata h fs (parent_rel rel)) (\<lambda>parent_meta.
    check (if existed then ensure_search_allowed parent_meta (ctx_uid ctx) (ctx_gid ctx)
      else ensure_dir_creation_allowed parent_meta (ctx_uid ctx) (ctx_gid ctx))
    (if flags AND O_EXCL \<noteq> 0 \<and> existed then srv_give (Err EEXIST)
     else check (case existing_meta of
         None \<Rightarrow> Ok ()
       | Some meta \<Rightarrow> try_seq (ensure_regular_file meta)
           (map_ok (\<lambda>_. ()) (ensure_open_flags_allowed meta (ctx_uid ctx) (ctx_gid ctx) flags)))
    (after (create_parent h target)
    (srv_bind (on_host (io_do (h_open h \<lparr>oo_read = access_bits AND 4 \<noteq> 0,
        oo_write = access_bits AND 2 \<noteq> 0 \<or> \<not> existed, oo_create = \<not> existed, oo_mode = masked AND 4095\<rparr> target))) (\<lambda>file.
    after (if existed then srv_give (Ok ())
      else srv_bind (io_do (h_set_permissions h target (S_IFREG OR masked))) (\<lambda>_.
        apply_ownership h target (ctx_uid ctx) (ctx_gid ctx) True))
    (after (if existed \<and> flags AND O_TRUNC \<noteq> 0 then io_do (hf_set_len h file 0) else srv_give (Ok ()))
    (register_file_handle h (resolved_object fs rel) access_bits file)))))))))))"

definition pt_mknod :: "('f, 'w) host_fs \<Rightarrow> PassthroughFs \<Rightarrow> string \<Rightarrow> u32 \<Rightarrow> FuseContext option \<Rightarrow> ('f, 'w, Stat) rt_call" where
  "pt_mknod h fs p mode ctx =
    for_caller ctx (\<lambda>ctx. with_path p (\<lambda>rel.
    let target = resolve_path fs rel; masked = apply_umask fs mode
    in srv_bind (link_metadata h fs (parent_rel rel)) (\<lambda>parent_meta.
    check (ensure_file_creation_allowed parent_meta (ctx_uid ctx) (ctx_gid ctx))
    (srv_bind (srv_give (path_to_cstring target)) (\<lambda>cstr.
    after (h_mknod h cstr masked)
    (after (io_do (h_set_permissions h target (masked AND 4095)))
    (after (apply_ownership h target (ctx_uid ctx) (ctx_gid ctx) True)
    (srv_bind (on_host (io_look (h_metadata h target))) (\<lambda>meta. finish (metadata_to_stat meta))))))))))"

definition pt_exists :: "('f, 'w) host_fs \<Rightarrow> PassthroughFs \<Rightarrow> string \<Rightarrow> ('f, 'w, unit) rt_call" where
  "pt_exists h fs p =
    with_path p (\<lambda>rel. on_host (\<lambda>w.
      (case h_symlink_metadata h (resolve_path fs rel) w of Inr _ \<Rightarrow> Ok () | Inl _ \<Rightarrow> Err ENOENT, w)))"

definition pt_link :: "('f, 'w) host_fs \<Rightarrow> PassthroughFs \<Rightarrow> string \<Rightarrow> string \<Rightarrow> FuseContext option \<Rightarrow> ('f, 'w, unit) rt_call" where
  "pt_link h fs from_path to_path ctx =
    for_caller ctx (\<lambda>ctx. with_path from_path (\<lambda>from_rel. with_path to_path (\<lambda>to_rel.
    srv_bind (ensure_parent_search_allowed from_rel (\<lambda>rel.
      srv_bind (on_host (io_look (h_metadata h (resolve_path fs rel)))) (\<lambda>meta.
      srv_give (ensure_search_allowed meta (ctx_uid ctx) (ctx_gid ctx))))) (\<lambda>_.
    srv_bind (link_metadata h fs from_rel) (\<lambda>_.
    srv_bind (link_metadata h fs (parent_rel to_rel)) (\<lambda>parent_meta.
    check (ensure_file_creation_allowed parent_meta (ctx_uid ctx) (ctx_gid ctx))
    (on_host (io_do (h_hard_link h (resolve_path fs from_rel) (resolve_path fs to_rel))))))))))"

definition pt_symlink :: "('f, 'w) host_fs \<Rightarrow> PassthroughFs \<Rightarrow> string \<Rightarrow> bytes \<Rightarrow> FuseContext option \<Rightarrow> ('f, 'w, unit) rt_call" where
  "pt_symlink h fs p target ctx =
    for_caller ctx (\<lambda>ctx. with_path p (\<lambda>rel.
    let link_path = resolve_path fs rel
    in srv_bind (link_metadata h fs (parent_rel rel)) (\<lambda>parent_meta.
    check (ensure_file_creation_allowed parent_meta (ctx_uid ctx) (ctx_gid ctx))
    (after (create_parent h link_path)
    (after (io_do (h_symlink h target link_path))
    (on_host (apply_ownership h link_path (ctx_uid ctx) (ctx_gid ctx) False)))))))"

section \<open>Metadata\<close>

record ServerStatFs =
  ss_blocks :: u64
  ss_bfree :: u64
  ss_bavail :: u64
  ss_files :: u64
  ss_ffree :: u64
  ss_bsize :: u64
  ss_namelen :: u64
  ss_frsize :: u64

definition pt_setattr :: "('f, 'w) host_fs \<Rightarrow> PassthroughFs \<Rightarrow> string \<Rightarrow> u32 option \<Rightarrow> u32 option \<Rightarrow> u32 option
    \<Rightarrow> u64 option \<Rightarrow> FuseContext option \<Rightarrow> ('f, 'w, Stat) rt_call" where
  "pt_setattr h fs p mode uid gid n ctx =
    for_caller ctx (\<lambda>ctx. with_path p (\<lambda>rel.
    let target = resolve_path fs rel;
        allowed = (\<lambda>meta. ensure_setattr_allowed meta (ctx_uid ctx) (ctx_gid ctx) mode uid gid n)
    in after (case n of
        Some sz \<Rightarrow>
          srv_bind (io_do (h_open h oo_write_only target)) (\<lambda>f.
          srv_bind (io_look (hf_metadata h f)) (\<lambda>meta.
          srv_bind (srv_give (allowed meta)) (\<lambda>_.
          io_do (hf_set_len h f sz))))
      | None \<Rightarrow>
          srv_bind (io_look (h_metadata h target)) (\<lambda>meta. srv_give (allowed meta)))
    (after (when_some mode (\<lambda>m. io_do (h_set_permissions h target m)))
    (after (if uid \<noteq> None \<or> gid \<noteq> None
        then srv_bind (srv_give (path_to_cstring target)) (\<lambda>cstr.
          h_chown h cstr (case uid of None \<Rightarrow> - 1 | Some u \<Rightarrow> u) (case gid of None \<Rightarrow> - 1 | Some g \<Rightarrow> g))
        else srv_give (Ok ()))
    (srv_bind (on_host (io_look (h_metadata h target))) (\<lambda>meta. finish (metadata_to_stat meta)))))))"

definition pt_stat :: "('f, 'w) host_fs \<Rightarrow> PassthroughFs \<Rightarrow> string \<Rightarrow> ('f, 'w, Stat) rt_call" where
  "pt_stat h fs p =
    with_path p (\<lambda>rel. srv_bind (link_metadata h fs rel) (\<lambda>meta. finish (metadata_to_stat meta)))"

definition pt_readlink :: "('f, 'w) host_fs \<Rightarrow> PassthroughFs \<Rightarrow> string \<Rightarrow> ('f, 'w, bytes) rt_call" where
  "pt_readlink h fs p = with_path p (\<lambda>rel. on_host (io_look (h_read_link h (resolve_path fs rel))))"

definition sys_look :: "('w \<Rightarrow> i32 + 'a) \<Rightarrow> ('f, 'w, 'a) rt_call" where
  "sys_look f = on_host (\<lambda>w. (f w, w))"

definition pt_statfs :: "('f, 'w) host_fs \<Rightarrow> PassthroughFs \<Rightarrow> ('f, 'w, ServerStatFs) rt_call" where
  "pt_statfs h fs =
    srv_bind (srv_give (path_to_cstring (pf_root fs))) (\<lambda>cstr.
    srv_bind (sys_look (h_statvfs h cstr)) (\<lambda>stat.
    finish \<lparr>ss_blocks = f_blocks stat, ss_bfree = f_bfree stat, ss_bavail = f_bavail stat, ss_files = f_files stat,
      ss_ffree = f_ffree stat, ss_bsize = f_bsize stat, ss_namelen = f_namemax stat, ss_frsize = f_frsize stat\<rparr>))"

text \<open>A path and the name of an extended attribute as C strings.\<close>

definition with_xattr :: "PassthroughFs \<Rightarrow> string \<Rightarrow> string \<Rightarrow> (string \<Rightarrow> ('f, 'w, 'a) rt_call) \<Rightarrow> ('f, 'w, 'a) rt_call" where
  "with_xattr fs p name f =
    with_path p (\<lambda>rel.
    srv_bind (srv_give (path_to_cstring (resolve_path fs rel))) (\<lambda>cpath.
    check (if contains_nul name then Err EINVAL else Ok ()) (f cpath)))"

definition pt_setxattr :: "('f, 'w) host_fs \<Rightarrow> PassthroughFs \<Rightarrow> string \<Rightarrow> string \<Rightarrow> bytes \<Rightarrow> i32 \<Rightarrow> ('f, 'w, unit) rt_call" where
  "pt_setxattr h fs p name v flags = with_xattr fs p name (\<lambda>cpath. on_host (h_setxattr h cpath name v flags))"

definition pt_getxattr :: "('f, 'w) host_fs \<Rightarrow> PassthroughFs \<Rightarrow> string \<Rightarrow> string \<Rightarrow> u32 \<Rightarrow> ('f, 'w, bytes) rt_call" where
  "pt_getxattr h fs p name n =
    with_xattr fs p name (\<lambda>cpath.
      if n = 0 then srv_bind (sys_look (h_getxattr_len h cpath name)) (\<lambda>len. finish (replicate len 0))
      else sys_look (h_getxattr h cpath name (unat n)))"

definition pt_listxattr :: "('f, 'w) host_fs \<Rightarrow> PassthroughFs \<Rightarrow> string \<Rightarrow> ('f, 'w, string list) rt_call" where
  "pt_listxattr h fs p =
    with_path p (\<lambda>rel.
    srv_bind (srv_give (path_to_cstring (resolve_path fs rel))) (\<lambda>cpath.
    srv_bind (sys_look (h_listxattr_len h cpath)) (\<lambda>len.
      if len = 0 then finish []
      else srv_bind (sys_look (h_listxattr h cpath len)) (\<lambda>buf.
        finish (map (h_lossy h) (filter (\<lambda>s. s \<noteq> []) (split_char (CHR 0x00) buf)))))))"

definition pt_removexattr :: "('f, 'w) host_fs \<Rightarrow> PassthroughFs \<Rightarrow> string \<Rightarrow> string \<Rightarrow> ('f, 'w, unit) rt_call" where
  "pt_removexattr h fs p name = with_xattr fs p name (\<lambda>cpath. on_host (h_removexattr h cpath name))"

fun list_entries :: "('f, 'w) host_fs \<Rightarrow> string \<Rightarrow> (io_error + string) list \<Rightarrow> ('w, (string \<times> Stat) list) call" where
  "list_entries h target [] = srv_give (Ok [])"
| "list_entries h target (entry # entries) =
    srv_bind (srv_give (map_err io_errno entry)) (\<lambda>name.
    srv_bind (io_look (h_symlink_metadata h (path_join target name))) (\<lambda>meta.
    srv_bind (list_entries h target entries) (\<lambda>rest.
    srv_give (Ok ((h_lossy h name, metadata_to_stat meta) # rest)))))"

definition pt_list_dir :: "('f, 'w) host_fs \<Rightarrow> PassthroughFs \<Rightarrow> string \<Rightarrow> ('f, 'w, (string \<times> Stat) list) rt_call" where
  "pt_list_dir h fs p =
    with_path p (\<lambda>rel. on_host (
      srv_bind (io_look (h_read_dir h (resolve_path fs rel))) (list_entries h (resolve_path fs rel))))"

section \<open>The interface\<close>

text \<open>
  The operations a file service calls on its storage, with the state of the storage \<open>'s\<close>.
  Reads and copies may not return when the host keeps interrupting them.
\<close>

record 's NamespaceStorage =
  st_mkdir :: "string \<Rightarrow> u32 \<Rightarrow> FuseContext option \<Rightarrow> ('s, unit) call"
  st_unlink :: "string \<Rightarrow> FuseContext option \<Rightarrow> ('s, unit) call"
  st_rmdir :: "string \<Rightarrow> FuseContext option \<Rightarrow> ('s, unit) call"
  st_rename :: "string \<Rightarrow> string \<Rightarrow> FuseContext option \<Rightarrow> ('s, unit) call"
  st_create_file :: "string \<Rightarrow> u32 \<Rightarrow> i32 \<Rightarrow> FuseContext option \<Rightarrow> ('s, u64 \<times> Stat) call"
  st_mknod :: "string \<Rightarrow> u32 \<Rightarrow> FuseContext option \<Rightarrow> ('s, Stat) call"
  st_exists :: "string \<Rightarrow> ('s, unit) call"
  st_link :: "string \<Rightarrow> string \<Rightarrow> FuseContext option \<Rightarrow> ('s, unit) call"
  st_symlink :: "string \<Rightarrow> bytes \<Rightarrow> FuseContext option \<Rightarrow> ('s, unit) call"

record 's MetadataStorage =
  st_readlink :: "string \<Rightarrow> ('s, bytes) call"
  st_stat :: "string \<Rightarrow> ('s, Stat) call"
  st_statfs :: "('s, ServerStatFs) call"
  st_setattr :: "string \<Rightarrow> u32 option \<Rightarrow> u32 option \<Rightarrow> u32 option \<Rightarrow> u64 option \<Rightarrow> FuseContext option \<Rightarrow> ('s, Stat) call"
  st_setxattr :: "string \<Rightarrow> string \<Rightarrow> bytes \<Rightarrow> i32 \<Rightarrow> ('s, unit) call"
  st_getxattr :: "string \<Rightarrow> string \<Rightarrow> u32 \<Rightarrow> ('s, bytes) call"
  st_listxattr :: "string \<Rightarrow> ('s, string list) call"
  st_removexattr :: "string \<Rightarrow> string \<Rightarrow> ('s, unit) call"

record 's DirectoryStorage =
  st_list_dir :: "string \<Rightarrow> ('s, (string \<times> Stat) list) call"

record 's OpenedObjectStorage =
  st_read :: "string \<Rightarrow> i64 \<Rightarrow> i64 \<Rightarrow> FuseContext option \<Rightarrow> 's \<Rightarrow> ((i32 + bytes) \<times> 's) option"
  st_read_fh :: "string \<Rightarrow> u64 \<Rightarrow> i64 \<Rightarrow> i64 \<Rightarrow> FuseContext option \<Rightarrow> 's \<Rightarrow> ((i32 + bytes) \<times> 's) option"
  st_write :: "string \<Rightarrow> i64 \<Rightarrow> bytes \<Rightarrow> FuseContext option \<Rightarrow> ('s, nat) call"
  st_write_fh :: "string \<Rightarrow> u64 \<Rightarrow> i64 \<Rightarrow> bytes \<Rightarrow> FuseContext option \<Rightarrow> ('s, nat) call"
  st_setattr_fh :: "string \<Rightarrow> u64 \<Rightarrow> u32 option \<Rightarrow> u32 option \<Rightarrow> u32 option \<Rightarrow> u64 option \<Rightarrow> FuseContext option \<Rightarrow> ('s, Stat) call"
  st_open :: "string \<Rightarrow> HandleKind \<Rightarrow> i32 \<Rightarrow> FuseContext option \<Rightarrow> ('s, u64 \<times> Stat) call"
  st_release_fh :: "u64 \<Rightarrow> 's \<Rightarrow> 's"
  st_sync_dir_fh :: "string \<Rightarrow> u64 \<Rightarrow> bool \<Rightarrow> ('s, unit) call"
  st_sync_file :: "string \<Rightarrow> bool \<Rightarrow> ('s, unit) call"
  st_sync_file_fh :: "string \<Rightarrow> u64 \<Rightarrow> bool \<Rightarrow> ('s, unit) call"
  st_check_handle :: "string \<Rightarrow> u64 option \<Rightarrow> HandleKind \<Rightarrow> ('s, unit) call"
  st_release_posix_locks :: "string \<Rightarrow> u64 \<Rightarrow> u64 \<Rightarrow> ('s, unit) call"
  st_getlk :: "string \<Rightarrow> u64 \<Rightarrow> u64 \<Rightarrow> u64 \<Rightarrow> u64 \<Rightarrow> i32 \<Rightarrow> ('s, ServerFileLock option) call"
  st_setlk :: "string \<Rightarrow> u64 \<Rightarrow> u64 \<Rightarrow> u64 \<Rightarrow> u64 \<Rightarrow> i32 \<Rightarrow> u32 \<Rightarrow> ('s, unit) call"
  st_flock :: "string \<Rightarrow> u64 \<Rightarrow> u64 \<Rightarrow> i32 \<Rightarrow> u32 \<Rightarrow> ('s, unit) call"
  st_copy_file_range :: "string \<Rightarrow> string \<Rightarrow> u64 \<Rightarrow> u64 \<Rightarrow> i64 \<Rightarrow> i64 \<Rightarrow> u64 \<Rightarrow> FuseContext option \<Rightarrow> 's
    \<Rightarrow> ((i32 + u64) \<times> 's) option"
  st_fallocate :: "string \<Rightarrow> u64 \<Rightarrow> i64 \<Rightarrow> i64 \<Rightarrow> i32 \<Rightarrow> ('s, unit) call"
  st_lseek :: "string \<Rightarrow> u64 \<Rightarrow> i64 \<Rightarrow> i32 \<Rightarrow> ('s, i64) call"

record 's ServerStorage =
  st_namespace :: "'s NamespaceStorage"
  st_metadata :: "'s MetadataStorage"
  st_directories :: "'s DirectoryStorage"
  st_runtime :: "'s OpenedObjectStorage"

text \<open>
  A storage and an invariant of its state that every operation keeps: what the service
  needs to know of its storage.
\<close>

definition keeps_state :: "('s \<Rightarrow> bool) \<Rightarrow> ('s \<Rightarrow> 'r \<times> 's) \<Rightarrow> bool" where
  "keeps_state ok m \<longleftrightarrow> (\<forall>t. ok t \<longrightarrow> ok (snd (m t)))"

locale storage_invariant =
  fixes st :: "'s ServerStorage" and ok :: "'s \<Rightarrow> bool"
  assumes mkdir_keeps: "keeps_state ok (st_mkdir (st_namespace st) p mode ctx)"
    and unlink_keeps: "keeps_state ok (st_unlink (st_namespace st) p ctx)"
    and rmdir_keeps: "keeps_state ok (st_rmdir (st_namespace st) p ctx)"
    and rename_keeps: "keeps_state ok (st_rename (st_namespace st) p q ctx)"
    and create_file_keeps: "keeps_state ok (st_create_file (st_namespace st) p mode flags ctx)"
    and link_keeps: "keeps_state ok (st_link (st_namespace st) p q ctx)"
    and symlink_keeps: "keeps_state ok (st_symlink (st_namespace st) p target ctx)"
    and readlink_keeps: "keeps_state ok (st_readlink (st_metadata st) p)"
    and stat_keeps: "keeps_state ok (st_stat (st_metadata st) p)"
    and statfs_keeps: "keeps_state ok (st_statfs (st_metadata st))"
    and setattr_keeps: "keeps_state ok (st_setattr (st_metadata st) p new_mode uid gid len ctx)"
    and setxattr_keeps: "keeps_state ok (st_setxattr (st_metadata st) p name v flags)"
    and getxattr_keeps: "keeps_state ok (st_getxattr (st_metadata st) p name n)"
    and listxattr_keeps: "keeps_state ok (st_listxattr (st_metadata st) p)"
    and removexattr_keeps: "keeps_state ok (st_removexattr (st_metadata st) p name)"
    and list_dir_keeps: "keeps_state ok (st_list_dir (st_directories st) p)"
    and read_fh_keeps: "ok t \<Longrightarrow> st_read_fh (st_runtime st) p fh offset amount ctx t = Some (data, t') \<Longrightarrow> ok t'"
    and write_fh_keeps: "keeps_state ok (st_write_fh (st_runtime st) p fh offset bytes ctx)"
    and setattr_fh_keeps: "keeps_state ok (st_setattr_fh (st_runtime st) p fh new_mode uid gid len ctx)"
    and open_keeps: "keeps_state ok (st_open (st_runtime st) p kind flags ctx)"
    and release_fh_keeps: "ok t \<Longrightarrow> ok (st_release_fh (st_runtime st) fh t)"
    and sync_dir_fh_keeps: "keeps_state ok (st_sync_dir_fh (st_runtime st) p fh datasync)"
    and sync_file_fh_keeps: "keeps_state ok (st_sync_file_fh (st_runtime st) p fh datasync)"
    and release_posix_locks_keeps: "keeps_state ok (st_release_posix_locks (st_runtime st) p fh owner)"
    and getlk_keeps: "keeps_state ok (st_getlk (st_runtime st) p fh owner start stop ty)"
    and setlk_keeps: "keeps_state ok (st_setlk (st_runtime st) p fh owner start stop ty pid)"
    and flock_keeps: "keeps_state ok (st_flock (st_runtime st) p fh owner operation pid)"
    and copy_file_range_keeps: "ok t \<Longrightarrow> st_copy_file_range (st_runtime st) p q fh fh' offset offset' n' ctx t = Some (copied, t')
      \<Longrightarrow> ok t'"
    and fallocate_keeps: "keeps_state ok (st_fallocate (st_runtime st) p fh offset amount ty)"
    and lseek_keeps: "keeps_state ok (st_lseek (st_runtime st) p fh offset whence)"

definition passthrough_namespace :: "('f, 'w) host_fs \<Rightarrow> PassthroughFs \<Rightarrow> ('f, 'w) StorageRuntime NamespaceStorage" where
  "passthrough_namespace h fs =
    \<lparr>st_mkdir = pt_mkdir h fs, st_unlink = pt_unlink h fs, st_rmdir = pt_rmdir h fs, st_rename = pt_rename h fs,
     st_create_file = pt_create_file h fs, st_mknod = pt_mknod h fs, st_exists = pt_exists h fs, st_link = pt_link h fs,
     st_symlink = pt_symlink h fs\<rparr>"

definition passthrough_metadata :: "('f, 'w) host_fs \<Rightarrow> PassthroughFs \<Rightarrow> ('f, 'w) StorageRuntime MetadataStorage" where
  "passthrough_metadata h fs =
    \<lparr>st_readlink = pt_readlink h fs, st_stat = pt_stat h fs, st_statfs = pt_statfs h fs,
     st_setattr = pt_setattr h fs, st_setxattr = pt_setxattr h fs, st_getxattr = pt_getxattr h fs,
     st_listxattr = pt_listxattr h fs, st_removexattr = pt_removexattr h fs\<rparr>"

definition passthrough_runtime :: "('f, 'w) host_fs \<Rightarrow> PassthroughFs \<Rightarrow> ('f, 'w) StorageRuntime OpenedObjectStorage" where
  "passthrough_runtime h fs =
    \<lparr>st_read = pt_read h fs, st_read_fh = pt_read_fh h fs, st_write = pt_write h fs, st_write_fh = pt_write_fh h fs,
     st_setattr_fh = pt_setattr_fh h fs, st_open = pt_open h fs, st_release_fh = rt_release_handle,
     st_sync_dir_fh = pt_sync_dir_fh h fs, st_sync_file = pt_sync_file h fs, st_sync_file_fh = pt_sync_file_fh h fs,
     st_check_handle = pt_check_handle fs, st_release_posix_locks = pt_release_posix_locks h fs, st_getlk = pt_getlk h fs,
     st_setlk = pt_setlk h fs, st_flock = pt_flock h fs, st_copy_file_range = pt_copy_file_range h fs,
     st_fallocate = pt_fallocate h fs, st_lseek = pt_lseek h fs\<rparr>"

definition passthrough_storage :: "('f, 'w) host_fs \<Rightarrow> PassthroughFs \<Rightarrow> ('f, 'w) StorageRuntime ServerStorage" where
  "passthrough_storage h fs =
    \<lparr>st_namespace = passthrough_namespace h fs, st_metadata = passthrough_metadata h fs,
     st_directories = \<lparr>st_list_dir = pt_list_dir h fs\<rparr>, st_runtime = passthrough_runtime h fs\<rparr>"

section \<open>Every operation keeps the invariant of the runtime\<close>

abbreviation normal :: "string \<Rightarrow> string" where
  "normal p \<equiv> render_path (normal_names p)"

lemma with_path_eq: "with_path p f = f (normal p)"
  by (simp add: with_path_def normalize_path_eq)

lemma safe_helpers [safe_intro]:
  "(\<And>c. safe (f c)) \<Longrightarrow> safe (for_caller ctx f)"
  "safe (g (normal p)) \<Longrightarrow> safe (with_path p g)"
  "(\<And>object. safe (k object)) \<Longrightarrow> safe (on_object fs p k)"
  "safe (link_metadata h fs rel)" "safe m \<Longrightarrow> safe (check r m)" "safe m \<Longrightarrow> safe (after w m)" "safe (finish a)"
  "safe (sys_look look)"
  by (auto simp: for_caller_def with_path_eq on_object_def link_metadata_def check_def after_def finish_def sys_look_def
      intro!: safe_intro)

lemma safe_search_each: "(\<And>p. safe (f p)) \<Longrightarrow> safe (search_each f cur ws)"
  by (induction ws arbitrary: cur) (auto simp: Let_def intro!: safe_intro)

lemma safe_parent_search [safe_intro]: "(\<And>p. safe (f p)) \<Longrightarrow> safe (ensure_parent_search_allowed rel f)"
  unfolding ensure_parent_search_allowed_def by (intro safe_intro safe_search_each)

lemma safe_rewrite_normal [safe_intro]: "safe (rewrite_paths (normal p) (normal q))"
  by (rule safe_rewrite) (simp add: render_path_def)

lemma passthrough_safe:
  "safe (pt_mkdir h fs p mode ctx)" "safe (pt_unlink h fs p ctx)" "safe (pt_rmdir h fs p ctx)"
  "safe (pt_rename h fs p q ctx)" "safe (pt_create_file h fs p mode flags ctx)" "safe (pt_mknod h fs p mode ctx)"
  "safe (pt_exists h fs p)" "safe (pt_link h fs p q ctx)" "safe (pt_symlink h fs p target ctx)"
  "safe (pt_readlink h fs p)" "safe (pt_stat h fs p)" "safe (pt_statfs h fs)" "safe (pt_setattr h fs p mode' uid gid n ctx)"
  "safe (pt_setxattr h fs p name v flags)" "safe (pt_getxattr h fs p name k)" "safe (pt_listxattr h fs p)"
  "safe (pt_removexattr h fs p name)" "safe (pt_list_dir h fs p)"
  "safe (pt_write h fs p offset data ctx)" "safe (pt_write_fh h fs p fh offset data ctx)"
  "safe (pt_setattr_fh h fs p fh mode' uid gid n ctx)" "safe (pt_open h fs p kind flags ctx)"
  "safe (pt_sync_dir_fh h fs p fh datasync)" "safe (pt_sync_file h fs p datasync)" "safe (pt_sync_file_fh h fs p fh datasync)"
  "safe (pt_check_handle fs p fh' kind)" "safe (pt_release_posix_locks h fs p fh owner)"
  "safe (pt_getlk h fs p fh owner start stop ty)" "safe (pt_setlk h fs p fh owner start stop ty pid)"
  "safe (pt_flock h fs p fh owner operation pid)" "safe (pt_fallocate h fs p fh offset len ty)"
  "safe (pt_lseek h fs p fh offset whence)"
  unfolding pt_mkdir_def pt_unlink_def pt_rmdir_def pt_rename_def pt_create_file_def pt_mknod_def pt_exists_def pt_link_def
    pt_symlink_def pt_readlink_def pt_stat_def pt_statfs_def pt_setattr_def pt_setxattr_def pt_getxattr_def pt_listxattr_def
    pt_removexattr_def pt_list_dir_def with_xattr_def pt_write_def pt_write_fh_def pt_setattr_fh_def pt_open_def
    pt_sync_dir_fh_def pt_sync_file_def pt_sync_file_fh_def pt_check_handle_def pt_release_posix_locks_def pt_getlk_def
    pt_setlk_def pt_flock_def pt_fallocate_def pt_lseek_def Let_def
  by (intro safe_intro)+

lemma passthrough_loops_safe:
  assumes "runtime_ok s"
  shows "pt_read_fh h fs p fh offset n ctx s = Some (r, s') \<Longrightarrow> runtime_ok s'"
    "pt_copy_file_range h fs p q fh fh' offset offset' k ctx s = Some (r', s') \<Longrightarrow> runtime_ok s'"
proof -
  have give: "then_loop (srv_give x) f s = Some (y, s') \<Longrightarrow> (\<And>a. f a s = Some (y, s') \<Longrightarrow> runtime_ok s') \<Longrightarrow> runtime_ok s'" for x f y
    using assms by (cases x) (auto simp: then_loop_def)
  show "pt_read_fh h fs p fh offset n ctx s = Some (r, s') \<Longrightarrow> runtime_ok s'"
    unfolding pt_read_fh_def by (elim give) (use assms rt_step_ok rt_step.step_read in blast)
  show "pt_copy_file_range h fs p q fh fh' offset offset' k ctx s = Some (r', s') \<Longrightarrow> runtime_ok s'"
    unfolding pt_copy_file_range_def by (elim give) (use assms rt_step_ok rt_step.step_copy in blast)
qed

lemma safe_keeps: "safe m \<Longrightarrow> keeps_state runtime_ok m"
  by (simp add: keeps_state_def safeD)

lemmas passthrough_keeps = passthrough_safe [THEN safe_keeps]

lemmas passthrough_fields = passthrough_storage_def passthrough_namespace_def passthrough_metadata_def passthrough_runtime_def

interpretation pt: storage_invariant "passthrough_storage h fs" runtime_ok for h fs
  by unfold_locales
    (simp_all add: passthrough_fields passthrough_keeps release_safe, (erule (1) passthrough_loops_safe)+)

end
