(* ===== verification/PassthroughConfinement.thy ===== *)
theory PassthroughConfinement
  imports Passthrough
begin

text \<open>
  The passthrough storage stays inside its root: it behaves in the same way on a host that
  refuses every path that is not the root or below it. The proof follows every path the
  storage hands to the host. A rename to the root, and the creation of a file or a symbolic
  link at the root, are set apart: before they fail these calls ask the host to create the
  directory that holds the root. No valid request of the protocol makes one of them.
  Symbolic links that the host follows are not paths of the storage and not in the scope of
  this theory.
\<close>

section \<open>Paths below a root\<close>

fun is_normal :: "Component \<Rightarrow> bool" where
  "is_normal (Normal w) = True"
| "is_normal c = False"

definition under :: "string \<Rightarrow> string \<Rightarrow> bool" where
  "under root p \<longleftrightarrow>
    take (length (components root)) (components p) = components root
    \<and> list_all is_normal (drop (length (components root)) (components p))"

lemma underI: "components p = components root @ map Normal ws \<Longrightarrow> under root p"
  by (simp add: under_def list_all_iff)

definition guarded :: "string \<Rightarrow> (string \<Rightarrow> 'w \<Rightarrow> 'e + 'a) \<Rightarrow> 'e \<Rightarrow> string \<Rightarrow> 'w \<Rightarrow> 'e + 'a" where
  "guarded root f e p w = (if under root p then f p w else Inl e)"

definition guarded_do :: "(string \<Rightarrow> bool) \<Rightarrow> (string \<Rightarrow> 'w \<Rightarrow> ('e + 'a) \<times> 'w) \<Rightarrow> 'e \<Rightarrow> string \<Rightarrow> 'w \<Rightarrow> ('e + 'a) \<times> 'w" where
  "guarded_do ok f e p w = (if ok p then f p w else (Inl e, w))"

text \<open>
  A host that refuses paths outside a root.
\<close>

definition confine :: "string \<Rightarrow> ('f, 'w) host_fs \<Rightarrow> ('f, 'w) host_fs" where
  "confine root h = h
    \<lparr>h_symlink_metadata := guarded root (h_symlink_metadata h) Custom,
     h_metadata := guarded root (h_metadata h) Custom,
     h_read_dir := guarded root (h_read_dir h) Custom,
     h_read_link := guarded root (h_read_link h) Custom,
     h_statvfs := guarded root (h_statvfs h) EIO,
     h_getxattr_len := (\<lambda>p name. guarded root (\<lambda>p. h_getxattr_len h p name) EIO p),
     h_getxattr := (\<lambda>p name n. guarded root (\<lambda>p. h_getxattr h p name n) EIO p),
     h_listxattr_len := guarded root (h_listxattr_len h) EIO,
     h_listxattr := (\<lambda>p n. guarded root (\<lambda>p. h_listxattr h p n) EIO p),
     h_open := (\<lambda>options. guarded_do (under root) (h_open h options) Custom),
     h_create_dir := guarded_do (under root) (h_create_dir h) Custom,
     h_create_dir_all := guarded_do (under root) (h_create_dir_all h) Custom,
     h_remove_file := guarded_do (under root) (h_remove_file h) Custom,
     h_remove_dir := guarded_do (under root) (h_remove_dir h) Custom,
     h_rename := (\<lambda>p q. guarded_do (\<lambda>p. under root p \<and> under root q) (\<lambda>p. h_rename h p q) Custom p),
     h_hard_link := (\<lambda>p q. guarded_do (\<lambda>p. under root p \<and> under root q) (\<lambda>p. h_hard_link h p q) Custom p),
     h_symlink := (\<lambda>target. guarded_do (under root) (h_symlink h target) Custom),
     h_set_permissions := (\<lambda>p mode. guarded_do (under root) (\<lambda>p. h_set_permissions h p mode) Custom p),
     h_chown := (\<lambda>p uid gid. guarded_do (under root) (\<lambda>p. h_chown h p uid gid) EIO p),
     h_lchown := (\<lambda>p uid gid. guarded_do (under root) (\<lambda>p. h_lchown h p uid gid) EIO p),
     h_mknod := (\<lambda>p mode. guarded_do (under root) (\<lambda>p. h_mknod h p mode) EIO p),
     h_setxattr := (\<lambda>p name v flags. guarded_do (under root) (\<lambda>p. h_setxattr h p name v flags) EIO p),
     h_removexattr := (\<lambda>p name. guarded_do (under root) (\<lambda>p. h_removexattr h p name) EIO p)\<rparr>"

lemma confine_allows:
  assumes "under root p"
  shows "h_symlink_metadata (confine root h) p = h_symlink_metadata h p"
    "h_metadata (confine root h) p = h_metadata h p"
    "h_read_dir (confine root h) p = h_read_dir h p"
    "h_read_link (confine root h) p = h_read_link h p"
    "h_statvfs (confine root h) p = h_statvfs h p"
    "h_getxattr_len (confine root h) p = h_getxattr_len h p"
    "h_getxattr (confine root h) p = h_getxattr h p"
    "h_listxattr_len (confine root h) p = h_listxattr_len h p"
    "h_listxattr (confine root h) p = h_listxattr h p"
    "h_open (confine root h) options p = h_open h options p"
    "h_create_dir (confine root h) p = h_create_dir h p"
    "h_remove_file (confine root h) p = h_remove_file h p"
    "h_remove_dir (confine root h) p = h_remove_dir h p"
    "under root q \<Longrightarrow> h_rename (confine root h) p q = h_rename h p q"
    "under root q \<Longrightarrow> h_hard_link (confine root h) p q = h_hard_link h p q"
    "h_symlink (confine root h) target p = h_symlink h target p"
    "h_set_permissions (confine root h) p = h_set_permissions h p"
    "h_chown (confine root h) p = h_chown h p"
    "h_lchown (confine root h) p = h_lchown h p"
    "h_mknod (confine root h) p = h_mknod h p"
    "h_setxattr (confine root h) p = h_setxattr h p"
    "h_removexattr (confine root h) p = h_removexattr h p"
    "h_create_dir_all (confine root h) p = h_create_dir_all h p"
  using assms by (simp_all add: confine_def guarded_def guarded_do_def fun_eq_iff)

lemma confine_files [simp]:
  "h_lossy (confine root h) = h_lossy h" "hf_metadata (confine root h) = hf_metadata h" "hf_try_clone (confine root h) = hf_try_clone h"
  "hf_seek (confine root h) = hf_seek h" "hf_read (confine root h) = hf_read h" "hf_write (confine root h) = hf_write h"
  "hf_read_at (confine root h) = hf_read_at h" "hf_write_at (confine root h) = hf_write_at h"
  "hf_sync_all (confine root h) = hf_sync_all h" "hf_sync_data (confine root h) = hf_sync_data h"
  "hf_set_len (confine root h) = hf_set_len h" "hf_fchmod (confine root h) = hf_fchmod h"
  "hf_fchown (confine root h) = hf_fchown h" "hf_posix_fallocate (confine root h) = hf_posix_fallocate h"
  by (simp_all add: confine_def)

section \<open>Loops that only use open files\<close>

lemma read_loop_same:
  assumes "read_loop h file n k got w = Some r"
  shows "hf_read h' = hf_read h \<longrightarrow> read_loop h' file n k got w = Some r"
  by (rule read_loop.raw_induct [OF _ assms], rule impI, subst read_loop.simps)
    (auto split: if_splits prod.splits sum.splits)

lemma write_loop_same:
  assumes "write_loop h file base buf k w = Some r"
  shows "hf_write_at h' = hf_write_at h \<longrightarrow> write_loop h' file base buf k w = Some r"
  by (rule write_loop.raw_induct [OF _ assms], rule impI, subst write_loop.simps)
    (auto split: if_splits prod.splits sum.splits option.splits)

lemma loop_eqI:
  assumes "\<And>r. f = Some r \<Longrightarrow> g = Some r" "\<And>r. g = Some r \<Longrightarrow> f = Some r"
  shows "f = g"
  using assms by (cases f; cases g) auto

lemma confine_read_loop: "read_loop (confine root h) = read_loop h"
  by (intro ext, rule loop_eqI) (erule read_loop_same [THEN mp], simp)+

lemma confine_write_loop: "write_loop (confine root h) = write_loop h"
  by (intro ext, rule loop_eqI) (erule write_loop_same [THEN mp], simp)+

lemma copy_loop_same:
  assumes "copy_loop h f g a b len n k w = Some r"
  shows "hf_read_at h' = hf_read_at h \<and> write_loop h' = write_loop h \<longrightarrow> copy_loop h' f g a b len n k w = Some r"
  by (rule copy_loop.raw_induct [OF _ assms], rule impI, subst copy_loop.simps)
    (auto split: if_splits prod.splits sum.splits option.splits bind_splits)

lemma confine_copy_loop: "copy_loop (confine root h) = copy_loop h"
  by (intro ext, rule loop_eqI) (erule copy_loop_same [THEN mp], simp add: confine_write_loop)+

text \<open>Operations on open files, and those that open a file below the root.\<close>

lemma confine_byte_io [simp]:
  "read_file_at (confine root h) = read_file_at h" "write_file_at (confine root h) = write_file_at h"
  "apply_handle_setattr (confine root h) = apply_handle_setattr h"
  "apply_mode_zero_fallocate (confine root h) = apply_mode_zero_fallocate h"
  "reject_overlapping_same_file_copy (confine root h) = reject_overlapping_same_file_copy h"
  unfolding fun_eq_iff read_file_at_def write_file_at_def apply_handle_setattr_def apply_mode_zero_fallocate_def
    reject_overlapping_same_file_copy_def confine_files confine_read_loop
  by (rule allI refl)+

lemma confine_copy [simp]: "copy_file_range_at (confine root h) = copy_file_range_at h"
  unfolding fun_eq_iff copy_file_range_at_def confine_byte_io confine_copy_loop by (rule allI refl)+

lemma confine_handles [simp]:
  "clone_file_handle_with_policy_from_state (confine root h) = clone_file_handle_with_policy_from_state h"
  "rt_lock_key (confine root h) = rt_lock_key h"
  "sync_handle_from_state (confine root h) = sync_handle_from_state h"
  unfolding fun_eq_iff clone_file_handle_with_policy_from_state_def rt_lock_key_def sync_handle_from_state_def confine_files
  by (rule allI refl)+

lemma confine_clone [simp]:
  "clone_file_handle_from_state (confine root h) = clone_file_handle_from_state h"
  "clone_file_handle_with_policy (confine root h) = clone_file_handle_with_policy h"
  "clone_file_handle (confine root h) = clone_file_handle h"
  unfolding fun_eq_iff clone_file_handle_from_state_def clone_file_handle_with_policy_def clone_file_handle_def confine_handles
  by (rule allI refl)+

lemma confine_opened [simp]:
  "register_file_handle (confine root h) = register_file_handle h"
  "rt_read_fh (confine root h) = rt_read_fh h"
  "rt_write_fh (confine root h) = rt_write_fh h"
  "rt_setattr_fh (confine root h) = rt_setattr_fh h"
  "rt_sync_file_fh (confine root h) = rt_sync_file_fh h"
  "rt_sync_dir_fh (confine root h) = rt_sync_dir_fh h"
  "rt_copy_file_range (confine root h) = rt_copy_file_range h"
  "rt_fallocate (confine root h) = rt_fallocate h"
  "rt_lseek (confine root h) = rt_lseek h"
  "rt_release_posix_locks (confine root h) = rt_release_posix_locks h"
  "rt_getlk (confine root h) = rt_getlk h"
  "rt_setlk (confine root h) = rt_setlk h"
  "rt_flock (confine root h) = rt_flock h"
  unfolding fun_eq_iff register_file_handle_def rt_read_fh_def rt_write_fh_def rt_setattr_fh_def rt_sync_file_fh_def
    rt_sync_dir_fh_def rt_copy_file_range_def rt_fallocate_def rt_lseek_def rt_release_posix_locks_def rt_getlk_def
    rt_setlk_def rt_flock_def confine_files confine_byte_io confine_copy confine_handles confine_clone
  by (rule allI refl)+

lemma confine_paths:
  assumes "under root (ro_host_path object)"
  shows "open_existing (confine root h) object = open_existing h object"
    "rt_read_path (confine root h) object = rt_read_path h object"
    "rt_write_path (confine root h) object = rt_write_path h object"
  unfolding fun_eq_iff open_existing_def rt_read_path_def rt_write_path_def confine_allows [OF assms] confine_files confine_byte_io
  by (rule allI refl)+

section \<open>The paths of the storage\<close>

lemma trim_pieces_named: "named_components (trim_pieces ws) = named_components ws"
proof -
  have "named_components (rev (dropWhile (\<lambda>w. w = [] \<or> w = ''.'') vs)) = named_components (rev vs)" for vs
    by (induction vs) (auto simp: named_components_def)
  from this [of "rev ws"] show ?thesis by (simp add: trim_pieces_def)
qed

lemma trim_pieces_set: "w \<in> set (trim_pieces ws) \<Longrightarrow> w \<in> set ws"
  by (auto simp: trim_pieces_def dest: set_dropWhileD)

lemma trim_pieces_append: "\<forall>w \<in> set ws. plain_name w \<Longrightarrow> ws \<noteq> [] \<Longrightarrow> trim_pieces (vs @ ws) = vs @ ws"
  by (cases ws rule: rev_cases) (auto simp: trim_pieces_def plain_name_def)

text \<open>The pieces of a nonempty root, without the empty one after a separator at its end.\<close>

definition root_pieces :: "string \<Rightarrow> string list" where
  "root_pieces root = split_char slash (if last root = slash then butlast root else root)"

lemma starts_hd: "p \<noteq> [] \<Longrightarrow> starts_with_char slash p \<longleftrightarrow> hd (split_char slash p) = []"
  by (cases p) (auto split: list.splits)

lemma root_pieces_facts:
  assumes "root \<noteq> []"
  shows "root_pieces root \<noteq> []" "\<forall>w \<in> set (root_pieces root). slash \<notin> set w"
    "components root = (if hd (root_pieces root) = [] then [RootDir]
      else if hd (root_pieces root) = ''.'' then [CurDir] else []) @ named_components (root_pieces root)"
proof -
  show "root_pieces root \<noteq> []" "\<forall>w \<in> set (root_pieces root). slash \<notin> set w"
    using split_char_pieces by (auto simp: root_pieces_def)
  show "components root = (if hd (root_pieces root) = [] then [RootDir]
      else if hd (root_pieces root) = ''.'' then [CurDir] else []) @ named_components (root_pieces root)"
  proof (cases "last root = slash")
    case True
    then obtain u where u: "root = u @ [slash]" using assms by (metis append_butlast_last_id)
    have "split_char slash root = split_char slash u @ [[]]" using split_char_append [of slash u "[]"] u by simp
    moreover have "named_components [[]] = []" by (simp add: named_components_def)
    ultimately show ?thesis
      using u starts_hd [OF assms]
      by (simp add: root_pieces_def components_def named_components_append hd_append Let_def)
  next
    case False
    then show ?thesis using starts_hd [OF assms] by (simp add: root_pieces_def components_def Let_def)
  qed
qed

lemma split_resolved:
  assumes "root \<noteq> []" "\<forall>w \<in> set ws. plain_name w"
  shows "split_char slash (path_join root (join_char slash ws)) = root_pieces root @ (if ws = [] then [[]] else ws)"
proof -
  have abs: "\<not> starts_with_char slash (join_char slash ws)"
  proof (cases ws)
    case (Cons w ws')
    with assms(2) obtain x w' where "w = x # w'" "x \<noteq> slash" by (cases w) (auto simp: plain_name_def)
    with Cons show ?thesis by (cases ws') auto
  qed simp
  have t: "split_char slash (join_char slash ws) = (if ws = [] then [[]] else ws)"
    using assms(2) by (auto simp: plain_name_def split_join_char)
  show ?thesis
  proof (cases "last root = slash")
    case True
    then have "root @ join_char slash ws = butlast root @ slash # join_char slash ws"
      using assms(1) by (metis append.assoc append_Cons append_Nil append_butlast_last_id)
    then have "path_join root (join_char slash ws) = butlast root @ slash # join_char slash ws"
      using True abs by (simp only: path_join_def) simp
    then have "split_char slash (path_join root (join_char slash ws)) = split_char slash (butlast root) @ (if ws = [] then [[]] else ws)"
      by (simp only: split_char_append t)
    then show ?thesis using True by (simp only: root_pieces_def simp_thms if_True)
  next
    case False
    then show ?thesis using abs t assms(1) by (simp add: path_join_def root_pieces_def split_char_append)
  qed
qed

lemma parent_under:
  assumes "root \<noteq> []" "\<forall>w \<in> set ws. plain_name w" "ws \<noteq> []"
    "path_parent (path_join root (join_char slash ws)) = Some q"
  shows "under root q"
proof -
  let ?P = "root_pieces root"
  let ?rest = "trim_pieces (tl ?P @ butlast ws)"
  note P = root_pieces_facts [OF assms(1)]
  have "butlast (tl ?P @ ws) = tl ?P @ butlast ws" using assms(3) by (simp add: butlast_append)
  then have q: "q = (if hd ?P = [] then if ?rest = [] then ''/'' else slash # join_char slash ?rest
      else join_char slash (hd ?P # ?rest))"
    using assms(3,4) P(1) by (auto simp: path_parent_def split_resolved [OF assms(1,2)] Let_def
        trim_pieces_append [OF assms(2,3)] split: if_splits)
  have no: "slash \<notin> set w" if "w \<in> set ?rest" for w
    using that P(2) assms(2) by (auto simp: plain_name_def dest!: trim_pieces_set in_set_butlastD list.set_sel(2) [OF P(1)])
  have hd: "slash \<notin> set (hd ?P)" using P(1,2) by simp
  have named: "named_components (hd ?P # ?rest) = named_components ?P @ map Normal (butlast ws)"
  proof -
    have "named_components (hd ?P # ?rest) = named_components ([hd ?P] @ ?rest)" by simp
    also have "\<dots> = named_components [hd ?P] @ named_components (tl ?P) @ named_components (butlast ws)"
      by (simp only: named_components_append trim_pieces_named)
    also have "named_components (butlast ws) = map Normal (butlast ws)"
      using assms(2) by (intro plain_names_components) (auto dest: in_set_butlastD)
    also have "named_components [hd ?P] @ named_components (tl ?P) @ map Normal (butlast ws)
        = named_components ?P @ map Normal (butlast ws)"
      using P(1) named_components_append [of "[hd ?P]" "tl ?P"] by simp
    finally show ?thesis .
  qed
  have "components q = components root @ map Normal (butlast ws)"
  proof (cases "hd ?P = []")
    case True
    have s: "split_char slash q = [] # (if ?rest = [] then [[]] else ?rest)"
      using q True no by (simp add: split_join_char)
    have "named_components (split_char slash q) = named_components (hd ?P # ?rest)"
      using True s by (auto simp: named_components_def)
    moreover have "starts_with_char slash q" using q True by auto
    ultimately show ?thesis using True P(3) named by (simp add: components_def)
  next
    case False
    have s: "split_char slash q = hd ?P # ?rest"
      using q False no hd by (simp only: if_False) (subst split_join_char, auto)
    have "q \<noteq> []" using s False by auto
    with s False starts_hd [of q] have "\<not> starts_with_char slash q" by simp
    then show ?thesis using False P(3) named s by (simp add: components_def)
  qed
  then show ?thesis by (rule underI)
qed

lemma with_cstring_eq:
  "srv_bind (srv_give (path_to_cstring p)) f = (if contains_nul p then srv_give (Err EIO) else f p)"
  by (simp add: path_to_cstring_def)

lemma components_resolved:
  assumes "pf_root fs \<noteq> []" "\<forall>w \<in> set ws. plain_name w"
  shows "components (resolve_path fs (render_path ws)) = components (pf_root fs) @ map Normal ws"
  using components_join [OF assms] strip_root_render [OF assms(2)] by (simp add: resolve_path_def)

lemma under_resolved:
  "pf_root fs \<noteq> [] \<Longrightarrow> \<forall>w \<in> set ws. plain_name w \<Longrightarrow> under (pf_root fs) (resolve_path fs (render_path ws))"
  by (rule underI, rule components_resolved)

lemma under_normal: "pf_root fs \<noteq> [] \<Longrightarrow> under (pf_root fs) (resolve_path fs (normal p))"
  by (simp add: under_resolved normal_names_plain)

lemma under_parent: "pf_root fs \<noteq> [] \<Longrightarrow> under (pf_root fs) (resolve_path fs (parent_rel (normal p)))"
  using normal_names_plain [of _ p]
  by (subst parent_rel_render) (auto intro!: under_resolved dest: in_set_butlastD)

lemma under_root: "under root root"
  by (rule underI [of _ _ "[]"]) simp

lemma under_child:
  assumes "pf_root fs \<noteq> []" "plain_name w"
  shows "under (pf_root fs) (path_join (resolve_path fs (normal p)) w)"
proof -
  have ws: "\<forall>v \<in> set (normal_names p). plain_name v" using normal_names_plain by blast
  have "resolve_path fs (normal p) \<noteq> []"
    using assms(1) by (auto simp: resolve_path_def path_join_def starts_with_char_iff)
  from components_join [OF this, of "[w]"] assms(2)
  have "components (path_join (resolve_path fs (normal p)) w)
      = components (pf_root fs) @ map Normal (normal_names p @ [w])"
    by (simp add: components_resolved [OF assms(1) ws])
  then show ?thesis by (rule underI)
qed

lemma confine_create_parent:
  assumes "pf_root fs \<noteq> []" "normal p \<noteq> ''/''"
  shows "create_parent (confine (pf_root fs) h) (resolve_path fs (normal p)) = create_parent h (resolve_path fs (normal p))"
proof (cases "path_parent (resolve_path fs (normal p))")
  case (Some q)
  have ws: "\<forall>v \<in> set (normal_names p). plain_name v" using normal_names_plain by blast
  have "normal_names p \<noteq> []" using assms(2) by (auto simp: render_path_def)
  then have "under (pf_root fs) q"
    using Some [unfolded resolve_path_def strip_root_render [OF ws]] parent_under [OF assms(1) ws, of q] by simp
  then show ?thesis using Some by (simp add: create_parent_def confine_allows(23))
qed (simp add: create_parent_def)

lemma append_rel_render:
  assumes "\<forall>v \<in> set us. plain_name v"
  shows "append_rel (render_path us) w = render_path (us @ [w])"
proof (cases "us = []")
  case True
  then show ?thesis by (simp add: append_rel_def render_path_def)
next
  case False
  then have ne: "render_path us \<noteq> ''/''" "trim_end_char slash (render_path us) = render_path us"
    using last_join_plain [OF assms False] by (auto simp: render_path_def intro!: trim_end_plain)
  show ?thesis using ne False render_path_append [OF False, of "[w]"] by (simp add: append_rel_def) (simp add: render_path_def)
qed

lemma search_each_same:
  assumes "\<And>vs. \<forall>v \<in> set vs. plain_name v \<Longrightarrow> f (render_path vs) = g (render_path vs)"
    "\<forall>v \<in> set us. plain_name v" "\<forall>v \<in> set ws. plain_name v"
  shows "search_each f (render_path us) ws = search_each g (render_path us) ws"
  using assms(2,3)
proof (induction ws arbitrary: us)
  case (Cons w ws)
  then show ?case
    using Cons.IH [of "us @ [w]"] assms(1) [of "us @ [w]"] by (simp add: append_rel_render)
qed simp

text \<open>The walk to a normalized path goes through the directories above it.\<close>

lemma ensure_parent_search_names:
  "ensure_parent_search_allowed (normal p) f =
    srv_bind (f (render_path [])) (\<lambda>_. search_each f (render_path []) (butlast (normal_names p)))"
proof -
  have ws: "\<forall>v \<in> set (normal_names p). plain_name v" using normal_names_plain by blast
  then have b: "\<forall>v \<in> set (butlast (normal_names p)). plain_name v" by (auto dest: in_set_butlastD)
  have "split_char slash (strip_root (parent_rel (normal p))) = (if butlast (normal_names p) = [] then [[]] else butlast (normal_names p))"
    using b by (auto simp: parent_rel_render [OF ws] strip_root_render [OF b] plain_name_def split_join_char)
  moreover have "filter (\<lambda>w. w \<noteq> []) (if ws = [] then [[]] else ws) = ws" if "\<forall>v \<in> set ws. plain_name v" for ws :: "string list"
    using that by (auto simp: plain_name_def)
  ultimately have "filter (\<lambda>w. w \<noteq> []) (split_char slash (strip_root (parent_rel (normal p)))) = butlast (normal_names p)"
    using b by simp
  then show ?thesis by (simp add: ensure_parent_search_allowed_def render_path_def)
qed

lemma ensure_parent_search_same:
  assumes "\<And>vs. \<forall>v \<in> set vs. plain_name v \<Longrightarrow> f (render_path vs) = g (render_path vs)"
  shows "ensure_parent_search_allowed (normal p) f = ensure_parent_search_allowed (normal p) g"
proof -
  have "\<forall>v \<in> set (butlast (normal_names p)). plain_name v" using normal_names_plain [of _ p] by (auto dest: in_set_butlastD)
  then show ?thesis
    unfolding ensure_parent_search_names
    using search_each_same [where f = f and g = g, OF assms, of "[]" "butlast (normal_names p)"] assms [of "[]"] by simp
qed

text \<open>The names in a directory of the host are single names.\<close>

definition plain_dir_names :: "('f, 'w) host_fs \<Rightarrow> bool" where
  "plain_dir_names h \<longleftrightarrow>
    (\<forall>p w entries name. h_read_dir h p w = Inr entries \<longrightarrow> Inr name \<in> set entries \<longrightarrow> plain_name name)"

lemma list_entries_same:
  assumes "pf_root fs \<noteq> []" "\<And>name. Inr name \<in> set entries \<Longrightarrow> plain_name name"
  shows "list_entries (confine (pf_root fs) h) (resolve_path fs (normal p)) entries
    = list_entries h (resolve_path fs (normal p)) entries"
  using assms(2)
proof (induction entries)
  case (Cons e entries)
  then show ?case
    by (cases e) (simp_all add: confine_allows(1) [OF under_child [OF assms(1)]])
qed simp

section \<open>Every operation\<close>

lemma confine_helpers:
  assumes "under root p"
  shows "dir_is_empty (confine root h) p = dir_is_empty h p"
    "apply_ownership (confine root h) p = apply_ownership h p"
    "remove_destination (confine root h) p = remove_destination h p"
  unfolding fun_eq_iff dir_is_empty_def apply_ownership_def remove_destination_def with_cstring_eq confine_allows [OF assms]
  by (rule allI refl)+

lemma confine_link_metadata:
  assumes "pf_root fs \<noteq> []"
  shows "link_metadata (confine (pf_root fs) h) fs (normal p) = link_metadata h fs (normal p)"
    "link_metadata (confine (pf_root fs) h) fs (parent_rel (normal p)) = link_metadata h fs (parent_rel (normal p))"
  unfolding link_metadata_def confine_allows [OF under_normal [OF assms]] confine_allows [OF under_parent [OF assms]]
  by (rule refl)+

lemma host_path_object: "ro_host_path (resolved_object fs rel) = resolve_path fs rel"
  by (simp add: resolved_object_def ResolvedStorageObject_new_def)

lemma under_object: "pf_root fs \<noteq> [] \<Longrightarrow> under (pf_root fs) (ro_host_path (resolved_object fs (normal p)))"
  by (simp add: host_path_object under_normal)

lemma confine_names:
  assumes "pf_root fs \<noteq> []"
  shows "pt_mkdir (confine (pf_root fs) h) fs = pt_mkdir h fs" "pt_unlink (confine (pf_root fs) h) fs = pt_unlink h fs"
    "pt_rmdir (confine (pf_root fs) h) fs = pt_rmdir h fs" "pt_mknod (confine (pf_root fs) h) fs = pt_mknod h fs"
    "pt_exists (confine (pf_root fs) h) fs = pt_exists h fs" "pt_link (confine (pf_root fs) h) fs = pt_link h fs"
proof -
  note u = under_normal [OF assms]
  note rules = confine_allows [OF u] confine_allows(15) [OF u u] confine_helpers [OF u] confine_link_metadata [OF assms]
  have link: "ensure_parent_search_allowed (normal p) (\<lambda>rel.
      srv_bind (on_host (io_look (h_metadata (confine (pf_root fs) h) (resolve_path fs rel)))) (\<lambda>meta.
      srv_give (ensure_search_allowed meta uid gid)))
    = ensure_parent_search_allowed (normal p) (\<lambda>rel.
      srv_bind (on_host (io_look (h_metadata h (resolve_path fs rel)))) (\<lambda>meta.
      srv_give (ensure_search_allowed meta uid gid)))" for p uid gid
    by (rule ensure_parent_search_same) (simp add: confine_allows(2) [OF under_resolved [OF assms]])
  show "pt_mkdir (confine (pf_root fs) h) fs = pt_mkdir h fs" "pt_unlink (confine (pf_root fs) h) fs = pt_unlink h fs"
    "pt_rmdir (confine (pf_root fs) h) fs = pt_rmdir h fs" "pt_mknod (confine (pf_root fs) h) fs = pt_mknod h fs"
    "pt_exists (confine (pf_root fs) h) fs = pt_exists h fs" "pt_link (confine (pf_root fs) h) fs = pt_link h fs"
    unfolding fun_eq_iff pt_mkdir_def pt_unlink_def pt_rmdir_def pt_mknod_def pt_exists_def pt_link_def
      with_path_eq with_cstring_eq Let_def rules link
    by (rule allI refl)+
qed

text \<open>The operations that create the directory a name is to be in, away from the root.\<close>

lemma confine_parents:
  assumes "pf_root fs \<noteq> []" "normal p \<noteq> ''/''"
  shows "pt_rename (confine (pf_root fs) h) fs q p = pt_rename h fs q p"
    "pt_create_file (confine (pf_root fs) h) fs p = pt_create_file h fs p"
    "pt_symlink (confine (pf_root fs) h) fs p = pt_symlink h fs p"
proof -
  note u = under_normal [OF assms(1)]
  note rules = confine_allows [OF u] confine_allows(14) [OF u u] confine_helpers [OF u] confine_link_metadata [OF assms(1)]
    confine_create_parent [OF assms] confine_files confine_opened
  show "pt_rename (confine (pf_root fs) h) fs q p = pt_rename h fs q p"
    "pt_create_file (confine (pf_root fs) h) fs p = pt_create_file h fs p"
    "pt_symlink (confine (pf_root fs) h) fs p = pt_symlink h fs p"
    unfolding fun_eq_iff pt_rename_def pt_create_file_def pt_symlink_def with_path_eq Let_def rules
    by (rule allI refl)+
qed

lemma confine_metadata:
  assumes "pf_root fs \<noteq> []"
  shows "passthrough_metadata (confine (pf_root fs) h) fs = passthrough_metadata h fs"
proof -
  note u = under_normal [OF assms]
  have "pt_readlink (confine (pf_root fs) h) fs = pt_readlink h fs" "pt_stat (confine (pf_root fs) h) fs = pt_stat h fs"
    "pt_statfs (confine (pf_root fs) h) fs = pt_statfs h fs" "pt_setattr (confine (pf_root fs) h) fs = pt_setattr h fs"
    "pt_setxattr (confine (pf_root fs) h) fs = pt_setxattr h fs" "pt_getxattr (confine (pf_root fs) h) fs = pt_getxattr h fs"
    "pt_listxattr (confine (pf_root fs) h) fs = pt_listxattr h fs" "pt_removexattr (confine (pf_root fs) h) fs = pt_removexattr h fs"
    unfolding fun_eq_iff pt_readlink_def pt_stat_def pt_statfs_def pt_setattr_def pt_setxattr_def pt_getxattr_def
      pt_listxattr_def pt_removexattr_def with_xattr_def with_path_eq with_cstring_eq Let_def
      confine_allows [OF u] confine_allows [OF under_root] confine_link_metadata [OF assms] confine_files
    by (rule allI refl)+
  then show ?thesis by (simp add: passthrough_metadata_def)
qed

lemma confine_runtime:
  assumes "pf_root fs \<noteq> []"
  shows "passthrough_runtime (confine (pf_root fs) h) fs = passthrough_runtime h fs"
proof -
  have loop: "then_loop (srv_give (normalize_path p)) f = f (normal p)" for p f
    by (simp add: then_loop_def normalize_path_eq fun_eq_iff)
  note rules = confine_paths [OF under_object [OF assms]] confine_opened confine_allows [OF under_normal [OF assms]] confine_files
  have "pt_read (confine (pf_root fs) h) fs = pt_read h fs" "pt_read_fh (confine (pf_root fs) h) fs = pt_read_fh h fs"
    "pt_write (confine (pf_root fs) h) fs = pt_write h fs" "pt_write_fh (confine (pf_root fs) h) fs = pt_write_fh h fs"
    "pt_setattr_fh (confine (pf_root fs) h) fs = pt_setattr_fh h fs" "pt_open (confine (pf_root fs) h) fs = pt_open h fs"
    "pt_sync_dir_fh (confine (pf_root fs) h) fs = pt_sync_dir_fh h fs" "pt_sync_file (confine (pf_root fs) h) fs = pt_sync_file h fs"
    "pt_sync_file_fh (confine (pf_root fs) h) fs = pt_sync_file_fh h fs"
    "pt_release_posix_locks (confine (pf_root fs) h) fs = pt_release_posix_locks h fs"
    "pt_getlk (confine (pf_root fs) h) fs = pt_getlk h fs" "pt_setlk (confine (pf_root fs) h) fs = pt_setlk h fs"
    "pt_flock (confine (pf_root fs) h) fs = pt_flock h fs"
    "pt_copy_file_range (confine (pf_root fs) h) fs = pt_copy_file_range h fs"
    "pt_fallocate (confine (pf_root fs) h) fs = pt_fallocate h fs" "pt_lseek (confine (pf_root fs) h) fs = pt_lseek h fs"
    unfolding fun_eq_iff pt_read_def pt_read_fh_def pt_write_def pt_write_fh_def pt_setattr_fh_def pt_open_def pt_sync_dir_fh_def
      pt_sync_file_def pt_sync_file_fh_def pt_release_posix_locks_def pt_getlk_def pt_setlk_def pt_flock_def pt_copy_file_range_def
      pt_fallocate_def pt_lseek_def on_object_def with_path_eq loop rules
    by (rule allI refl)+
  then show ?thesis by (simp add: passthrough_runtime_def)
qed

lemma confine_directories:
  assumes "pf_root fs \<noteq> []" "plain_dir_names h"
  shows "pt_list_dir (confine (pf_root fs) h) fs = pt_list_dir h fs"
proof -
  have "srv_bind (io_look (h_read_dir h p)) (list_entries (confine (pf_root fs) h) (resolve_path fs (normal q))) w
      = srv_bind (io_look (h_read_dir h p)) (list_entries h (resolve_path fs (normal q))) w" for p q w
  proof (cases "h_read_dir h p w")
    case (Inr entries)
    then have "list_entries (confine (pf_root fs) h) (resolve_path fs (normal q)) entries = list_entries h (resolve_path fs (normal q)) entries"
      using assms by (intro list_entries_same) (auto simp: plain_dir_names_def)
    with Inr show ?thesis by (simp add: srv_bind_def io_look_def)
  qed (simp add: srv_bind_def io_look_def)
  then show ?thesis
    unfolding fun_eq_iff pt_list_dir_def with_path_eq confine_allows [OF under_normal [OF assms(1)]] on_host_def by simp
qed

lemma opened_root: "PassthroughFs_new h root options w = Ok (fs, s) \<Longrightarrow> pf_root fs \<noteq> []"
  by (auto simp: PassthroughFs_new_def require_existing_dir_def clean_root_def Let_def split: sum.splits if_splits)

lemma confine_storage:
  assumes "pf_root fs \<noteq> []" "plain_dir_names h"
  shows "st_metadata (passthrough_storage (confine (pf_root fs) h) fs) = st_metadata (passthrough_storage h fs)"
    "st_runtime (passthrough_storage (confine (pf_root fs) h) fs) = st_runtime (passthrough_storage h fs)"
    "st_directories (passthrough_storage (confine (pf_root fs) h) fs) = st_directories (passthrough_storage h fs)"
    "st_mkdir (st_namespace (passthrough_storage (confine (pf_root fs) h) fs)) = st_mkdir (st_namespace (passthrough_storage h fs))"
    "st_unlink (st_namespace (passthrough_storage (confine (pf_root fs) h) fs)) = st_unlink (st_namespace (passthrough_storage h fs))"
    "st_rmdir (st_namespace (passthrough_storage (confine (pf_root fs) h) fs)) = st_rmdir (st_namespace (passthrough_storage h fs))"
    "st_mknod (st_namespace (passthrough_storage (confine (pf_root fs) h) fs)) = st_mknod (st_namespace (passthrough_storage h fs))"
    "st_exists (st_namespace (passthrough_storage (confine (pf_root fs) h) fs)) = st_exists (st_namespace (passthrough_storage h fs))"
    "st_link (st_namespace (passthrough_storage (confine (pf_root fs) h) fs)) = st_link (st_namespace (passthrough_storage h fs))"
  using assms by (simp_all add: passthrough_storage_def passthrough_namespace_def confine_names confine_metadata confine_runtime
      confine_directories)

lemma confine_storage_parents:
  assumes "pf_root fs \<noteq> []" "normal p \<noteq> ''/''"
  shows "st_rename (st_namespace (passthrough_storage (confine (pf_root fs) h) fs)) q p
      = st_rename (st_namespace (passthrough_storage h fs)) q p"
    "st_create_file (st_namespace (passthrough_storage (confine (pf_root fs) h) fs)) p
      = st_create_file (st_namespace (passthrough_storage h fs)) p"
    "st_symlink (st_namespace (passthrough_storage (confine (pf_root fs) h) fs)) p
      = st_symlink (st_namespace (passthrough_storage h fs)) p"
  using confine_parents [OF assms] by (simp_all add: passthrough_storage_def passthrough_namespace_def)

definition sample_tree :: "(unit, unit) host_fs" where
  "sample_tree = refusing_host
    \<lparr>h_metadata := (\<lambda>p w. Ok \<lparr>md_dev = 0, md_ino = 1, md_mode = 0x41ED, md_nlink = 2, md_uid = 0, md_gid = 0, md_size = 0,
        md_atime = 0, md_atime_nsec = 0, md_mtime = 0, md_mtime_nsec = 0, md_ctime = 0, md_ctime_nsec = 0\<rparr>),
     h_read_dir := (\<lambda>p w. Ok [Ok ''a'', Ok ''b''])\<rparr>"

definition sample_root :: PassthroughFs where
  "sample_root = \<lparr>pf_root = ''/srv'', pf_umask = 18\<rparr>"

definition sample_start :: "(unit, unit) StorageRuntime" where
  "sample_start = StorageRuntime_new (limits_validated (opt_limits (options_normalized FsOptions_default))) ()"

lemma sample_tree_new: "PassthroughFs_new sample_tree ''/srv/x/..'' FsOptions_default () = Ok (sample_root, sample_start)"
proof -
  have "clean_root ''/srv/x/..'' = ''/srv''" by code_simp
  then show ?thesis
    by (simp add: PassthroughFs_new_def require_existing_dir_def sample_tree_def sample_root_def sample_start_def md_is_dir_def
        S_IFMT_def S_IFDIR_def FsOptions_default_def options_normalized_def options_with_limits_def DEFAULT_FS_UMASK_def Let_def)
qed

lemma sample_tree_names: "plain_dir_names sample_tree"
  by (auto simp: plain_dir_names_def sample_tree_def plain_name_def)

end
