(* ===== verification/PassthroughAccess.thy ===== *)
theory PassthroughAccess
  imports PassthroughConfinement
begin

text \<open>
  Who may change the names of a passthrough storage: the host changes through an operation
  on names only for a known caller whom the directories concerned permit it, as the
  metadata of the host say when the operation begins. And how renames treat the open
  handles and the destination.
\<close>

section \<open>Permissions of an operation on names\<close>

definition may_create :: "('f, 'w) host_fs \<Rightarrow> PassthroughFs \<Rightarrow> FuseContext \<Rightarrow> string \<Rightarrow> 'w \<Rightarrow> bool" where
  "may_create h fs c rel w \<longleftrightarrow>
    (case h_symlink_metadata h (resolve_path fs (parent_rel rel)) w of
       Inl _ \<Rightarrow> False
     | Inr parent \<Rightarrow> ensure_access_bits parent (ctx_uid c) (ctx_gid c) 3 = Ok ())"

definition may_remove :: "('f, 'w) host_fs \<Rightarrow> PassthroughFs \<Rightarrow> FuseContext \<Rightarrow> string \<Rightarrow> 'w \<Rightarrow> bool" where
  "may_remove h fs c rel w \<longleftrightarrow>
    (case h_symlink_metadata h (resolve_path fs (parent_rel rel)) w of
       Inl _ \<Rightarrow> False
     | Inr parent \<Rightarrow>
        (case h_symlink_metadata h (resolve_path fs rel) w of
           Inl _ \<Rightarrow> False
         | Inr meta \<Rightarrow> ensure_access_bits parent (ctx_uid c) (ctx_gid c) 3 = Ok ()
             \<and> ensure_sticky_allowed parent meta (ctx_uid c) = Ok ()))"

text \<open>
  The sticky bit of the directory a file is renamed to is held against the owner of the file
  that is replaced, or of the file that is renamed if there is none.
\<close>

definition may_replace :: "('f, 'w) host_fs \<Rightarrow> PassthroughFs \<Rightarrow> FuseContext \<Rightarrow> string \<Rightarrow> string \<Rightarrow> 'w \<Rightarrow> bool" where
  "may_replace h fs c from_rel to_rel w \<longleftrightarrow>
    (case h_symlink_metadata h (resolve_path fs (parent_rel to_rel)) w of
       Inl _ \<Rightarrow> False
     | Inr parent \<Rightarrow>
        (case h_symlink_metadata h (resolve_path fs from_rel) w of
           Inl _ \<Rightarrow> False
         | Inr src_meta \<Rightarrow>
             ensure_sticky_allowed parent
               (case h_symlink_metadata h (resolve_path fs to_rel) w of Inr meta \<Rightarrow> meta | Inl _ \<Rightarrow> src_meta)
               (ctx_uid c) = Ok ()))"

text \<open>A file that is there can be reached by whoever may search every directory above it.\<close>

definition may_search :: "('f, 'w) host_fs \<Rightarrow> PassthroughFs \<Rightarrow> FuseContext \<Rightarrow> 'w \<Rightarrow> string \<Rightarrow> bool" where
  "may_search h fs c w rel \<longleftrightarrow>
    (case h_metadata h (resolve_path fs rel) w of
       Inl _ \<Rightarrow> False
     | Inr meta \<Rightarrow> ensure_search_allowed meta (ctx_uid c) (ctx_gid c) = Ok ())"

definition dirs_above :: "string \<Rightarrow> string list" where
  "dirs_above p = (let ws = butlast (normal_names p) in map (\<lambda>k. render_path (take k ws)) [0..<Suc (length ws)])"

definition may_reach :: "('f, 'w) host_fs \<Rightarrow> PassthroughFs \<Rightarrow> FuseContext \<Rightarrow> string \<Rightarrow> 'w \<Rightarrow> bool" where
  "may_reach h fs c p w \<longleftrightarrow> list_all (may_search h fs c w) (dirs_above p)
    \<and> \<not> isl (h_symlink_metadata h (resolve_path fs (normal p)) w)"

text \<open>What is at the path of a file to create.\<close>

definition existing_file :: "('f, 'w) host_fs \<Rightarrow> string \<Rightarrow> 'w \<Rightarrow> i32 + Metadata option" where
  "existing_file h target w =
    (case h_symlink_metadata h target w of
       Inl _ \<Rightarrow> Ok None
     | Inr link \<Rightarrow>
        (case (if md_is_symlink link then h_metadata h target w else Inr link) of
           Inl e \<Rightarrow> Err (io_errno e)
         | Inr meta \<Rightarrow> Ok (Some meta)))"

text \<open>
  A file that is there may be opened with \<open>create\<close> by whoever may search its directory and
  open it, unless a new file is demanded.
\<close>

definition may_reopen :: "('f, 'w) host_fs \<Rightarrow> PassthroughFs \<Rightarrow> FuseContext \<Rightarrow> string \<Rightarrow> Metadata \<Rightarrow> i32 \<Rightarrow> 'w \<Rightarrow> bool" where
  "may_reopen h fs c rel meta flags w \<longleftrightarrow>
    (case h_symlink_metadata h (resolve_path fs (parent_rel rel)) w of
       Inl _ \<Rightarrow> False
     | Inr parent \<Rightarrow> ensure_search_allowed parent (ctx_uid c) (ctx_gid c) = Ok ())
    \<and> flags AND O_EXCL = 0 \<and> md_is_file meta
    \<and> \<not> isl (ensure_open_flags_allowed meta (ctx_uid c) (ctx_gid c) flags)"

definition may_create_file :: "('f, 'w) host_fs \<Rightarrow> PassthroughFs \<Rightarrow> FuseContext \<Rightarrow> string \<Rightarrow> i32 \<Rightarrow> 'w \<Rightarrow> bool" where
  "may_create_file h fs c rel flags w \<longleftrightarrow>
    (case existing_file h (resolve_path fs rel) w of
       Inl _ \<Rightarrow> False
     | Inr None \<Rightarrow> may_create h fs c rel w
     | Inr (Some meta) \<Rightarrow> may_reopen h fs c rel meta flags w)"

datatype namespace_call =
    Mkdir_call string u32
  | Mknod_call string u32
  | Symlink_call string bytes
  | Link_call string string
  | Create_call string u32 i32
  | Unlink_call string
  | Rmdir_call string
  | Rename_call string string

fun after_call :: "('f, 'w) host_fs \<Rightarrow> PassthroughFs \<Rightarrow> FuseContext option \<Rightarrow> namespace_call
    \<Rightarrow> ('f, 'w) StorageRuntime \<Rightarrow> ('f, 'w) StorageRuntime" where
  "after_call h fs ctx (Mkdir_call p mode) s = snd (pt_mkdir h fs p mode ctx s)"
| "after_call h fs ctx (Mknod_call p mode) s = snd (pt_mknod h fs p mode ctx s)"
| "after_call h fs ctx (Symlink_call p target) s = snd (pt_symlink h fs p target ctx s)"
| "after_call h fs ctx (Link_call p q) s = snd (pt_link h fs p q ctx s)"
| "after_call h fs ctx (Create_call p mode flags) s = snd (pt_create_file h fs p mode flags ctx s)"
| "after_call h fs ctx (Unlink_call p) s = snd (pt_unlink h fs p ctx s)"
| "after_call h fs ctx (Rmdir_call p) s = snd (pt_rmdir h fs p ctx s)"
| "after_call h fs ctx (Rename_call p q) s = snd (pt_rename h fs p q ctx s)"

fun permitted :: "('f, 'w) host_fs \<Rightarrow> PassthroughFs \<Rightarrow> FuseContext \<Rightarrow> namespace_call \<Rightarrow> 'w \<Rightarrow> bool" where
  "permitted h fs c (Mkdir_call p mode) w = may_create h fs c (normal p) w"
| "permitted h fs c (Mknod_call p mode) w = may_create h fs c (normal p) w"
| "permitted h fs c (Symlink_call p target) w = may_create h fs c (normal p) w"
| "permitted h fs c (Link_call p q) w = (may_reach h fs c p w \<and> may_create h fs c (normal q) w)"
| "permitted h fs c (Create_call p mode flags) w = may_create_file h fs c (normal p) flags w"
| "permitted h fs c (Unlink_call p) w = may_remove h fs c (normal p) w"
| "permitted h fs c (Rmdir_call p) w = may_remove h fs c (normal p) w"
| "permitted h fs c (Rename_call p q) w =
    (may_remove h fs c (normal p) w \<and> may_create h fs c (normal q) w \<and> may_replace h fs c (normal p) (normal q) w)"

lemma bind_look:
  "srv_bind (on_host (io_look f)) g s = (case f (sr_world s) of Inl e \<Rightarrow> (Err (io_errno e), s) | Inr a \<Rightarrow> g a s)"
  by (simp add: srv_bind_def on_host_def io_look_def split: sum.split)

lemma bind_link_metadata:
  "srv_bind (link_metadata h fs rel) g s =
    (case h_symlink_metadata h (resolve_path fs rel) (sr_world s) of
       Inl e \<Rightarrow> (Err (io_errno e), s) | Inr meta \<Rightarrow> g meta s)"
  by (simp add: link_metadata_def bind_look)

lemma check_eq: "check r m s = (case r of Inl e \<Rightarrow> (Err e, s) | Inr _ \<Rightarrow> m s)"
  by (cases r) (simp_all add: check_def)

lemma bind_give: "srv_bind (srv_give r) g s = (case r of Inl e \<Rightarrow> (Err e, s) | Inr a \<Rightarrow> g a s)"
  by (cases r) simp_all

lemma bind_empty:
  "srv_bind (on_host (dir_is_empty h p)) g s =
    (case h_read_dir h p (sr_world s) of Inl e \<Rightarrow> (Err (io_errno e), s) | Inr entries \<Rightarrow> g (entries = []) s)"
  by (simp add: dir_is_empty_def srv_bind_def on_host_def io_look_def srv_give_def split: sum.split)

text \<open>The walk over the parents of a path only looks.\<close>

definition looks :: "('s, 'a) call \<Rightarrow> bool" where
  "looks m \<longleftrightarrow> (\<forall>s. snd (m s) = s)"

lemma search_each_looks: "(\<And>p. looks (f p)) \<Longrightarrow> looks (search_each f cur ws)"
proof (induction ws arbitrary: cur)
  case (Cons w ws)
  then show ?case
    by (auto simp: looks_def srv_bind_def Let_def split: prod.split sum.split) (metis prod.sel(2))+
qed (simp add: looks_def)

lemma parent_search_looks:
  "(\<And>p. looks (f p)) \<Longrightarrow> looks (ensure_parent_search_allowed rel f)"
  using search_each_looks [of f]
  by (auto simp: looks_def ensure_parent_search_allowed_def srv_bind_def split: prod.split sum.split) (metis prod.sel(2))+

lemma looks_bind:
  assumes "looks m"
  shows "snd (srv_bind m g s) = (case fst (m s) of Inl e \<Rightarrow> s | Inr a \<Rightarrow> snd (g a s))"
proof -
  have "m s = (fst (m s), s)" using assms by (simp add: looks_def prod_eq_iff)
  then show ?thesis by (cases "fst (m s)") (simp_all add: srv_bind_def)
qed

lemmas call_simps = for_caller_def with_path_eq Let_def bind_link_metadata check_eq bind_give bind_empty require_context_def
  ok_or_def ensure_dir_creation_allowed_def ensure_file_creation_allowed_def ensure_removal_allowed_def

lemma create_calls_guarded:
  assumes "\<not> may_create h fs c (normal p) (sr_world s)"
  shows "snd (pt_mkdir h fs p mode (Some c) s) = s" "snd (pt_mknod h fs p mode (Some c) s) = s"
    "snd (pt_symlink h fs p target (Some c) s) = s"
  using assms
  by (auto simp: pt_mkdir_def pt_mknod_def pt_symlink_def call_simps may_create_def split: sum.splits)

lemma bind_existing:
  "srv_bind (on_host (\<lambda>w. case h_symlink_metadata h target w of
      Inl _ \<Rightarrow> (Ok None, w)
    | Inr meta \<Rightarrow> if md_is_symlink meta
        then srv_bind (io_look (h_metadata h target)) (\<lambda>meta. srv_give (Ok (Some meta))) w
        else (Ok (Some meta), w))) g s
   = (case existing_file h target (sr_world s) of Inl e \<Rightarrow> (Err e, s) | Inr x \<Rightarrow> g x s)"
  by (auto simp: existing_file_def srv_bind_def on_host_def io_look_def srv_give_def split: sum.split)

text \<open>A call leaves the state alone if it does so past every check that it passes.\<close>

lemma stays:
  "(r = Ok () \<Longrightarrow> snd (m s) = s) \<Longrightarrow> snd (check r m s) = s"
  "(\<And>a. given = Ok a \<Longrightarrow> snd (g a s) = s) \<Longrightarrow> snd (srv_bind (srv_give given) g s) = s"
  "(b \<Longrightarrow> snd (m s) = s) \<Longrightarrow> (\<not> b \<Longrightarrow> snd (n s) = s) \<Longrightarrow> snd ((if b then m else n) s) = s"
  by (simp_all add: check_eq bind_give split: sum.split)

lemma looks_stays:
  "looks l \<Longrightarrow> (fst (l s) = Ok () \<Longrightarrow> snd (k s) = s) \<Longrightarrow> snd (srv_bind l (\<lambda>_. k) s) = s"
  by (simp add: looks_bind split: sum.split)

lemma host_stays:
  "(\<And>meta. h_symlink_metadata h (resolve_path fs rel) (sr_world s) = Ok meta \<Longrightarrow> snd (f meta s) = s)
    \<Longrightarrow> snd (srv_bind (link_metadata h fs rel) f s) = s"
  "snd (f (found (sr_world s)) s) = s \<Longrightarrow> snd (srv_bind (on_host (\<lambda>w. (Ok (found w), w))) f s) = s"
  "(\<And>x. existing_file h target (sr_world s) = Ok x \<Longrightarrow> snd (e x s) = s)
    \<Longrightarrow> snd (srv_bind (on_host (\<lambda>w. case h_symlink_metadata h target w of
        Inl _ \<Rightarrow> (Ok None, w)
      | Inr meta \<Rightarrow> if md_is_symlink meta
          then srv_bind (io_look (h_metadata h target)) (\<lambda>meta. srv_give (Ok (Some meta))) w
          else (Ok (Some meta), w))) e s) = s"
  unfolding bind_existing
  by (simp_all add: bind_link_metadata split: sum.split) (simp add: srv_bind_def on_host_def)

lemma for_caller_Some: "for_caller (Some c) f = f c"
  by (simp add: for_caller_def require_context_def)

lemmas calls_open = for_caller_Some with_path_eq Let_def ensure_dir_creation_allowed_def ensure_file_creation_allowed_def

lemma search_each_Ok:
  assumes "\<And>rel. f rel s = (r rel, s)" "\<forall>v \<in> set us. plain_name v" "\<forall>v \<in> set ws. plain_name v"
    "fst (search_each f (render_path us) ws s) = Ok ()" "k < length ws"
  shows "r (render_path (us @ take (Suc k) ws)) = Ok ()"
  using assms(2-5)
proof (induction ws arbitrary: us k)
  case (Cons w ws)
  have first: "r (render_path (us @ [w])) = Ok ()"
    and rest: "fst (search_each f (render_path (us @ [w])) ws s) = Ok ()"
    using Cons.prems(1,3) assms(1) by (auto simp: append_rel_render Let_def srv_bind_def split: sum.splits)
  show ?case
  proof (cases k)
    case (Suc j)
    with Cons.IH [of "us @ [w]" j] Cons.prems rest show ?thesis by simp
  qed (use first in simp)
qed simp

lemma parent_search_Ok:
  assumes "\<And>rel. f rel s = (r rel, s)" "fst (ensure_parent_search_allowed (normal p) f s) = Ok ()" "rel \<in> set (dirs_above p)"
  shows "r rel = Ok ()"
proof -
  let ?ws = "butlast (normal_names p)"
  have ws: "\<forall>v \<in> set ?ws. plain_name v" using normal_names_plain [of _ p] by (auto dest: in_set_butlastD)
  have root: "r (render_path []) = Ok ()" and walk: "fst (search_each f (render_path []) ?ws s) = Ok ()"
    using assms(1,2) by (auto simp: ensure_parent_search_names srv_bind_def split: sum.splits)
  obtain k where k: "k \<le> length ?ws" "rel = render_path (take k ?ws)"
    using assms(3) by (auto simp: dirs_above_def Let_def less_Suc_eq_le simp del: upt_Suc)
  show ?thesis
  proof (cases k)
    case (Suc j)
    with k search_each_Ok [OF assms(1) _ ws walk, of j] show ?thesis by simp
  qed (use k root in simp)
qed

lemma link_guarded:
  assumes "\<not> (may_reach h fs c p (sr_world s) \<and> may_create h fs c (normal q) (sr_world s))"
  shows "snd (pt_link h fs p q (Some c) s) = s"
proof -
  let ?f = "\<lambda>rel. srv_bind (on_host (io_look (h_metadata h (resolve_path fs rel)))) (\<lambda>meta.
    srv_give (ensure_search_allowed meta (ctx_uid c) (ctx_gid c))) :: ('a, 'b, unit) rt_call"
  let ?r = "\<lambda>rel. case h_metadata h (resolve_path fs rel) (sr_world s) of
    Inl e \<Rightarrow> Err (io_errno e) | Inr meta \<Rightarrow> ensure_search_allowed meta (ctx_uid c) (ctx_gid c)"
  have l: "looks (ensure_parent_search_allowed (normal p) ?f)"
    by (rule parent_search_looks) (simp add: looks_def bind_look split: sum.split)
  have "?f rel s = (?r rel, s)" for rel
    by (simp add: bind_look srv_give_def split: sum.split)
  note walked = parent_search_Ok [of ?f s ?r p, OF this]
  have "list_all (may_search h fs c (sr_world s)) (dirs_above p)"
    if "fst (ensure_parent_search_allowed (normal p) ?f s) = Ok ()"
    unfolding list_all_iff
  proof
    fix rel
    assume "rel \<in> set (dirs_above p)"
    from walked [OF that this] show "may_search h fs c (sr_world s) rel" by (simp add: may_search_def split: sum.splits)
  qed
  with assms show ?thesis
    unfolding pt_link_def calls_open
    by (intro looks_stays [OF l] host_stays stays) (simp add: may_create_def may_reach_def)
qed

lemma removal_guarded:
  assumes "\<not> may_remove h fs c (normal p) (sr_world s)"
  shows "snd (pt_unlink h fs p (Some c) s) = s" "snd (pt_rmdir h fs p (Some c) s) = s"
    "snd (pt_rename h fs p q (Some c) s) = s"
  using assms
  by (auto simp: pt_unlink_def pt_rmdir_def pt_rename_def call_simps may_remove_def try_seq_eq_Ok_iff
      split: sum.splits if_splits)

lemma rename_guarded:
  assumes "\<not> (may_create h fs c (normal q) (sr_world s) \<and> may_replace h fs c (normal p) (normal q) (sr_world s))"
  shows "snd (pt_rename h fs p q (Some c) s) = s"
  unfolding pt_rename_def calls_open
  by (intro host_stays stays) (use assms in \<open>simp add: may_create_def may_replace_def\<close>)

lemma create_guarded:
  assumes "\<not> may_create_file h fs c (normal p) flags (sr_world s)"
  shows "snd (pt_create_file h fs p mode flags (Some c) s) = s"
  unfolding pt_create_file_def calls_open
proof (intro host_stays stays, goal_cases)
  case (1 bits found parent)
  then show ?case by (simp add: srv_give_def)
next
  case (2 bits found parent)
  then show ?case
    using assms
    by (cases found) (auto simp: may_create_file_def may_create_def may_reopen_def ensure_regular_file_def try_seq_eq_Ok_iff
        map_ok_eq_Ok_iff split: if_splits)
qed

lemma not_permitted:
  "\<not> permitted h fs c call (sr_world s) \<Longrightarrow> after_call h fs (Some c) call s = s"
  by (cases call) (auto intro: create_calls_guarded link_guarded removal_guarded rename_guarded create_guarded)

lemma no_caller: "after_call h fs None call s = s"
  by (cases call) (simp_all add: pt_mkdir_def pt_mknod_def pt_symlink_def pt_link_def pt_create_file_def pt_unlink_def
      pt_rmdir_def pt_rename_def call_simps)

text \<open>
  C4: names come and go only with permission. If an operation on names changes the host or
  the runtime then it named its caller, and at its beginning the permissions were these. To
  make a directory, a node, a symbolic link or a new file the caller could write to and
  search the directory of the name. To unlink a file or remove a directory the same held of
  its directory, and the sticky bit of the directory did not forbid it. For a rename all this
  held of the old name, the caller could write to and search the directory of the new name,
  and the sticky bit of that directory did not forbid to replace what was there. For a hard
  link the caller could search every directory above the file, and write to and search the
  directory of the new name. A file that was already there is opened by \<open>create\<close> only if it
  is a regular one and no new file was demanded, and if the caller could search its
  directory and its own permissions allow the access.
\<close>

theorem names_change_with_permission:
  assumes "after_call h fs ctx call s \<noteq> s"
  shows "\<exists>c. ctx = Some c \<and> permitted h fs c call (sr_world s)"
  using assms not_permitted [of h fs _ call s] no_caller [of h fs call s] by (cases ctx) auto

section \<open>A host with files in memory\<close>

text \<open>
  The state of the host is the list of its files. Every file can be opened, every
  directory belongs to the superuser and is open to all, and renames fail on demand.
\<close>

definition file_metadata :: Metadata where
  "file_metadata = \<lparr>md_dev = 0, md_ino = 1, md_mode = 0x81A4, md_nlink = 1, md_uid = 7, md_gid = 7, md_size = 0,
    md_atime = 0, md_atime_nsec = 0, md_mtime = 0, md_mtime_nsec = 0, md_ctime = 0, md_ctime_nsec = 0\<rparr>"

definition dir_metadata :: "u32 \<Rightarrow> Metadata" where
  "dir_metadata mode = file_metadata\<lparr>md_mode := 0x4000 OR mode, md_uid := 0, md_gid := 0\<rparr>"

definition list_host :: "u32 \<Rightarrow> (string list \<Rightarrow> bool) \<Rightarrow> (unit, string list) host_fs" where
  "list_host dir_mode renames = refusing_host
    \<lparr>h_symlink_metadata := (\<lambda>p w. if p \<in> set w then Ok file_metadata
       else if p = ''/srv/'' then Ok (dir_metadata dir_mode) else Err (Os ENOENT)),
     h_remove_file := (\<lambda>p w. (Ok (), filter (\<lambda>q. q \<noteq> p) w)),
     h_create_dir_all := (\<lambda>p w. (Ok (), w)),
     h_rename := (\<lambda>p q w. if renames w then (Ok (), map (\<lambda>x. if x = p then q else x) w) else (Err (Os EIO), w))\<rparr>"

definition list_fs :: PassthroughFs where
  "list_fs = \<lparr>pf_root = ''/srv'', pf_umask = 18\<rparr>"

definition list_state :: "(unit, string list) StorageRuntime" where
  "list_state = StorageRuntime_new \<lparr>lim_io_chunk_bytes = 4, lim_max_read_bytes = 8\<rparr> [''/srv/a'', ''/srv/b'']"

definition list_caller :: FuseContext where
  "list_caller = \<lparr>ctx_uid = 7, ctx_gid = 7, ctx_pid = 1\<rparr>"

theorem names_change_with_permission_witness:
  "sr_world (after_call (list_host 511 (\<lambda>_. True)) list_fs (Some list_caller) (Unlink_call ''/a'') list_state) = [''/srv/b'']
    \<and> may_remove (list_host 511 (\<lambda>_. True)) list_fs list_caller ''/a'' [''/srv/a'', ''/srv/b'']"
proof -
  have w: "sr_world (after_call (list_host 511 (\<lambda>_. True)) list_fs (Some list_caller) (Unlink_call ''/a'') list_state) = [''/srv/b'']"
    "sr_world list_state = [''/srv/a'', ''/srv/b'']" "normal ''/a'' = ''/a''"
    by code_simp+
  then have "after_call (list_host 511 (\<lambda>_. True)) list_fs (Some list_caller) (Unlink_call ''/a'') list_state \<noteq> list_state"
    by (metis list.inject not_Cons_self2)
  from names_change_with_permission [OF this] w show ?thesis by simp
qed

text \<open>
  A rename whose last step fails has already removed the destination.
\<close>

lemma failed_rename_loses_destination:
  "let (r, s) = pt_rename (list_host 511 (\<lambda>_. False)) list_fs ''/a'' ''/b'' (Some list_caller) list_state
   in r = Err EIO \<and> sr_world s = [''/srv/a'']"
  by code_simp

section \<open>Open handles after a rename\<close>

lemma rename_Ok_rewrites:
  assumes "pt_rename h fs p q ctx s = (Ok (), s')" "\<not> sr_handles_poisoned s"
  shows "hs_entries (sr_handles s') =
    map (\<lambda>(k, e). (k, rewrite_entry (normal p) (normal q) e)) (hs_entries (sr_handles s))"
  using assms
  by (auto simp: pt_rename_def for_caller_def with_path_eq Let_def check_def after_def link_metadata_def srv_bind_Ok_iff
      srv_give_Ok rewrite_paths_def rt_lock_handles_def rt_lock_locks_def rt_lock_flocks_def
      split: if_splits dest!: on_host_Ok)

end
