(* ===== verification/FileService.thy ===== *)
theory FileService
  imports InodeMap PassthroughAccess FsCore
begin

text \<open>
  The file service of the server, after \<open>fabricfs-server/src/service.rs\<close> and
  \<open>fabricfs-server/src/service/translation.rs\<close>: the handler of every operation of the
  protocol over a storage, with the inode numbers the server hands out. The state of the
  service is that of its storage and the inode map behind its mutex. The theorems show that
  the handlers keep the invariants of the storage and of the inode map, and what they
  answer.
\<close>

section \<open>Translation\<close>

definition errno_to_common :: "i32 \<Rightarrow> Errno" where
  "errno_to_common errno =
    (if errno \<le> 0 then Io else case errno_try_from errno of Inr e \<Rightarrow> e | Inl _ \<Rightarrow> Io)"

definition service_error :: "i32 \<Rightarrow> string \<Rightarrow> FsError" where
  "service_error errno message = FsError_new (errno_to_common errno) message"

definition fs_errno :: "i32 \<Rightarrow> FsError" where
  "fs_errno errno = service_error errno (''filesystem errno '' @ show_int errno)"

definition request_path :: "PathDto option \<Rightarrow> FsError + string" where
  "request_path p = ok_or (service_error EINVAL ''missing path'') (map_option dto_path p)"

definition caller_context :: "RpcMetadata \<Rightarrow> FuseContext option" where
  "caller_context m =
    map_option (\<lambda>c. \<lparr>ctx_uid = caller_uid c, ctx_gid = caller_gid c, ctx_pid = caller_pid c\<rparr>) (md_caller m)"

definition encoded_xattr_name_size :: "string list \<Rightarrow> nat" where
  "encoded_xattr_name_size names = sum_list (map (\<lambda>name. length name + 1) names)"

definition unix_nanos :: "i64 \<Rightarrow> u64" where
  "unix_nanos v = word_of_int (max v 0)"

definition stat_file_kind :: "u32 \<Rightarrow> FileKind" where
  "stat_file_kind mode =
    (if mode AND S_IFMT = S_IFDIR then Kind_Directory
     else if mode AND S_IFMT = S_IFLNK then Kind_Symlink else Kind_File)"

definition stat_to_attr :: "u64 \<Rightarrow> Stat \<Rightarrow> FileAttr" where
  "stat_to_attr inode stat =
    \<lparr>attr_inode = inode, attr_size = st_size stat, attr_kind = file_kind_value (stat_file_kind (st_mode stat)),
     attr_perm = st_mode stat AND 4095, attr_mtime_unix_nanos = unix_nanos (st_mtime_ns stat),
     attr_uid = st_uid stat, attr_gid = st_gid stat, attr_nlink = st_nlink stat,
     attr_atime_unix_nanos = unix_nanos (st_atime_ns stat), attr_ctime_unix_nanos = unix_nanos (st_ctime_ns stat),
     attr_crtime_unix_nanos = 0\<rparr>"

definition clamp_u32 :: "u64 \<Rightarrow> u32" where
  "clamp_u32 v = of_nat (min (unat v) (2 ^ 32 - 1))"

definition statfs_to_proto :: "ServerStatFs \<Rightarrow> StatFs" where
  "statfs_to_proto stat =
    \<lparr>stat_blocks = ss_blocks stat, stat_blocks_free = ss_bfree stat, stat_files = ss_files stat,
     stat_files_free = ss_ffree stat, stat_block_size = clamp_u32 (ss_bsize stat), stat_name_max = clamp_u32 (ss_namelen stat),
     stat_blocks_available = ss_bavail stat, stat_fragment_size = clamp_u32 (ss_frsize stat)\<rparr>"

definition file_lock_to_proto :: "ServerFileLock \<Rightarrow> FileLock" where
  "file_lock_to_proto lock =
    \<lparr>lock_start = sfl_start lock, lock_end = sfl_end lock, lock_typ = sfl_typ lock, lock_pid = sfl_pid lock\<rparr>"

definition service_child_path :: "string \<Rightarrow> string \<Rightarrow> string" where
  "service_child_path parent name =
    (if parent = ''/'' then CHR ''/'' # name else trim_end_char (CHR ''/'') parent @ CHR ''/'' # name)"

section \<open>The service\<close>

record 's FabricFsFileSystemService =
  sv_storage :: 's
  sv_inodes :: InodeMap
  sv_inodes_poisoned :: bool

type_synonym ('s, 'a) sv_call = "'s FabricFsFileSystemService \<Rightarrow> (FsError + 'a) \<times> 's FabricFsFileSystemService"

definition service_new :: "'s \<Rightarrow> 's FabricFsFileSystemService" where
  "service_new storage = \<lparr>sv_storage = storage, sv_inodes = InodeMap_new, sv_inodes_poisoned = False\<rparr>"

definition sv_bind :: "('s, 'a) sv_call \<Rightarrow> ('a \<Rightarrow> ('s, 'b) sv_call) \<Rightarrow> ('s, 'b) sv_call" where
  "sv_bind m f s = (case m s of (Inr a, s') \<Rightarrow> f a s' | (Inl e, s') \<Rightarrow> (Inl e, s'))"

definition sv_give :: "FsError + 'a \<Rightarrow> ('s, 'a) sv_call" where
  "sv_give r s = (r, s)"

text \<open>A call of the storage; its errno becomes an error of the service.\<close>

definition on_storage :: "('s, 'a) call \<Rightarrow> ('s, 'a) sv_call" where
  "on_storage m s =
    (case m (sv_storage s) of (r, t) \<Rightarrow> (map_err fs_errno r, s\<lparr>sv_storage := t\<rparr>))"

text \<open>
  A call that may not return. A handler always returns a value here, so a call that does
  not return is given the error \<open>EIO\<close> and no effect.
\<close>

definition returned :: "('s \<Rightarrow> ((i32 + 'a) \<times> 's) option) \<Rightarrow> ('s, 'a) call" where
  "returned m t = (case m t of None \<Rightarrow> (Err EIO, t) | Some x \<Rightarrow> x)"

definition lock_inodes :: "('s, InodeMap) sv_call" where
  "lock_inodes s =
    (if sv_inodes_poisoned s then (Err (service_error EIO ''inode map lock poisoned''), s)
     else (Ok (sv_inodes s), s))"

definition inode_for_stat :: "string \<Rightarrow> Stat \<Rightarrow> ('s, u64) sv_call" where
  "inode_for_stat p stat =
    sv_bind lock_inodes (\<lambda>inodes s.
      case inode_for p (Some (identity_from_stat stat)) inodes of
        (inode, inodes) \<Rightarrow> (Ok inode, s\<lparr>sv_inodes := inodes\<rparr>))"

definition attr_for_stat :: "string \<Rightarrow> Stat \<Rightarrow> ('s, FileAttr) sv_call" where
  "attr_for_stat p stat = sv_bind (inode_for_stat p stat) (\<lambda>inode. sv_give (Ok (stat_to_attr inode stat)))"

definition service_rename_inode_path :: "string \<Rightarrow> string \<Rightarrow> ('s, unit) sv_call" where
  "service_rename_inode_path old_path new_path =
    sv_bind lock_inodes (\<lambda>inodes s. (Ok (), s\<lparr>sv_inodes := inode_rename_path old_path new_path inodes\<rparr>))"

definition service_remove_inode_path :: "string \<Rightarrow> ('s, unit) sv_call" where
  "service_remove_inode_path p =
    sv_bind lock_inodes (\<lambda>inodes s. (Ok (), s\<lparr>sv_inodes := inode_remove_path p inodes\<rparr>))"

definition service_parent_search_allowed :: "'s ServerStorage \<Rightarrow> string \<Rightarrow> RpcMetadata \<Rightarrow> ('s, unit) sv_call" where
  "service_parent_search_allowed st p m =
    sv_bind (sv_give (ok_or (service_error EACCES ''missing caller context'') (caller_context m))) (\<lambda>ctx.
    on_storage (ensure_parent_search_allowed p (\<lambda>parent.
      srv_bind (st_stat (st_metadata st) parent) (\<lambda>stat.
      srv_give (ensure_stat_access_bits stat (ctx_uid ctx) (ctx_gid ctx) 1)))))"

definition open_handle_kind :: "i32 \<Rightarrow> FsError + HandleKind" where
  "open_handle_kind kind =
    (case open_kind_try_from kind of
       Some Open_File \<Rightarrow> Ok Handle_File
     | Some Open_Directory \<Rightarrow> Ok Handle_Dir
     | _ \<Rightarrow> Err (service_error EINVAL ''invalid open kind''))"

definition at_path :: "PathDto option \<Rightarrow> (string \<Rightarrow> ('s, 'a) sv_call) \<Rightarrow> ('s, 'a) sv_call" where
  "at_path p f = sv_bind (sv_give (request_path p)) f"

section \<open>Attributes and directories\<close>

definition stat_attr :: "'s ServerStorage \<Rightarrow> string \<Rightarrow> ('s, FileAttr) sv_call" where
  "stat_attr st p = sv_bind (on_storage (st_stat (st_metadata st) p)) (attr_for_stat p)"

definition sv_lookup :: "'s ServerStorage \<Rightarrow> LookupRequest \<Rightarrow> RpcMetadata \<Rightarrow> ('s, LookupResponse) sv_call" where
  "sv_lookup st q m =
    at_path (lookup_path q) (\<lambda>p. sv_bind (stat_attr st p) (\<lambda>attr. sv_give (Ok \<lparr>lookup_resp_attr = Some attr\<rparr>)))"

definition sv_getattr :: "'s ServerStorage \<Rightarrow> GetattrRequest \<Rightarrow> RpcMetadata \<Rightarrow> ('s, GetattrResponse) sv_call" where
  "sv_getattr st q m =
    at_path (getattr_path q) (\<lambda>p. sv_bind (stat_attr st p) (\<lambda>attr. sv_give (Ok \<lparr>getattr_resp_attr = Some attr\<rparr>)))"

fun directory_entries :: "string \<Rightarrow> (string \<times> Stat) list \<Rightarrow> ('s, DirectoryEntry list) sv_call" where
  "directory_entries p [] = sv_give (Ok [])"
| "directory_entries p ((name, stat) # entries) =
    sv_bind (inode_for_stat (service_child_path p name) stat) (\<lambda>inode.
    sv_bind (directory_entries p entries) (\<lambda>rest.
    sv_give (Ok (\<lparr>dirent_inode = inode, dirent_name = name,
      dirent_kind = file_kind_value (stat_file_kind (st_mode stat))\<rparr> # rest))))"

definition sv_readdir :: "'s ServerStorage \<Rightarrow> ReaddirRequest \<Rightarrow> RpcMetadata \<Rightarrow> ('s, ReaddirResponse) sv_call" where
  "sv_readdir st q m =
    at_path (readdir_path q) (\<lambda>p.
    sv_bind (on_storage (st_list_dir (st_directories st) p)) (\<lambda>listed.
    let skip = unat (readdir_offset q)
    in sv_bind (directory_entries p (take (unat (readdir_max_entries q)) (drop skip listed))) (\<lambda>entries.
    sv_give (Ok \<lparr>readdir_resp_entries = entries, readdir_resp_end = length listed \<le> skip + length entries\<rparr>))))"

definition sv_statfs :: "'s ServerStorage \<Rightarrow> StatfsRequest \<Rightarrow> RpcMetadata \<Rightarrow> ('s, StatfsResponse) sv_call" where
  "sv_statfs st q m =
    sv_bind (on_storage (st_statfs (st_metadata st))) (\<lambda>stat.
    sv_give (Ok \<lparr>statfs_resp_stat = Some (statfs_to_proto stat)\<rparr>))"

definition sv_getxattr :: "'s ServerStorage \<Rightarrow> GetxattrRequest \<Rightarrow> RpcMetadata \<Rightarrow> ('s, GetxattrResponse) sv_call" where
  "sv_getxattr st q m =
    at_path (getxattr_path q) (\<lambda>p.
    sv_bind (on_storage (st_getxattr (st_metadata st) p (getxattr_name q) (getxattr_size q))) (\<lambda>v.
    sv_give (Ok \<lparr>getxattr_resp_value = v\<rparr>)))"

definition sv_setxattr :: "'s ServerStorage \<Rightarrow> SetxattrRequest \<Rightarrow> RpcMetadata \<Rightarrow> ('s, EmptyResponse) sv_call" where
  "sv_setxattr st q m =
    at_path (setxattr_path q) (\<lambda>p.
    sv_bind (on_storage (st_setxattr (st_metadata st) p (setxattr_name q) (setxattr_value q) (sint (setxattr_flags q)))) (\<lambda>_.
    sv_give (Ok EmptyResponse)))"

definition sv_listxattr :: "'s ServerStorage \<Rightarrow> ListxattrRequest \<Rightarrow> RpcMetadata \<Rightarrow> ('s, ListxattrResponse) sv_call" where
  "sv_listxattr st q m =
    at_path (listxattr_path q) (\<lambda>p.
    sv_bind (on_storage (st_listxattr (st_metadata st) p)) (\<lambda>names.
    sv_give (if listxattr_size q \<noteq> 0 \<and> encoded_xattr_name_size names > unat (listxattr_size q)
      then Err (FsError_new Range ''listxattr response exceeds requested buffer size'')
      else Ok \<lparr>listxattr_resp_names = names\<rparr>)))"

definition sv_removexattr :: "'s ServerStorage \<Rightarrow> RemovexattrRequest \<Rightarrow> RpcMetadata \<Rightarrow> ('s, EmptyResponse) sv_call" where
  "sv_removexattr st q m =
    at_path (removexattr_path q) (\<lambda>p.
    sv_bind (on_storage (st_removexattr (st_metadata st) p (removexattr_name q))) (\<lambda>_.
    sv_give (Ok EmptyResponse)))"

definition sv_readlink :: "'s ServerStorage \<Rightarrow> ReadlinkRequest \<Rightarrow> RpcMetadata \<Rightarrow> ('s, ReadlinkResponse) sv_call" where
  "sv_readlink st q m =
    at_path (readlink_path q) (\<lambda>p.
    sv_bind (sv_give (map_err fs_errno (normalize_path p))) (\<lambda>p.
    sv_bind (service_parent_search_allowed st p m) (\<lambda>_.
    sv_bind (on_storage (st_readlink (st_metadata st) p)) (\<lambda>target.
    sv_give (Ok \<lparr>readlink_resp_target = target\<rparr>)))))"

definition sv_setattr :: "'s ServerStorage \<Rightarrow> SetattrRequest \<Rightarrow> RpcMetadata \<Rightarrow> ('s, SetattrResponse) sv_call" where
  "sv_setattr st q m =
    at_path (setattr_path q) (\<lambda>p.
    sv_bind (on_storage (case setattr_handle q of
        Some handle \<Rightarrow> st_setattr_fh (st_runtime st) p handle (setattr_mode q) (setattr_uid q) (setattr_gid q)
          (setattr_size q) (caller_context m)
      | None \<Rightarrow> st_setattr (st_metadata st) p (setattr_mode q) (setattr_uid q) (setattr_gid q)
          (setattr_size q) (caller_context m))) (\<lambda>stat.
    sv_bind (attr_for_stat p stat) (\<lambda>attr. sv_give (Ok \<lparr>setattr_resp_attr = Some attr\<rparr>))))"

section \<open>Names\<close>

definition sv_create :: "'s ServerStorage \<Rightarrow> CreateRequest \<Rightarrow> RpcMetadata \<Rightarrow> ('s, CreateResponse) sv_call" where
  "sv_create st q m =
    at_path (create_path q) (\<lambda>p.
    sv_bind (on_storage (st_create_file (st_namespace st) p (create_mode q) (sint (create_flags q)) (caller_context m)))
      (\<lambda>(handle, stat).
    sv_bind (attr_for_stat p stat) (\<lambda>attr.
    sv_give (Ok \<lparr>create_resp_attr = Some attr, create_resp_handle = handle\<rparr>))))"

definition sv_rename :: "'s ServerStorage \<Rightarrow> RenameRequest \<Rightarrow> RpcMetadata \<Rightarrow> ('s, EmptyResponse) sv_call" where
  "sv_rename st q m =
    at_path (rename_old_path q) (\<lambda>old_path. at_path (rename_new_path q) (\<lambda>new_path.
    sv_bind (on_storage (st_rename (st_namespace st) old_path new_path (caller_context m))) (\<lambda>_.
    sv_bind (service_rename_inode_path old_path new_path) (\<lambda>_.
    sv_give (Ok EmptyResponse)))))"

definition sv_unlink :: "'s ServerStorage \<Rightarrow> UnlinkRequest \<Rightarrow> RpcMetadata \<Rightarrow> ('s, EmptyResponse) sv_call" where
  "sv_unlink st q m =
    at_path (unlink_path q) (\<lambda>p.
    sv_bind (on_storage (st_unlink (st_namespace st) p (caller_context m))) (\<lambda>_.
    sv_bind (service_remove_inode_path p) (\<lambda>_.
    sv_give (Ok EmptyResponse))))"

definition sv_mkdir :: "'s ServerStorage \<Rightarrow> MkdirRequest \<Rightarrow> RpcMetadata \<Rightarrow> ('s, LookupResponse) sv_call" where
  "sv_mkdir st q m =
    at_path (mkdir_path q) (\<lambda>p.
    sv_bind (on_storage (st_mkdir (st_namespace st) p (mkdir_mode q) (caller_context m))) (\<lambda>_.
    sv_bind (stat_attr st p) (\<lambda>attr. sv_give (Ok \<lparr>lookup_resp_attr = Some attr\<rparr>))))"

definition sv_rmdir :: "'s ServerStorage \<Rightarrow> RmdirRequest \<Rightarrow> RpcMetadata \<Rightarrow> ('s, EmptyResponse) sv_call" where
  "sv_rmdir st q m =
    at_path (rmdir_path q) (\<lambda>p.
    sv_bind (on_storage (st_rmdir (st_namespace st) p (caller_context m))) (\<lambda>_.
    sv_bind (service_remove_inode_path p) (\<lambda>_.
    sv_give (Ok EmptyResponse))))"

definition sv_symlink :: "'s ServerStorage \<Rightarrow> SymlinkRequest \<Rightarrow> RpcMetadata \<Rightarrow> ('s, SymlinkResponse) sv_call" where
  "sv_symlink st q m =
    at_path (symlink_path q) (\<lambda>p.
    sv_bind (on_storage (st_symlink (st_namespace st) p (symlink_target q) (caller_context m))) (\<lambda>_.
    sv_bind (stat_attr st p) (\<lambda>attr. sv_give (Ok \<lparr>symlink_resp_attr = Some attr\<rparr>))))"

definition sv_hardlink :: "'s ServerStorage \<Rightarrow> HardlinkRequest \<Rightarrow> RpcMetadata \<Rightarrow> ('s, HardlinkResponse) sv_call" where
  "sv_hardlink st q m =
    at_path (hardlink_existing_path q) (\<lambda>existing_path. at_path (hardlink_new_path q) (\<lambda>new_path.
    sv_bind (on_storage (st_link (st_namespace st) existing_path new_path (caller_context m))) (\<lambda>_.
    sv_bind (on_storage (st_stat (st_metadata st) existing_path)) (\<lambda>existing_stat.
    sv_bind (inode_for_stat existing_path existing_stat) (\<lambda>_.
    sv_bind (stat_attr st new_path) (\<lambda>attr.
    sv_give (Ok \<lparr>hardlink_resp_attr = Some attr\<rparr>)))))))"

section \<open>Open files\<close>

definition sv_open :: "'s ServerStorage \<Rightarrow> OpenRequest \<Rightarrow> RpcMetadata \<Rightarrow> ('s, OpenResponse) sv_call" where
  "sv_open st q m =
    at_path (open_path q) (\<lambda>p.
    sv_bind (sv_give (open_handle_kind (open_kind q))) (\<lambda>kind.
    sv_bind (on_storage (st_open (st_runtime st) p kind (sint (open_flags q)) (caller_context m))) (\<lambda>(handle, stat).
    sv_give (Ok \<lparr>open_resp_handle = handle, open_resp_flags = 0\<rparr>))))"

definition sv_read :: "'s ServerStorage \<Rightarrow> ReadRequest \<Rightarrow> RpcMetadata \<Rightarrow> ('s, ReadResponse) sv_call" where
  "sv_read st q m =
    at_path (read_path q) (\<lambda>p.
    sv_bind (on_storage (returned (st_read_fh (st_runtime st) p (read_handle q) (sint (read_offset q)) (uint (read_size q))
        (caller_context m)))) (\<lambda>data.
    sv_give (Ok \<lparr>read_resp_data = data\<rparr>)))"

definition sv_write :: "'s ServerStorage \<Rightarrow> WriteRequest \<Rightarrow> RpcMetadata \<Rightarrow> ('s, WriteResponse) sv_call" where
  "sv_write st q m =
    at_path (write_path q) (\<lambda>p.
    sv_bind (on_storage (st_write_fh (st_runtime st) p (write_handle q) (sint (write_offset q)) (write_data q)
        (caller_context m))) (\<lambda>bytes_written.
    sv_give (Ok \<lparr>write_resp_bytes_written = of_nat (min bytes_written (2 ^ 32 - 1))\<rparr>)))"

definition sv_release :: "'s ServerStorage \<Rightarrow> ReleaseRequest \<Rightarrow> RpcMetadata \<Rightarrow> ('s, EmptyResponse) sv_call" where
  "sv_release st q m s =
    (Ok EmptyResponse, s\<lparr>sv_storage := st_release_fh (st_runtime st) (release_handle q) (sv_storage s)\<rparr>)"

definition sv_flush :: "'s ServerStorage \<Rightarrow> FlushRequest \<Rightarrow> RpcMetadata \<Rightarrow> ('s, EmptyResponse) sv_call" where
  "sv_flush st q m =
    at_path (flush_path q) (\<lambda>p s.
      case st_sync_file_fh (st_runtime st) p (flush_handle q) True (sv_storage s) of (sync_result, t) \<Rightarrow>
      (case st_release_posix_locks (st_runtime st) p (flush_handle q) (flush_lock_owner q) t of (release_result, t) \<Rightarrow>
        (try_seq (map_err fs_errno sync_result) (try_seq (map_err fs_errno release_result) (Ok EmptyResponse)),
         s\<lparr>sv_storage := t\<rparr>)))"

definition sv_fsync :: "'s ServerStorage \<Rightarrow> FsyncRequest \<Rightarrow> RpcMetadata \<Rightarrow> ('s, EmptyResponse) sv_call" where
  "sv_fsync st q m =
    at_path (fsync_path q) (\<lambda>p.
    sv_bind (on_storage (st_sync_file_fh (st_runtime st) p (fsync_handle q) (fsync_datasync q))) (\<lambda>_.
    sv_give (Ok EmptyResponse)))"

definition sv_fsyncdir :: "'s ServerStorage \<Rightarrow> FsyncdirRequest \<Rightarrow> RpcMetadata \<Rightarrow> ('s, EmptyResponse) sv_call" where
  "sv_fsyncdir st q m =
    at_path (fsyncdir_path q) (\<lambda>p.
    sv_bind (on_storage (st_sync_dir_fh (st_runtime st) p (fsyncdir_handle q) (fsyncdir_datasync q))) (\<lambda>_.
    sv_give (Ok EmptyResponse)))"

definition sv_getlk :: "'s ServerStorage \<Rightarrow> GetlkRequest \<Rightarrow> RpcMetadata \<Rightarrow> ('s, GetlkResponse) sv_call" where
  "sv_getlk st q m =
    at_path (getlk_path q) (\<lambda>p.
    sv_bind (on_storage (st_getlk (st_runtime st) p (getlk_handle q) (getlk_owner q) (getlk_start q) (getlk_end q)
        (getlk_typ q))) (\<lambda>lock.
    sv_give (Ok \<lparr>getlk_resp_lock = map_option file_lock_to_proto lock\<rparr>)))"

definition sv_setlk :: "'s ServerStorage \<Rightarrow> SetlkRequest \<Rightarrow> RpcMetadata \<Rightarrow> ('s, EmptyResponse) sv_call" where
  "sv_setlk st q m =
    (if setlk_wait q \<and> setlk_typ q \<noteq> F_UNLCK
     then sv_give (Err (FsError_new NotSupported ''blocking POSIX locks are not supported''))
     else at_path (setlk_path q) (\<lambda>p.
       sv_bind (on_storage (st_setlk (st_runtime st) p (setlk_handle q) (setlk_owner q) (setlk_start q) (setlk_end q)
           (setlk_typ q) (setlk_pid q))) (\<lambda>_.
       sv_give (Ok EmptyResponse))))"

definition sv_flock :: "'s ServerStorage \<Rightarrow> FlockRequest \<Rightarrow> RpcMetadata \<Rightarrow> ('s, EmptyResponse) sv_call" where
  "sv_flock st q m =
    at_path (flock_path q) (\<lambda>p.
    sv_bind (on_storage (st_flock (st_runtime st) p (flock_handle q) (flock_owner q) (flock_operation q)
        (case md_caller m of None \<Rightarrow> 0 | Some c \<Rightarrow> caller_pid c))) (\<lambda>_.
    sv_give (Ok EmptyResponse)))"

definition sv_copy_file_range :: "'s ServerStorage \<Rightarrow> CopyFileRangeRequest \<Rightarrow> RpcMetadata
    \<Rightarrow> ('s, CopyFileRangeResponse) sv_call" where
  "sv_copy_file_range st q m =
    (if copyfilerange_flags q \<noteq> 0
     then sv_give (Err (FsError_new NotSupported ''copy_file_range flags are not supported''))
     else at_path (copyfilerange_input_path q) (\<lambda>input_path. at_path (copyfilerange_output_path q) (\<lambda>output_path.
       sv_bind (on_storage (returned (st_copy_file_range (st_runtime st) input_path output_path
           (copyfilerange_input_handle q) (copyfilerange_output_handle q) (copyfilerange_input_offset q)
           (copyfilerange_output_offset q) (copyfilerange_length q) (caller_context m)))) (\<lambda>bytes_copied.
       sv_give (Ok \<lparr>copyfilerange_resp_bytes_copied = bytes_copied\<rparr>)))))"

definition sv_fallocate :: "'s ServerStorage \<Rightarrow> FallocateRequest \<Rightarrow> RpcMetadata \<Rightarrow> ('s, EmptyResponse) sv_call" where
  "sv_fallocate st q m =
    (if fallocate_mode q \<noteq> 0
     then sv_give (Err (FsError_new NotSupported ''fallocate modes other than mode 0 are not supported''))
     else at_path (fallocate_path q) (\<lambda>p.
       sv_bind (on_storage (st_fallocate (st_runtime st) p (fallocate_handle q) (fallocate_offset q) (fallocate_length q)
           (fallocate_mode q))) (\<lambda>_.
       sv_give (Ok EmptyResponse))))"

definition sv_lseek :: "'s ServerStorage \<Rightarrow> LseekRequest \<Rightarrow> RpcMetadata \<Rightarrow> ('s, LseekResponse) sv_call" where
  "sv_lseek st q m =
    (if lseek_whence q = SEEK_DATA \<or> lseek_whence q = SEEK_HOLE
     then sv_give (Err (FsError_new NotSupported ''SEEK_DATA and SEEK_HOLE are not supported by the mounted backend''))
     else at_path (lseek_path q) (\<lambda>p.
       sv_bind (on_storage (st_lseek (st_runtime st) p (lseek_handle q) (lseek_offset q) (lseek_whence q))) (\<lambda>offset.
       sv_give (Ok \<lparr>lseek_resp_offset = offset\<rparr>))))"

definition fabricfs_service :: "'s ServerStorage \<Rightarrow> 's FabricFsFileSystemService FileSystemService" where
  "fabricfs_service st =
    \<lparr>svc_lookup = (\<lambda>s q m. sv_lookup st q m s), svc_getattr = (\<lambda>s q m. sv_getattr st q m s),
     svc_readdir = (\<lambda>s q m. sv_readdir st q m s), svc_open = (\<lambda>s q m. sv_open st q m s),
     svc_read = (\<lambda>s q m. sv_read st q m s), svc_write = (\<lambda>s q m. sv_write st q m s),
     svc_create = (\<lambda>s q m. sv_create st q m s), svc_rename = (\<lambda>s q m. sv_rename st q m s),
     svc_unlink = (\<lambda>s q m. sv_unlink st q m s), svc_mkdir = (\<lambda>s q m. sv_mkdir st q m s),
     svc_rmdir = (\<lambda>s q m. sv_rmdir st q m s), svc_statfs = (\<lambda>s q m. sv_statfs st q m s),
     svc_getxattr = (\<lambda>s q m. sv_getxattr st q m s), svc_setxattr = (\<lambda>s q m. sv_setxattr st q m s),
     svc_listxattr = (\<lambda>s q m. sv_listxattr st q m s), svc_removexattr = (\<lambda>s q m. sv_removexattr st q m s),
     svc_release = (\<lambda>s q m. sv_release st q m s), svc_readlink = (\<lambda>s q m. sv_readlink st q m s),
     svc_symlink = (\<lambda>s q m. sv_symlink st q m s), svc_hardlink = (\<lambda>s q m. sv_hardlink st q m s),
     svc_setattr = (\<lambda>s q m. sv_setattr st q m s), svc_flush = (\<lambda>s q m. sv_flush st q m s),
     svc_fsync = (\<lambda>s q m. sv_fsync st q m s), svc_fsyncdir = (\<lambda>s q m. sv_fsyncdir st q m s),
     svc_getlk = (\<lambda>s q m. sv_getlk st q m s), svc_setlk = (\<lambda>s q m. sv_setlk st q m s),
     svc_flock = (\<lambda>s q m. sv_flock st q m s), svc_copy_file_range = (\<lambda>s q m. sv_copy_file_range st q m s),
     svc_fallocate = (\<lambda>s q m. sv_fallocate st q m s), svc_lseek = (\<lambda>s q m. sv_lseek st q m s)\<rparr>"

section \<open>The handlers keep the invariants\<close>

definition service_ok :: "('s \<Rightarrow> bool) \<Rightarrow> 's FabricFsFileSystemService \<Rightarrow> bool" where
  "service_ok ok s \<longleftrightarrow> ok (sv_storage s) \<and> inode_map_ok (sv_inodes s)"

named_theorems service_keeps

lemma keeps_stateI: "(\<And>s. ok s \<Longrightarrow> ok (snd (m s))) \<Longrightarrow> keeps_state ok m"
  by (simp add: keeps_state_def)

lemma keeps_stateD: "keeps_state ok m \<Longrightarrow> ok s \<Longrightarrow> ok (snd (m s))"
  by (simp add: keeps_state_def)

lemma keeps_srv_bind: "keeps_state ok m \<Longrightarrow> (\<And>a. keeps_state ok (f a)) \<Longrightarrow> keeps_state ok (srv_bind m f)"
  by (force simp: keeps_state_def srv_bind_def split: prod.splits sum.splits)

lemma keeps_srv_give: "keeps_state ok (srv_give r)"
  by (simp add: keeps_state_def)

lemma keeps_search_each: "(\<And>p. keeps_state ok (f p)) \<Longrightarrow> keeps_state ok (search_each f cur ws)"
  by (induction ws arbitrary: cur) (auto simp: Let_def intro!: keeps_srv_bind keeps_srv_give)

lemma keeps_returned:
  assumes "\<And>t r t'. ok t \<Longrightarrow> m t = Some (r, t') \<Longrightarrow> ok t'"
  shows "keeps_state ok (returned m)"
  using assms by (force simp: keeps_state_def returned_def split: option.splits)

lemma keeps_sv_bind [service_keeps]:
  "keeps_state ok m \<Longrightarrow> (\<And>a. keeps_state ok (f a)) \<Longrightarrow> keeps_state ok (sv_bind m f)"
  by (force simp: keeps_state_def sv_bind_def split: prod.splits sum.splits)

lemma keeps_sv_give [service_keeps]: "keeps_state ok (sv_give r)"
  by (simp add: keeps_state_def sv_give_def)

lemma keeps_at_path [service_keeps]: "(\<And>p. keeps_state ok (f p)) \<Longrightarrow> keeps_state ok (at_path q f)"
  unfolding at_path_def by (intro service_keeps)

lemma at_path_Some: "at_path (Some p) f = f (dto_path p)"
  by (simp add: fun_eq_iff at_path_def request_path_def sv_bind_def sv_give_def)

lemma keeps_on_storage: "keeps_state ok m \<Longrightarrow> keeps_state (service_ok ok) (on_storage m)"
  by (auto simp: keeps_state_def service_ok_def on_storage_def case_prod_beta)

lemma keeps_inodes:
  assumes "\<And>M. inode_map_ok M \<Longrightarrow> inode_map_ok (snd (g M))"
  shows "keeps_state (service_ok ok) (sv_bind lock_inodes (\<lambda>M s. (fst (g M), s\<lparr>sv_inodes := snd (g M)\<rparr>)))"
  using assms by (auto simp: keeps_state_def service_ok_def sv_bind_def lock_inodes_def)

lemma keeps_inode_for_stat [service_keeps]: "keeps_state (service_ok ok) (inode_for_stat p stat)"
  using keeps_inodes [of "\<lambda>M. (Ok (fst (inode_for p (Some (identity_from_stat stat)) M)),
    snd (inode_for p (Some (identity_from_stat stat)) M))"]
  by (simp add: inode_for_stat_def inode_for_ok case_prod_beta)

lemma keeps_rename_inode_path:
  assumes "validate_rename_paths old_path new_path = Ok ()"
  shows "keeps_state (service_ok ok) (service_rename_inode_path old_path new_path)"
  using keeps_inodes [of "\<lambda>M. (Ok (), inode_rename_path old_path new_path M)"] rename_path_ok [OF _ assms]
  by (simp add: service_rename_inode_path_def)

lemma keeps_remove_inode_path [service_keeps]: "keeps_state (service_ok ok) (service_remove_inode_path p)"
  using keeps_inodes [of "\<lambda>M. (Ok (), inode_remove_path p M)"]
  by (simp add: service_remove_inode_path_def remove_path_ok)

lemma keeps_attr_for_stat [service_keeps]: "keeps_state (service_ok ok) (attr_for_stat p stat)"
  unfolding attr_for_stat_def by (intro service_keeps)

lemma keeps_directory_entries [service_keeps]: "keeps_state (service_ok ok) (directory_entries p entries)"
  by (induction p entries rule: directory_entries.induct) (auto intro!: service_keeps)

lemma keeps_state_prod [service_keeps]:
  "(\<And>a b. keeps_state ok (f a b)) \<Longrightarrow> keeps_state ok (case x of (a, b) \<Rightarrow> f a b)"
  by (cases x) simp

lemma keeps_state_if [service_keeps]:
  "keeps_state ok m \<Longrightarrow> keeps_state ok n \<Longrightarrow> keeps_state ok (if b then m else n)"
  by simp

context storage_invariant
begin

lemmas storage_keeps = mkdir_keeps unlink_keeps rmdir_keeps rename_keeps create_file_keeps link_keeps symlink_keeps
  readlink_keeps stat_keeps statfs_keeps setattr_keeps setxattr_keeps getxattr_keeps listxattr_keeps removexattr_keeps
  list_dir_keeps write_fh_keeps setattr_fh_keeps open_keeps sync_dir_fh_keeps sync_file_fh_keeps
  release_posix_locks_keeps getlk_keeps setlk_keeps flock_keeps fallocate_keeps lseek_keeps

lemmas call_keeps = storage_keeps [THEN keeps_on_storage]

lemma stat_attr_keeps: "keeps_state (service_ok ok) (stat_attr st p)"
  unfolding stat_attr_def by (intro service_keeps call_keeps)

lemma parent_search_keeps: "keeps_state (service_ok ok) (service_parent_search_allowed st p m)"
  unfolding service_parent_search_allowed_def ensure_parent_search_allowed_def
  by (intro service_keeps keeps_on_storage keeps_search_each keeps_srv_bind stat_keeps keeps_srv_give)

lemma handlers_keep:
  "keeps_state (service_ok ok) (sv_lookup st q1 m)" "keeps_state (service_ok ok) (sv_getattr st q2 m)"
  "keeps_state (service_ok ok) (sv_readdir st q3 m)" "keeps_state (service_ok ok) (sv_statfs st q4 m)"
  "keeps_state (service_ok ok) (sv_getxattr st q5 m)" "keeps_state (service_ok ok) (sv_setxattr st q6 m)"
  "keeps_state (service_ok ok) (sv_listxattr st q7 m)" "keeps_state (service_ok ok) (sv_removexattr st q8 m)"
  "keeps_state (service_ok ok) (sv_readlink st q9 m)" "keeps_state (service_ok ok) (sv_create st q10 m)"
  "keeps_state (service_ok ok) (sv_unlink st q11 m)" "keeps_state (service_ok ok) (sv_mkdir st q12 m)"
  "keeps_state (service_ok ok) (sv_rmdir st q13 m)" "keeps_state (service_ok ok) (sv_symlink st q14 m)"
  "keeps_state (service_ok ok) (sv_hardlink st q15 m)" "keeps_state (service_ok ok) (sv_open st q16 m)"
  "keeps_state (service_ok ok) (sv_write st q17 m)" "keeps_state (service_ok ok) (sv_fsync st q18 m)"
  "keeps_state (service_ok ok) (sv_fsyncdir st q19 m)" "keeps_state (service_ok ok) (sv_getlk st q20 m)"
  "keeps_state (service_ok ok) (sv_setlk st q21 m)" "keeps_state (service_ok ok) (sv_flock st q22 m)"
  "keeps_state (service_ok ok) (sv_fallocate st q23 m)" "keeps_state (service_ok ok) (sv_lseek st q24 m)"
  unfolding sv_lookup_def sv_getattr_def sv_readdir_def sv_statfs_def sv_getxattr_def sv_setxattr_def sv_listxattr_def
    sv_removexattr_def sv_readlink_def sv_create_def sv_unlink_def sv_mkdir_def sv_rmdir_def sv_symlink_def sv_hardlink_def
    sv_open_def sv_write_def sv_fsync_def sv_fsyncdir_def sv_getlk_def sv_setlk_def sv_flock_def sv_fallocate_def
    sv_lseek_def Let_def
  by (intro service_keeps call_keeps stat_attr_keeps parent_search_keeps)+

lemma setattr_handler_keeps: "keeps_state (service_ok ok) (sv_setattr st q m)"
  unfolding sv_setattr_def
  by (cases "setattr_handle q") (auto intro!: service_keeps call_keeps)

lemma loop_handlers_keep:
  "keeps_state (service_ok ok) (sv_read st q m)" "keeps_state (service_ok ok) (sv_copy_file_range st q' m)"
  unfolding sv_read_def sv_copy_file_range_def
  by (intro service_keeps keeps_on_storage keeps_returned, erule (1) read_fh_keeps)
    (intro service_keeps keeps_on_storage keeps_returned, erule (1) copy_file_range_keeps)

lemma release_handler_keeps: "keeps_state (service_ok ok) (sv_release st q m)"
  by (simp add: keeps_state_def service_ok_def sv_release_def release_fh_keeps)

lemma flush_handler_keeps: "keeps_state (service_ok ok) (sv_flush st q m)"
  unfolding sv_flush_def
  by (intro service_keeps keeps_stateI)
    (simp add: service_ok_def case_prod_beta keeps_stateD [OF sync_file_fh_keeps] keeps_stateD [OF release_posix_locks_keeps])

lemma rename_handler_keeps:
  assumes "validate_request_payload (Req_Rename q) = Ok ()"
  shows "keeps_state (service_ok ok) (sv_rename st q m)"
proof -
  obtain old new where p: "rename_old_path q = Some old" "rename_new_path q = Some new"
    "validate_rename_paths (dto_path old) (dto_path new) = Ok ()"
    using assms by (cases "rename_old_path q"; cases "rename_new_path q") (auto simp: required_path_value_def try_bind_def)
  show ?thesis
    unfolding sv_rename_def p at_path_Some by (intro service_keeps call_keeps keeps_rename_inode_path p)
qed

lemma call_handler_keeps:
  assumes "validate_request_payload payload = Ok ()"
  shows "keeps_state (service_ok ok) (\<lambda>s. call_handler (fabricfs_service st) s payload m)"
  using assms
  by (cases payload)
    (simp_all add: fabricfs_service_def keeps_state_def wrap_result_def
      handlers_keep [unfolded keeps_state_def, rule_format] setattr_handler_keeps [unfolded keeps_state_def, rule_format]
      loop_handlers_keep [unfolded keeps_state_def, rule_format] release_handler_keeps [unfolded keeps_state_def, rule_format]
      flush_handler_keeps [unfolded keeps_state_def, rule_format]
      rename_handler_keeps [unfolded keeps_state_def, rule_format])

end

text \<open>The service behind a dispatcher.\<close>

definition served :: "('s \<Rightarrow> bool) \<Rightarrow> 's ServerStorage \<Rightarrow> 's FabricFsFileSystemService Dispatcher \<Rightarrow> bool" where
  "served ok st d \<longleftrightarrow> disp_service d = fabricfs_service st \<and> service_ok ok (disp_state d)"

lemma invalidations_keep_state:
  "disp_state (snd (invalidations_for_success d request payload)) = disp_state d"
  "disp_service (snd (invalidations_for_success d request payload)) = disp_service d"
  by (simp_all add: invalidations_for_success_def next_invalidation_sequence_def Let_def split: option.split)

lemma dispatch_state:
  "disp_service (snd (dispatch now d request metadata)) = disp_service d"
  "disp_state (snd (dispatch now d request metadata)) =
    (if validate_before_handler now d request metadata = Ok ()
     then snd (call_handler (disp_service d) (disp_state d) (req_payload request) metadata) else disp_state d)"
  by (auto simp: dispatch_def Let_def case_prod_beta invalidations_keep_state split: sum.split)

context storage_invariant
begin

lemma dispatch_served: "served ok st d \<Longrightarrow> served ok st (snd (dispatch now d request metadata))"
  using keeps_stateD [OF call_handler_keeps, of "req_payload request" "disp_state d" metadata]
  by (auto simp: served_def dispatch_state validate_before_handler_ok dispatch_admitted_def validate_request_ok)

lemma abort_served: "served ok st d \<Longrightarrow> served ok st (snd (abort_response_handles d request metadata response))"
  using keeps_stateD [OF release_handler_keeps, of "disp_state d"]
  by (auto simp: served_def abort_response_handles_def case_prod_beta fabricfs_service_def split: option.split)

end

section \<open>What the handlers answer\<close>

lemma inode_for_numbers:
  assumes "inode_map_ok M"
  shows "hm_get (im_by_path (snd (inode_for p identity M))) (inode_normalize_path p) = Some (fst (inode_for p identity M))"
proof (cases "inode_normalize_path p = ''/''")
  case True
  then have "fst (inode_for p identity M) = 1" by (simp add: inode_for_def)
  with True assms show ?thesis by (simp add: inode_for_by_path inode_map_ok_def)
qed (simp add: inode_for_by_path)

lemma inode_for_extends:
  assumes "inode_map_ok M" "hm_get (im_by_path M) q = Some i"
  shows "hm_get (im_by_path (snd (inode_for p identity M))) q = Some i"
  using assms inode_for_cached [of M p i identity] by (auto simp: inode_for_by_path)

lemma inode_for_stat_Ok:
  assumes "\<not> sv_inodes_poisoned s"
  shows "inode_for_stat p stat s = (Ok (fst (inode_for p (Some (identity_from_stat stat)) (sv_inodes s))),
    s\<lparr>sv_inodes := snd (inode_for p (Some (identity_from_stat stat)) (sv_inodes s))\<rparr>)"
  using assms by (simp add: inode_for_stat_def sv_bind_def lock_inodes_def case_prod_beta)

lemma directory_entries_exact:
  assumes "\<not> sv_inodes_poisoned s" "inode_map_ok (sv_inodes s)"
  shows "\<exists>entries M. directory_entries p xs s = (Ok entries, s\<lparr>sv_inodes := M\<rparr>) \<and> inode_map_ok M
    \<and> map dirent_name entries = map fst xs
    \<and> (\<forall>q i. hm_get (im_by_path (sv_inodes s)) q = Some i \<longrightarrow> hm_get (im_by_path M) q = Some i)
    \<and> (\<forall>e \<in> set entries. hm_get (im_by_path M) (inode_normalize_path (service_child_path p (dirent_name e)))
        = Some (dirent_inode e))"
  using assms
proof (induction p xs arbitrary: s rule: directory_entries.induct)
  case (1 p)
  then show ?case by (intro exI [of _ "[]"] exI [of _ "sv_inodes s"]) (simp add: sv_give_def)
next
  case (2 p name stat xs)
  let ?x = "inode_for (service_child_path p name) (Some (identity_from_stat stat)) (sv_inodes s)"
  let ?s = "s\<lparr>sv_inodes := snd ?x\<rparr>"
  have "\<not> sv_inodes_poisoned ?s" "inode_map_ok (sv_inodes ?s)"
    using 2 by (simp_all add: inode_for_ok)
  from "2.IH" [OF this] obtain entries M where r: "directory_entries p xs ?s = (Ok entries, s\<lparr>sv_inodes := M\<rparr>)" "inode_map_ok M"
    "map dirent_name entries = map fst xs"
    "\<And>q i. hm_get (im_by_path (snd ?x)) q = Some i \<Longrightarrow> hm_get (im_by_path M) q = Some i"
    "\<forall>e \<in> set entries. hm_get (im_by_path M) (inode_normalize_path (service_child_path p (dirent_name e)))
        = Some (dirent_inode e)"
    by auto
  have "directory_entries p ((name, stat) # xs) s = (Ok (\<lparr>dirent_inode = fst ?x, dirent_name = name,
      dirent_kind = file_kind_value (stat_file_kind (st_mode stat))\<rparr> # entries), s\<lparr>sv_inodes := M\<rparr>)"
    using 2 r(1) by (simp add: sv_bind_def inode_for_stat_Ok sv_give_def)
  then show ?case
    using r(2,3,5) r(4) [OF inode_for_extends [OF "2.prems"(2)]] r(4) [OF inode_for_numbers [OF "2.prems"(2)]]
    by fastforce
qed

text \<open>
  C6: a page of a directory. When the storage lists the directory, the answer has the
  names of the listing from the requested offset on, as many as were asked for; it is
  marked as the last page exactly if the listing ends there; and the inode number of every
  entry is the one that a lookup of the entry then answers with.
\<close>

theorem readdir_page:
  assumes "readdir_path q = Some p" "st_list_dir (st_directories st) (dto_path p) (sv_storage s) = (Ok listed, t)"
    "\<not> sv_inodes_poisoned s" "inode_map_ok (sv_inodes s)"
  shows "\<exists>resp s'. sv_readdir st q m s = (Ok resp, s') \<and> sv_storage s' = t
    \<and> map dirent_name (readdir_resp_entries resp)
        = take (unat (readdir_max_entries q)) (drop (unat (readdir_offset q)) (map fst listed))
    \<and> readdir_resp_end resp = (length listed \<le> unat (readdir_offset q) + unat (readdir_max_entries q))
    \<and> (\<forall>e \<in> set (readdir_resp_entries resp). \<forall>identity.
        fst (inode_for (service_child_path (dto_path p) (dirent_name e)) identity (sv_inodes s')) = dirent_inode e)"
proof -
  let ?s = "s\<lparr>sv_storage := t\<rparr>"
  let ?xs = "take (unat (readdir_max_entries q)) (drop (unat (readdir_offset q)) listed)"
  have "\<not> sv_inodes_poisoned ?s" "inode_map_ok (sv_inodes ?s)" using assms by simp_all
  from directory_entries_exact [OF this, of "dto_path p" ?xs] obtain entries M where
    r: "directory_entries (dto_path p) ?xs ?s = (Ok entries, ?s\<lparr>sv_inodes := M\<rparr>)" "inode_map_ok M"
    "map dirent_name entries = map fst ?xs"
    "\<forall>e \<in> set entries. hm_get (im_by_path M) (inode_normalize_path (service_child_path (dto_path p) (dirent_name e)))
        = Some (dirent_inode e)"
    by blast
  have n: "length entries = length ?xs" using r(3) by (metis length_map)
  show ?thesis
    using assms(1,2) r inode_for_cached [OF r(2)] n
    by (simp add: sv_readdir_def at_path_Some sv_bind_def on_storage_def Let_def sv_give_def take_map drop_map
        min_def) linarith
qed

definition link_host :: "(unit, string list) host_fs" where
  "link_host = (list_host 511 (\<lambda>_. True))
    \<lparr>h_read_dir := (\<lambda>p w. Ok (map (\<lambda>q. Ok (drop 5 q)) w)), h_hard_link := (\<lambda>p q w. (Ok (), q # w)),
     h_metadata := (\<lambda>p w. Ok (dir_metadata 511)), h_lossy := id\<rparr>"

lemmas storage_fields = passthrough_storage_def passthrough_namespace_def passthrough_metadata_def ServerStorage.select_convs
  NamespaceStorage.select_convs MetadataStorage.select_convs DirectoryStorage.select_convs

definition link_service :: "(unit, string list) StorageRuntime FabricFsFileSystemService" where
  "link_service = service_new list_state"

theorem readdir_page_witness:
  "\<exists>resp. fst (sv_readdir (passthrough_storage link_host list_fs)
      \<lparr>readdir_path = Some (\<lparr>dto_path = ''/''\<rparr>), readdir_offset = 1, readdir_max_entries = 5\<rparr> sample_metadata link_service) = Ok resp
    \<and> map dirent_name (readdir_resp_entries resp) = [''b''] \<and> readdir_resp_end resp"
proof -
  let ?q = "\<lparr>readdir_path = Some (\<lparr>dto_path = ''/''\<rparr>), readdir_offset = 1, readdir_max_entries = 5\<rparr>"
  let ?st = "passthrough_storage link_host list_fs"
  have p: "readdir_path ?q = Some (\<lparr>dto_path = ''/''\<rparr>)" by simp
  let ?stat = "metadata_to_stat file_metadata"
  have l: "st_list_dir (st_directories ?st) (dto_path (\<lparr>dto_path = ''/''\<rparr>)) (sv_storage link_service)
      = (Ok [(''a'', ?stat), (''b'', ?stat)], list_state)"
    unfolding storage_fields by code_simp
  have s: "\<not> sv_inodes_poisoned link_service" "inode_map_ok (sv_inodes link_service)"
    by (simp_all add: link_service_def service_new_def inode_map_ok_new)
  from readdir_page [where st = ?st, OF p l s, of sample_metadata] show ?thesis by fastforce
qed

text \<open>
  C7: the answer to a hard link. When the storage makes the link and finds one file under
  both names, and the new name had no number, the attributes that are sent back have the
  inode number that lookups of the old name answer with from then on.
\<close>

theorem hardlink_shares_number:
  assumes "hardlink_existing_path q = Some p" "hardlink_new_path q = Some p'"
    "st_link (st_namespace st) (dto_path p) (dto_path p') (caller_context m) (sv_storage s) = (Ok (), t)"
    "st_stat (st_metadata st) (dto_path p) t = (Ok stat, t')" "st_stat (st_metadata st) (dto_path p') t' = (Ok stat', t'')"
    "identity_from_stat stat' = identity_from_stat stat"
    "valid_path (dto_path p)" "valid_path (dto_path p')" "dto_path p \<noteq> ''/''" "dto_path p' \<noteq> ''/''" "dto_path p' \<noteq> dto_path p"
    "hm_get (im_by_path (sv_inodes s)) (dto_path p') = None"
    "\<not> sv_inodes_poisoned s" "inode_map_ok (sv_inodes s)"
  shows "\<exists>attr s'. sv_hardlink st q m s = (Ok \<lparr>hardlink_resp_attr = Some attr\<rparr>, s')
    \<and> fst (inode_for (dto_path p) identity (sv_inodes s')) = attr_inode attr"
proof -
  let ?x = "Some (identity_from_stat stat)"
  define M where "M = snd (inode_for (dto_path p) ?x (sv_inodes s))"
  define i where "i = fst (inode_for (dto_path p) ?x (sv_inodes s))"
  have M: "inode_map_ok M" "hm_get (im_by_path M) (dto_path p) = Some i" "hm_get (im_by_path M) (dto_path p') = None"
    using assms inode_for_ok [OF assms(14)] inode_for_numbers [OF assms(14), of "dto_path p" ?x]
    by (simp_all add: M_def i_def inode_for_by_path inode_normalize_valid)
  have "hm_get (im_by_identity M) (identity_from_stat stat) = Some i"
    using assms by (auto simp: M_def i_def inode_for_def inode_normalize_valid Let_def set_path_identity_def allocate_inode_def
        split: option.split)
  then have i: "fst (inode_for (dto_path p') ?x M) = i"
    using assms M(3) by (simp add: inode_for_def inode_normalize_valid Let_def)
  have "fst (inode_for (dto_path p) identity (snd (inode_for (dto_path p') ?x M))) = i"
    using inode_for_cached [OF inode_for_ok [OF M(1)]] inode_for_extends [OF M(1,2)] assms by (simp add: inode_normalize_valid)
  with i show ?thesis
    using assms by (simp add: sv_hardlink_def at_path_Some sv_bind_def on_storage_def inode_for_stat_Ok stat_attr_def
        attr_for_stat_def sv_give_def M_def stat_to_attr_def)
qed

definition link_request :: HardlinkRequest where
  "link_request =
    \<lparr>hardlink_existing_path = Some \<lparr>dto_path = ''/a''\<rparr>, hardlink_new_path = Some \<lparr>dto_path = ''/c''\<rparr>\<rparr>"

definition link_metadata_of :: RpcMetadata where
  "link_metadata_of = sample_metadata\<lparr>md_caller := Some \<lparr>caller_uid = 7, caller_gid = 7, caller_pid = 1\<rparr>\<rparr>"

theorem hardlink_shares_number_witness:
  "\<exists>attr s'. sv_hardlink (passthrough_storage link_host list_fs) link_request link_metadata_of link_service
      = (Ok \<lparr>hardlink_resp_attr = Some attr\<rparr>, s')
    \<and> fst (inode_for ''/a'' None (sv_inodes s')) = attr_inode attr"
proof -
  let ?st = "passthrough_storage link_host list_fs"
  let ?p = "\<lparr>dto_path = ''/a''\<rparr>" and ?p' = "\<lparr>dto_path = ''/c''\<rparr>"
  let ?t = "list_state\<lparr>sr_world := [''/srv/c'', ''/srv/a'', ''/srv/b'']\<rparr>"
  have p: "hardlink_existing_path link_request = Some ?p" "hardlink_new_path link_request = Some ?p'"
    by (simp_all add: link_request_def)
  have l: "st_link (st_namespace ?st) (dto_path ?p) (dto_path ?p') (caller_context link_metadata_of) (sv_storage link_service)
      = (Ok (), ?t)" unfolding storage_fields by code_simp
  have st: "st_stat (st_metadata ?st) (dto_path ?p) ?t = (Ok (metadata_to_stat file_metadata), ?t)"
    "st_stat (st_metadata ?st) (dto_path ?p') ?t = (Ok (metadata_to_stat file_metadata), ?t)"
    unfolding storage_fields by code_simp+
  have v: "valid_path (dto_path ?p)" "valid_path (dto_path ?p')" "dto_path ?p \<noteq> ''/''" "dto_path ?p' \<noteq> ''/''"
    "dto_path ?p' \<noteq> dto_path ?p" by code_simp+
  have s: "hm_get (im_by_path (sv_inodes link_service)) (dto_path ?p') = None" "\<not> sv_inodes_poisoned link_service"
    "inode_map_ok (sv_inodes link_service)"
    by (simp_all add: link_service_def service_new_def inode_map_ok_new) (simp add: InodeMap_new_def)
  from hardlink_shares_number [where st = ?st, OF p l st refl v s, of None] show ?thesis by simp
qed

end
