(* ===== verification/ServiceRequests.thy ===== *)
theory ServiceRequests
  imports FileService LocalTransport
begin

text \<open>
  Whole requests of the file service behind a dispatcher: a request that a passthrough
  storage serves stays inside the root of the storage, and the answer does not depend on the
  length of the frame that carried the request.
\<close>

section \<open>Requests stay inside the root\<close>

lemma normal_valid: "valid_path p \<Longrightarrow> normal p = p"
  using valid_path_components [of p] good_plain normal_names_render [of "path_components p"] by metis

lemma normal_non_root: "valid_non_root p \<Longrightarrow> normal p \<noteq> ''/''"
  by (simp add: valid_non_root_iff normal_valid)

lemma confine_handlers:
  fixes h :: "('f, 'w) host_fs"
  assumes "pf_root fs \<noteq> []" "plain_dir_names h" "validate_request_payload payload = Ok ()"
  shows "call_handler (fabricfs_service (passthrough_storage (confine (pf_root fs) h) fs)) s payload m
    = call_handler (fabricfs_service (passthrough_storage h fs)) s payload m"
proof -
  note same = confine_storage [OF assms(1,2)]
  have attr: "stat_attr (passthrough_storage (confine (pf_root fs) h) fs) = stat_attr (passthrough_storage h fs)"
    "service_parent_search_allowed (passthrough_storage (confine (pf_root fs) h) fs)
      = service_parent_search_allowed (passthrough_storage h fs)"
    unfolding fun_eq_iff stat_attr_def service_parent_search_allowed_def same by (rule allI refl)+
  note handlers = sv_lookup_def sv_getattr_def sv_readdir_def sv_open_def sv_read_def sv_write_def sv_unlink_def sv_mkdir_def
    sv_rmdir_def sv_statfs_def sv_getxattr_def sv_setxattr_def sv_listxattr_def sv_removexattr_def sv_release_def
    sv_readlink_def sv_hardlink_def sv_setattr_def sv_flush_def sv_fsync_def sv_fsyncdir_def sv_getlk_def sv_setlk_def
    sv_flock_def sv_copy_file_range_def sv_fallocate_def sv_lseek_def
  note away = confine_storage_parents [OF assms(1) normal_non_root]
  show ?thesis
    using assms(3)
  proof (cases payload)
    case (Req_Create q)
    with assms(3) obtain p where "create_path q = Some p" "valid_non_root (dto_path p)"
      by (auto simp: non_root_path_field_ok)
    with Req_Create show ?thesis
      by (simp add: fabricfs_service_def sv_create_def at_path_Some away(2))
  next
    case (Req_Symlink q)
    with assms(3) obtain p where "symlink_path q = Some p" "valid_non_root (dto_path p)"
      by (auto simp: non_root_path_field_ok ok_iffs)
    with Req_Symlink show ?thesis
      by (simp add: fabricfs_service_def sv_symlink_def at_path_Some away(3) attr)
  next
    case (Req_Rename q)
    with assms(3) obtain old new where "rename_old_path q = Some old" "rename_new_path q = Some new"
      "validate_rename_paths (dto_path old) (dto_path new) = Ok ()"
      by (cases "rename_old_path q"; cases "rename_new_path q") (auto simp: required_path_value_def try_bind_def)
    moreover from this(3) have "valid_non_root (dto_path new)" by (simp add: validate_rename_paths_def ok_iffs)
    ultimately show ?thesis
      using Req_Rename by (simp add: fabricfs_service_def sv_rename_def at_path_Some away(1))
  qed (simp_all add: fabricfs_service_def handlers same attr cong: option.case_cong)
qed

lemma invalidations_other_service:
  "invalidations_for_success (d\<lparr>disp_service := svc\<rparr>) request payload
    = (case invalidations_for_success d request payload of (is, d') \<Rightarrow> (is, d'\<lparr>disp_service := svc\<rparr>))"
  by (simp add: invalidations_for_success_def next_invalidation_sequence_def Let_def split: option.split prod.split)

text \<open>A service that handles valid requests in the same way is the same to a dispatcher.\<close>

lemma dispatch_other_service:
  assumes "\<And>s payload. validate_request_payload payload = Ok () \<Longrightarrow>
    call_handler svc s payload m = call_handler (disp_service d) s payload m"
  shows "dispatch now (d\<lparr>disp_service := svc\<rparr>) request m
    = (case dispatch now d request m of (response, d') \<Rightarrow> (response, d'\<lparr>disp_service := svc\<rparr>))"
proof -
  have same_checks: "validate_before_handler now (d\<lparr>disp_service := svc\<rparr>) request m = validate_before_handler now d request m"
    by (simp add: validate_before_handler_def)
  show ?thesis
  proof (cases "validate_before_handler now d request m")
    case (Inl e)
    then show ?thesis by (simp add: dispatch_def same_checks)
  next
    case (Inr u)
    then have "validate_request_payload (req_payload request) = Ok ()"
      by (simp add: validate_before_handler_ok dispatch_admitted_def validate_request_ok)
    note same = assms [OF this]
    have swap: "d\<lparr>disp_service := svc, disp_state := t\<rparr> = d\<lparr>disp_state := t\<rparr>\<lparr>disp_service := svc\<rparr>" for t
      by simp
    obtain r t where r: "call_handler (disp_service d) (disp_state d) (req_payload request) m = (r, t)" by fastforce
    show ?thesis
      using invalidations_other_service [of svc "d\<lparr>disp_state := t\<rparr>" request]
      by (simp add: dispatch_def same_checks Inr same r Let_def swap split: prod.split sum.split)
  qed
qed

text \<open>
  C3: the requests to a passthrough storage stay inside its root. The storage has been
  opened on a host whose directories list single names. Then a dispatcher answers any
  request in any state with the same response, and ends in the same state, when the host refuses each
  path that is not the root or below it: what a request makes the server ask of the host is
  always inside the root. Paths with dots, doubled separators or a separator at the end are no
  exception. Symbolic links that the host itself follows are outside this statement.
\<close>

theorem requests_confined:
  assumes "PassthroughFs_new h root options w = Ok (fs, s)" "plain_dir_names h"
    "disp_service d = fabricfs_service (passthrough_storage h fs)"
  shows "dispatch now (d\<lparr>disp_service := fabricfs_service (passthrough_storage (confine (pf_root fs) h) fs)\<rparr>) request m
    = (case dispatch now d request m of (response, d') \<Rightarrow>
        (response, d'\<lparr>disp_service := fabricfs_service (passthrough_storage (confine (pf_root fs) h) fs)\<rparr>))"
  by (rule dispatch_other_service)
    (simp only: assms(3) confine_handlers [OF opened_root [OF assms(1)] assms(2)])

theorem requests_confined_witness:
  "dispatch 0 (Dispatcher_new (fabricfs_service (passthrough_storage (confine ''/srv'' sample_tree) sample_root))
      (service_new sample_start)) sample_remote_unlink
      (RpcMetadata_for_request 0 sample_remote_unlink 1)
    = (case dispatch 0 (Dispatcher_new (fabricfs_service (passthrough_storage sample_tree sample_root))
        (service_new sample_start)) sample_remote_unlink
        (RpcMetadata_for_request 0 sample_remote_unlink 1) of (response, d') \<Rightarrow>
        (response, d'\<lparr>disp_service := fabricfs_service (passthrough_storage (confine ''/srv'' sample_tree) sample_root)\<rparr>))"
  using requests_confined [OF sample_tree_new sample_tree_names,
      of "Dispatcher_new (fabricfs_service (passthrough_storage sample_tree sample_root)) (service_new sample_start)"]
  by (simp add: Dispatcher_new_def with_authorizer_def sample_root_def)

section \<open>Frame lengths\<close>

text \<open>The handlers read the caller of a request and nothing else of its metadata.\<close>

lemma fabricfs_service_ignores_length:
  assumes "disp_service d = fabricfs_service st" "disp_authorizer d = AllowAll_authorize"
  shows "ignores_length d"
proof -
  have m: "caller_context (m\<lparr>md_payload_len := n\<rparr>) = caller_context m" for m n
    by (simp add: caller_context_def)
  have "call_handler (fabricfs_service st) s payload (m\<lparr>md_payload_len := n\<rparr>)
      = call_handler (fabricfs_service st) s payload m" for s payload m n
    by (cases payload) (simp_all add: fabricfs_service_def m sv_lookup_def sv_getattr_def sv_readdir_def sv_open_def
        sv_read_def sv_write_def sv_create_def sv_rename_def sv_unlink_def sv_mkdir_def sv_rmdir_def sv_statfs_def
        sv_getxattr_def sv_setxattr_def sv_listxattr_def sv_removexattr_def sv_release_def sv_readlink_def sv_symlink_def
        sv_hardlink_def sv_setattr_def sv_flush_def sv_fsync_def sv_fsyncdir_def sv_getlk_def sv_setlk_def sv_flock_def
        sv_copy_file_range_def sv_fallocate_def sv_lseek_def service_parent_search_allowed_def cong: option.case_cong)
  then show ?thesis
    using assms by (simp add: ignores_length_def AllowAll_authorize_def)
qed

end
