(* ===== verification/Spec2Isabelle.thy ===== *)
theory Spec2Isabelle
  imports FuseAdapterCalls LocalTransport ServiceRequests
begin

text \<open>
  A verification library for fabric-fs, a file system that is served over remote calls.

  \<^bold>\<open>The program.\<close> A kernel file-system call reaches the adapter of \<open>fs-fuse\<close>, which
  finds the paths it needs in a cache of paths and inodes, sends a request envelope through a
  client, checks the answer and applies the invalidations in it. The client hands the request
  to a dispatcher (\<open>fs-core\<close>), in process or encoded (\<open>fs-transport-local\<close>); the dispatcher
  validates it, calls the handler of a file-system service, validates what the handler answers
  and adds the invalidations with their sequence numbers. The service of \<open>fabricfs-server\<close>
  translates requests for a storage, numbers inodes, and runs them on a directory of the host
  through a table of open handles, a table of byte-range locks and one of whole-file locks.
  \<open>fs-protocol\<close> has the vocabulary: operations and their table of facts, messages,
  validation, envelopes and their codec.

  \<^bold>\<open>The theories and the code.\<close> Definitions keep the names of the code where they can; a
  prefix tells apart what several types of the code call alike.
  \<^item> \<open>FabricPrelude\<close>: results (\<open>Ok\<close> and \<open>Err\<close> for the two sides of a sum), the
    standard library's strings, hash maps, ordered sets and saturating arithmetic, with the
    locales \<open>map_store\<close> and \<open>ordered_set\<close>.
  \<^item> \<open>FsOperation\<close>, \<open>FsMessages\<close>, \<open>FsPath\<close>, \<open>FsValidation\<close>, \<open>FsEnvelope\<close>,
    \<open>FsCodec\<close>: the crate \<open>fs-protocol\<close>, file by file. The generated protobuf codec of
    each message is a parameter.
  \<^item> \<open>FsCore\<close>: \<open>fs-core/src/lib.rs\<close>, the dispatcher over any service. The state of the
    service, the authorizer and the clock are arguments.
  \<^item> \<open>LocalTransport\<close>: \<open>fs-transport-local/src/lib.rs\<close>.
  \<^item> \<open>FuseCache\<close>, \<open>FuseCacheRefinement\<close>: \<open>fs-fuse/src/cache.rs\<close>; \<open>FuseAdapter\<close>,
    \<open>FuseAdapterCalls\<close>: \<open>fs-fuse/src/lib.rs\<close>; \<open>CacheCoherence\<close>: the cache and the
    dispatcher together.
  \<^item> \<open>ServerLocks\<close>, \<open>ServerAccess\<close>, \<open>ServerPaths\<close>, \<open>ServerByteIo\<close>: the files of
    \<open>fabricfs-server/src/server/\<close> and the types of \<open>server.rs\<close>; \<open>ServerHost\<close>: the host
    as a record of the calls of \<open>std::fs\<close> and \<open>libc\<close> that the code makes.
  \<^item> \<open>StorageRuntime\<close>: \<open>storage_runtime.rs\<close> and \<open>runtime_state.rs\<close>; \<open>InodeMap\<close>:
    \<open>service/inode_map.rs\<close>.
  \<^item> \<open>Passthrough\<close>, \<open>PassthroughConfinement\<close>, \<open>PassthroughAccess\<close>: \<open>root.rs\<close>,
    \<open>passthrough.rs\<close> and the storage traits of \<open>server.rs\<close>; \<open>FileService\<close>:
    \<open>service.rs\<close> and \<open>service/translation.rs\<close>; \<open>ServiceRequests\<close>: whole requests
    through the dispatcher and this service.
  \<^item> This theory: the parts together, from the file-system call to the host.

  \<^bold>\<open>State and effects.\<close> A struct is a record and an enum a datatype. A method that changes
  its receiver returns the new state; an error is the left side of a sum and carries the state
  as far as the call got. A mutex is the value behind it and, where a panic can poison it, a
  flag. Integers have their width where overflow matters: \<open>u64\<close> and \<open>u32\<close> are words,
  \<open>i64\<close> is an integer with its casts written out, \<open>usize\<close> is a natural number. Nothing is
  assumed of the host but in the theorems on byte transfers, which name what they need.

  \<^bold>\<open>What is shown.\<close>
  \<^item> End to end: a file system mounted in process never goes stale
    (\<open>mounted_never_stale\<close>); over a directory of the host, every sequence of calls keeps the
    cache in step with the server and the tables of the server sound
    (\<open>host_mount_invariant\<close>); a rename moves an open handle alike on both sides
    (\<open>rename_handles_in_step\<close>). The locale \<open>dispatch_invariant\<close> carries these from a
    property of dispatchers to the locale \<open>adapter_invariant\<close> of the adapter's calls.
  \<^item> The adapter: a mutation is settled or the cache is poisoned; the cache is well formed
    whatever the client answers; releases forget their handle; copies report exact counts.
  \<^item> The cache: inverse maps and sound lookup counts in every reachable state; invalidations
    refine an abstract tree of paths; gaps poison, and poison lasts until a full resync, with
    every query refused but those that the path retained for an open handle answers.
  \<^item> The dispatcher: only requests that passed every guard reach a handler; answers are
    valid; invalidations are those the operation calls for, numbered without gaps; recovery of
    a poisoned sequence map; release of handles whose answer was not delivered.
  \<^item> The protocol: what validation accepts, round trips of requests and responses, and that a
    serialized call has the result of a direct one as long as its frame is within the envelope
    limit of the dispatcher, to which direct calls are not held
    (\<open>serialized_call_transparent\<close>, \<open>fabricfs_service_ignores_length\<close>).
  \<^item> The server: per-byte meaning and exclusion of locks, exact and terminating reads and
    copies, fresh handles, freed handles, stable and shared inode numbers, pages of
    directories; no request makes the passthrough storage name a host path outside its root
    (\<open>requests_confined\<close>), and names change only for callers whom the permissions of the
    directories allow it, with the sticky bits of both directories of a rename
    (\<open>names_change_with_permission\<close>). The locale \<open>storage_invariant\<close> states what the service needs of
    a storage, and is interpreted on the passthrough storage.

  \<^bold>\<open>Loops and bounds.\<close> Recursion is structural or has a termination proof, except for the
  loops of \<open>server/byte_io.rs\<close>, which a host that always answers \<open>EINTR\<close> or one byte short
  keeps alive: they are partial functions, \<^term>\<open>None\<close> is not returning, and
  \<open>copy_file_range_exact\<close> and \<open>read_handle_exact\<close> show that they return on a host that
  interrupts finitely often. A handler gives a read or copy that does not return the answer
  \<open>EIO\<close> (\<open>returned\<close> in \<open>FileService\<close>), because a dispatcher needs an answer; the two
  theorems show that this branch is not taken on such a host.

  \<^bold>\<open>Not modelled.\<close>
  \<^item> \<open>fabricfs-fuse\<close>, \<open>fabricfs-transport\<close>, \<open>worker_pool.rs\<close>, \<open>main.rs\<close> and the other
    binaries: threads, channels, sockets, NATS and the kernel's FUSE protocol, through
    libraries that are not part of the source.
  \<^item> \<open>overlay/\<close>: the storage with copy-on-write, tombstones and stored attributes. It
    satisfies the same traits; its reads and writes of host trees go beyond the host calls
    modelled here.
  \<^item> \<open>session_service.rs\<close>, \<open>session_storage.rs\<close>, \<open>published_store.rs\<close> and the session
    protocol: JSON files, archives and hashing through serde and other libraries.
  \<^item> \<open>watch/\<close>: events of the \<open>notify\<close> library, timers and threads.
  \<^item> Tracing spans, metrics snapshots and the latency histogram; authentication tokens; test
    kits.
  \<^item> Symbolic links that the host follows while it resolves a path under the root: the
    theorem on confinement is about the paths the server names. It is about requests: a
    direct call of the storage that renames to the root, or creates a file or a link there,
    asks the host to create the directory that holds the root, and validation keeps such
    requests out.
\<close>

section \<open>A file system mounted in process\<close>

text \<open>
  The adapter over the local client in direct mode. The readings of the clock at
  each call are arbitrary functions of the number of calls made.
\<close>

definition local_rpc :: "wire_codecs \<Rightarrow> (nat \<Rightarrow> u64) \<Rightarrow> (nat \<Rightarrow> u64) \<Rightarrow> ('s LocalClient \<times> nat) RpcClient" where
  "local_rpc cs received now =
    \<lparr>rpc_call = (\<lambda>request (c, n).
       case local_call cs (received n) (now n) c request of (r, c') \<Rightarrow> (r, (c', Suc n))),
     rpc_drain_invalidations = (\<lambda>namespace (c, n). (local_drain_invalidations c namespace, (c, n)))\<rparr>"

text \<open>The adapter is in step with a dispatcher of which some property holds.\<close>

definition mounted :: "('s Dispatcher \<Rightarrow> bool) \<Rightarrow> ('s LocalClient \<times> nat) FuseAdapter \<Rightarrow> bool" where
  "mounted P a \<longleftrightarrow> lc_connected (fst (fa_client a)) \<and> lc_mode (fst (fa_client a)) = Direct
    \<and> coherent (fa_namespace a) (lc_dispatcher (fst (fa_client a))) (fa_cache a)
    \<and> P (lc_dispatcher (fst (fa_client a)))"

lemma mounted_cache:
  assumes "mounted P a"
  shows "lock_cache (fa_cache a) = fa_cache a" "lock_handles (fa_cache a) = fa_cache a"
    "\<not> pc_poisoned (ck_cache (fa_cache a))" "kernel_healthy (fa_cache a)"
  using assms by (simp_all add: mounted_def coherent_def)

lemma mounted_update:
  assumes "\<And>k. kernel_step k (f k)"
    "\<And>k. kernel_healthy k \<Longrightarrow> ck_cache_lock_poisoned (f k) = ck_cache_lock_poisoned k"
    "\<And>k. kernel_healthy k \<Longrightarrow> ck_handles_lock_poisoned (f k) = ck_handles_lock_poisoned k"
    "\<And>k. kernel_healthy k \<Longrightarrow> pc_poisoned (ck_cache (f k)) = pc_poisoned (ck_cache k)"
    "\<And>k. kernel_healthy k \<Longrightarrow> last_sequence (ck_cache (f k)) = last_sequence (ck_cache k)"
  shows "keeps (mounted P) (update_kernel f) (\<lambda>_. True)"
proof -
  have "kernel_healthy (f k)" if "kernel_healthy k" for k
    using assms(2,3) [OF that] kernel_step_wf [OF assms(1)] that by (simp add: kernel_healthy_def)
  then show ?thesis
    by (intro keepsI) (simp_all add: update_kernel_def mounted_def coherent_def assms(4,5))
qed

lemma mounted_drain: "mounted P a \<Longrightarrow> drain_remote_invalidations (local_rpc cs received now) a
    = (Ok (), (bump (invalidation_drains_total_update (\<lambda>n. n + 1)) a)\<lparr>fa_client := fa_client a\<rparr>)"
  by (auto simp: drain_remote_invalidations_def local_rpc_def local_drain_invalidations_def
      mounted_def ensure_connected_def Let_def case_prod_beta)

lemma apply_answer_invalidations:
  assumes c: "coherent namespace d k" and r: "dispatch now d request metadata = (response, d')"
    and a: "fa_cache a = k" "fa_namespace a = namespace"
  shows "apply_response_invalidations (resp_invalidations response) a =
    (Ok (), a\<lparr>fa_cache := apply_answer namespace response k\<rparr>)"
proof -
  have h: "\<not> disp_poisoned d" using c by (simp add: coherent_def)
  from h r show ?thesis
  proof (cases rule: dispatch_answer_cases)
    case quiet
    then show ?thesis using a by (simp add: give_def apply_answer_def)
  next
    case (reported kind i)
    have "\<exists>x. fst (apply_invalidation namespace i False k) = Ok x"
    proof (cases "inv_namespace i = namespace")
      case True
      with c reported(5) have "kind = Inv_FullResync \<or> inv_sequence i = last_sequence (ck_cache k) + 1"
        by (simp add: coherent_def)
      from apply_next_invalidation [OF _ True reported(4,2) this, of False] c
      show ?thesis by (simp add: coherent_def case_prod_beta)
    next
      case False
      with reported(4) show ?thesis
        by (auto simp: apply_invalidation_def validate_invalidation_def)
    qed
    then show ?thesis using a reported(1)
      by (auto simp: and_then_def give_def apply_success_response_invalidation_def with_kernel_def
          kernel_apply_success_response_invalidation_def apply_answer_single split: prod.splits)
  qed
qed

lemma accept_answer_coherent:
  assumes c: "coherent namespace d k" and r: "dispatch now d request metadata = (response, d')"
    and v: "validate_request request = Ok ()"
    and a: "fa_cache a = k" "fa_namespace a = namespace"
  shows "coherent namespace d' (fa_cache (snd (accept_response request response a)))
    \<and> fa_namespace (snd (accept_response request response a)) = namespace
    \<and> fa_client (snd (accept_response request response a)) = fa_client a"
proof -
  have "validate_for_request response request = Ok ()"
    using dispatch_valid_aux [of now d request metadata] r v by simp
  then have ok: "validate_for_request response request = Ok ()"
    "validate_identity_and_payload_for_request response request = Ok ()"
    by (simp_all add: validate_for_request_def ok_iffs)
  note next_state = apply_answer_coherent [OF c r]
  show ?thesis
  proof (cases "resp_ok response")
    case True
    have "kernel_require_covering_path_invalidation request response k' = (Ok (), k')" for k'
      using dispatch_covers_aux [of request now d metadata k'] r by simp
    then show ?thesis
      using True ok next_state a apply_answer_invalidations [OF c r a]
      by (simp add: accept_response_def and_then_def require_covering_path_invalidation_def give_def)
  next
    case False
    with r dispatch_failure_quiet [of now d request metadata] have "resp_invalidations response = []"
      by simp
    with False ok next_state a show ?thesis
      by (simp add: accept_response_def apply_answer_def)
  qed
qed

lemma mounted_admitted: "mounted P a \<Longrightarrow> mounted P (admitted healthy a)"
  using mounted_cache(1) [of P a] by (simp add: mounted_def)

lemma lookup_sequence:
  "last_sequence (cache_insert_lookup c p i n) = last_sequence c"
  "last_sequence (cache_forget c i n) = last_sequence c"
  by (auto simp: cache_insert_lookup_def add_lookup_def cache_forget_def remove_inode_def
      split: option.splits)

text \<open>A property of a dispatcher that every request it dispatches keeps.\<close>

locale dispatch_invariant =
  fixes P :: "'s Dispatcher \<Rightarrow> bool"
  assumes dispatch_keeps: "P d \<Longrightarrow> P (snd (dispatch now d request metadata))"
begin

lemma mounted_send: "keeps (mounted P) (send_request (local_rpc cs received now) payload) (\<lambda>_. True)"
proof (rule keepsI)
  fix a :: "('s LocalClient \<times> nat) FuseAdapter" assume m: "mounted P a"
  let ?new = "RequestEnvelope_new (''fuse-'' @ show_nat (unat (fa_next_request_id a)))
    (fa_namespace a) 0 TraceContext_default payload"
  obtain c n where cn: "fa_client a = (c, n)" by fastforce
  show "mounted P (snd (send_request (local_rpc cs received now) payload a))"
  proof (cases ?new)
    case (Inl e)
    with m show ?thesis by (simp add: send_request_def mounted_def)
  next
    case (Inr request)
    let ?request = "request\<lparr>req_caller := fa_caller a\<rparr>"
    have v: "validate_request ?request = Ok ()"
      using RequestEnvelope_new_valid [OF Inr] by (simp add: validate_request_ok)
    obtain response d' where d: "dispatch (now n) (lc_dispatcher c) ?request
        (RpcMetadata_for_request (received n) ?request 0) = (response, d')" by fastforce
    let ?a = "a\<lparr>fa_next_request_id := fa_next_request_id a + 1,
      fa_client := (c\<lparr>lc_dispatcher := d'\<rparr>, Suc n)\<rparr>"
    have s: "send_request (local_rpc cs received now) payload a = accept_response ?request response ?a"
      using m cn Inr d by (simp add: send_request_def Let_def local_rpc_def local_call_def mounted_def
          call_direct_def ensure_connected_def)
    have c: "coherent (fa_namespace a) (lc_dispatcher c) (fa_cache a)"
      using m cn by (simp add: mounted_def)
    have p: "P d'" using dispatch_keeps [of "lc_dispatcher c" "now n" ?request "RpcMetadata_for_request (received n) ?request 0"] m cn d
      by (simp add: mounted_def)
    from accept_answer_coherent [OF c d v, of ?a] m cn p show ?thesis
      unfolding s by (simp add: mounted_def)
  qed
qed simp

end

sublocale dispatch_invariant \<subseteq> mount: adapter_invariant "local_rpc cs received now" "mounted P"
  for cs :: wire_codecs and received now :: "nat \<Rightarrow> u64"
proof
  show "keeps (mounted P) (drain_remote_invalidations (local_rpc cs received now)) (\<lambda>_. True)"
    by (rule keepsI) (simp_all add: mounted_drain mounted_def)
  show "keeps (mounted P) (call_with_cache_policy (local_rpc cs received now) payload healthy False) (\<lambda>_. True)"
    for payload healthy
    by (rule keepsI)
      (simp_all add: policy_no_drain mounted_cache keepsD [OF mounted_send] mounted_admitted)
  show "keeps (mounted P) (update_kernel (\<lambda>k. insert_lookup k p inode 1)) (\<lambda>_. True)"
    if "p \<noteq> ''/''" for p inode
    by (rule mounted_update, rule kernel_step.lookup [OF that])
      (simp_all add: insert_lookup_def with_cache_def kernel_healthy_def
        lock_cache_def Let_def lookup_sequence)
  show "keeps (mounted P) (fuse_forget inode n) (\<lambda>_. True)" for inode n
    unfolding fuse_forget_def
    by (rule mounted_update, rule kernel_step.forget)
      (simp_all add: FuseCache.forget_def with_cache_def kernel_healthy_def
        lock_cache_def Let_def lookup_sequence)
  show "keeps (mounted P) (update_kernel (\<lambda>k. remember_handle_path k inode handle p)) (\<lambda>_. True)"
    for inode handle p
    by (rule mounted_update, rule kernel_step.remember)
      (simp_all add: remember_handle_path_def kernel_healthy_def lock_handles_def
        Let_def)
  show "keeps (mounted P) (update_kernel (\<lambda>k. forget_handle_path k inode handle)) (\<lambda>_. True)"
    for inode handle
    by (rule mounted_update, rule kernel_step.drop_handle)
      (simp_all add: forget_handle_path_def kernel_healthy_def lock_handles_def
        Let_def)
  show "mounted P (a\<lparr>fa_caller := caller\<rparr>) = mounted P a" for a :: "('s LocalClient \<times> nat) FuseAdapter" and caller
    by (simp add: mounted_def)
qed (simp_all add: mounted_cache)

interpretation any_service: dispatch_invariant "\<lambda>_. True"
  by unfold_locales simp

interpretation host_service: dispatch_invariant "served runtime_ok (passthrough_storage h fs)" for h fs
  by unfold_locales (rule pt.dispatch_served)

text \<open>
  C1: a file system mounted in process never goes stale. Starting in step with a
  healthy dispatcher, after every sequence of file-system calls, by any callers, with
  any service behind the dispatcher and at any clock readings, the cache is well
  formed, unpoisoned and expects the sequence number the dispatcher issues next.
\<close>

theorem mounted_never_stale:
  assumes "lc_connected (fst (fa_client a))" "lc_mode (fst (fa_client a)) = Direct"
    "coherent (fa_namespace a) (lc_dispatcher (fst (fa_client a))) (fa_cache a)"
    "(adapter_step (local_rpc cs received now))\<^sup>*\<^sup>* a a'"
  shows "coherent (fa_namespace a') (lc_dispatcher (fst (fa_client a'))) (fa_cache a')
    \<and> fst (cache_poisoned a') = False"
proof -
  have "mounted (\<lambda>_. True) a" using assms(1-3) by (simp add: mounted_def)
  then have m: "mounted (\<lambda>_. True) a'" by (rule any_service.mount.reachable_keeps [OF assms(4)])
  then show ?thesis
    by (simp add: cache_poisoned_def kernel_poisoned_def mounted_cache Let_def) (simp add: mounted_def)
qed

definition sample_mount :: "(nat LocalClient \<times> nat) FuseAdapter" where
  "sample_mount = FuseAdapter_new (LocalClient_new sample_dispatcher Direct, 0) ''n''"

theorem mounted_never_stale_witness:
  "fst (cache_poisoned (drop_caller_guard None (snd (fuse_unlink (local_rpc sample_codecs (\<lambda>_. 0) (\<lambda>_. 0)) 1 ''a''
      (snd (bind_caller_context sample_caller sample_mount)))))) = False"
proof -
  let ?rpc = "local_rpc sample_codecs (\<lambda>_. 0) (\<lambda>_. 0)"
  have m: "lc_connected (fst (fa_client sample_mount))" "lc_mode (fst (fa_client sample_mount)) = Direct"
    "coherent (fa_namespace sample_mount) (lc_dispatcher (fst (fa_client sample_mount))) (fa_cache sample_mount)"
    using fresh_coherent by (simp_all add: sample_mount_def FuseAdapter_new_def LocalClient_new_def)
  have "bind_caller_context sample_caller sample_mount
      = (None, snd (bind_caller_context sample_caller sample_mount))"
    by (simp add: bind_caller_context_def sample_mount_def FuseAdapter_new_def)
  from under_caller [OF this unlink_call, of ?rpc 1 "''a''"]
  have "(adapter_step ?rpc)\<^sup>*\<^sup>* sample_mount (drop_caller_guard None
      (snd (fuse_unlink ?rpc 1 ''a'' (snd (bind_caller_context sample_caller sample_mount)))))"
    by blast
  from mounted_never_stale [OF m this] show ?thesis by blast
qed

section \<open>A directory of the host mounted in process\<close>

definition host_mount :: "('f, 'w) host_fs \<Rightarrow> PassthroughFs \<Rightarrow> ('f, 'w) StorageRuntime \<Rightarrow> string
    \<Rightarrow> (('f, 'w) StorageRuntime FabricFsFileSystemService LocalClient \<times> nat) FuseAdapter" where
  "host_mount h fs s namespace = FuseAdapter_new
    (LocalClient_new (Dispatcher_new (fabricfs_service (passthrough_storage h fs)) (service_new s)) Direct, 0) namespace"

lemma PassthroughFs_new_ok: "PassthroughFs_new h root options w = Ok (fs, s) \<Longrightarrow> runtime_ok s"
  by (auto simp: PassthroughFs_new_def Let_def try_bind_def StorageRuntime_new_def runtime_ok_def limits_validated_def
      locks_ok_Nil flocks_ok_Nil split: sum.splits)

lemma host_mount_mounted:
  assumes "runtime_ok s"
  shows "mounted (served runtime_ok (passthrough_storage h fs)) (host_mount h fs s namespace)"
proof -
  let ?d = "Dispatcher_new (fabricfs_service (passthrough_storage h fs)) (service_new s)"
  have "kernel_wf CacheKernel_new" by (simp add: kernel_wf_def CacheKernel_new_def cache_new_wf)
  moreover have "\<not> disp_poisoned ?d" "seq_next ?d namespace = 1"
    by (simp_all add: Dispatcher_new_def with_authorizer_def seq_next_def)
  ultimately have "coherent namespace ?d CacheKernel_new"
    by (simp add: coherent_def kernel_healthy_def CacheKernel_new_def PathCache_new_def)
  moreover have "served runtime_ok (passthrough_storage h fs) ?d"
    using assms inode_map_ok_new
    by (simp add: served_def service_ok_def Dispatcher_new_def with_authorizer_def service_new_def)
  ultimately show ?thesis
    by (simp add: mounted_def host_mount_def FuseAdapter_new_def LocalClient_new_def)
qed

text \<open>
  C2: a directory of the host that is mounted in process. After every sequence of
  file-system calls by any callers, whatever the host answers, the path cache of the
  client is in step with the server, and the server keeps its tables: the open handles
  have files and fresh numbers, no two owners hold conflicting byte-range locks or
  \<open>flock\<close>s, and the inode map has number 1 for the root and only numbers it
  handed out.
\<close>

theorem host_mount_invariant:
  assumes "PassthroughFs_new h root options w = Ok (fs, s)"
    "(adapter_step (local_rpc cs received now))\<^sup>*\<^sup>* (host_mount h fs s namespace) a"
  shows "let d = lc_dispatcher (fst (fa_client a)) in
    coherent (fa_namespace a) d (fa_cache a) \<and> runtime_ok (sv_storage (disp_state d))
    \<and> inode_map_ok (sv_inodes (disp_state d))"
proof -
  have "mounted (served runtime_ok (passthrough_storage h fs)) a"
    using host_service.mount.reachable_keeps [OF assms(2)]
      host_mount_mounted [OF PassthroughFs_new_ok [OF assms(1)]] by blast
  then show ?thesis by (simp add: mounted_def served_def service_ok_def Let_def)
qed

theorem host_mount_invariant_witness:
  "let a = drop_caller_guard None (snd (fuse_unlink (local_rpc sample_codecs (\<lambda>_. 0) (\<lambda>_. 0)) 1 ''a''
      (snd (bind_caller_context sample_caller (host_mount sample_tree sample_root sample_start ''n'')))))
   in runtime_ok (sv_storage (disp_state (lc_dispatcher (fst (fa_client a)))))"
proof -
  let ?rpc = "local_rpc sample_codecs (\<lambda>_. 0) (\<lambda>_. 0)" and ?a = "host_mount sample_tree sample_root sample_start ''n''"
  have "bind_caller_context sample_caller ?a = (None, snd (bind_caller_context sample_caller ?a))"
    by (simp add: bind_caller_context_def host_mount_def FuseAdapter_new_def)
  from under_caller [OF this unlink_call, of ?rpc 1 "''a''"]
  have "(adapter_step ?rpc)\<^sup>*\<^sup>* ?a (drop_caller_guard None
      (snd (fuse_unlink ?rpc 1 ''a'' (snd (bind_caller_context sample_caller ?a)))))"
    by blast
  from host_mount_invariant [OF sample_tree_new this] show ?thesis by (simp add: Let_def)
qed

section \<open>Open handles on both sides\<close>

lemma rewrite_entry_path:
  assumes "old \<noteq> []" "old \<noteq> ''/''"
  shows "he_path (rewrite_entry old new e) = renamed_path old new (he_path e)"
  using assms
  by (auto simp: rewrite_entry_def renamed_path_def descendant_suffix_def cache_path_is_in_subtree_def subtree_suffix_def
      str_strip_prefix_iff split: option.splits)

text \<open>
  C5: a rename moves an open handle in step on both sides. Where the server and the client
  have the same path for a handle, they again have the same path after the server has
  renamed a file or directory and the client has applied the invalidation of that rename,
  whatever the state of its path cache: calls on the handle name the path that the server
  has for it.
\<close>

theorem rename_handles_in_step:
  assumes "pt_rename h fs (inv_old_path i) (inv_new_path i) ctx s = (Ok (), s')" "\<not> sr_handles_poisoned s"
    "hm_get (hs_entries (sr_handles s)) fh = Some e"
    "\<not> ck_handles_lock_poisoned k" "hm_get (ck_open_handles k) \<lparr>ohk_inode = inode, ohk_handle = fh\<rparr> = Some (he_path e)"
    "inv_namespace i = namespace" "validate_invalidation i = Ok ()" "inv_kind i = invalidation_wire_value Inv_Rename"
  shows "\<exists>e'. hm_get (hs_entries (sr_handles s')) fh = Some e'
    \<and> fst (kernel_path_for_handle_bound_call (snd (apply_invalidation namespace i allow k)) inode fh) = Ok (he_path e')"
proof -
  let ?old = "inv_old_path i" and ?new = "inv_new_path i"
  have v: "validate_rename_paths ?old ?new = Ok ()"
    using assms(7) validate_invalidation_kind [OF assms(8)] by (simp add: invalidation_paths_ok_def)
  then have p: "valid_path ?old" "valid_path ?new" "?old \<noteq> ''/''" "?old \<noteq> []"
    using rename_paths_validD(1,2) [OF v] by (auto simp: valid_non_root_iff validate_path_value_def)
  then have "normal ?old = ?old" "normal ?new = ?new"
    using normalize_valid [of ?old] normalize_valid [of ?new] by (simp_all add: normalize_path_eq)
  with rename_Ok_rewrites [OF assms(1,2)] assms(3)
  have "hm_get (hs_entries (sr_handles s')) fh = Some (rewrite_entry ?old ?new e)" by (simp add: map_values_get)
  moreover note renamed_handle_path [OF assms(4-8), of allow]
  ultimately show ?thesis using p by (simp add: rewrite_entry_path)
qed

definition handle_state :: "(unit, string list) StorageRuntime" where
  "handle_state = list_state\<lparr>sr_handles := \<lparr>hs_next = 8,
    hs_entries = [(7, \<lparr>he_path = ''/a'', he_kind = Handle_File, he_access_bits = 4, he_offset = 0,
      he_permission_updates_blocked = False, he_file = Some ()\<rparr>)]\<rparr>\<rparr>"

theorem rename_handles_in_step_witness:
  "\<exists>e'. hm_get (hs_entries (sr_handles (snd (pt_rename (list_host 511 (\<lambda>_. True)) list_fs ''/a'' ''/b'' (Some list_caller)
      handle_state)))) 7 = Some e'
    \<and> fst (kernel_path_for_handle_bound_call (snd (apply_invalidation ''n'' (sample_rename_invalidation 1) False
        (remember_handle_path CacheKernel_new 2 7 ''/a''))) 2 7) = Ok (he_path e')"
proof -
  let ?i = "sample_rename_invalidation 1" and ?k = "remember_handle_path CacheKernel_new 2 7 ''/a''"
  let ?r = "pt_rename (list_host 511 (\<lambda>_. True)) list_fs ''/a'' ''/b'' (Some list_caller) handle_state"
  have "fst ?r = Ok ()" by code_simp
  then have r: "pt_rename (list_host 511 (\<lambda>_. True)) list_fs (inv_old_path ?i) (inv_new_path ?i) (Some list_caller) handle_state
      = (Ok (), snd ?r)"
    by (simp add: sample_rename_invalidation_def prod_eq_iff)
  let ?e = "\<lparr>he_path = ''/a'', he_kind = Handle_File, he_access_bits = 4, he_offset = 0,
      he_permission_updates_blocked = False, he_file = Some ()\<rparr>"
  have h: "\<not> sr_handles_poisoned handle_state" "hm_get (hs_entries (sr_handles handle_state)) 7 = Some ?e"
    by (simp_all add: handle_state_def list_state_def StorageRuntime_new_def)
  have k: "\<not> ck_handles_lock_poisoned ?k" "hm_get (ck_open_handles ?k) \<lparr>ohk_inode = 2, ohk_handle = 7\<rparr> = Some (he_path ?e)"
    by (simp_all add: remember_handle_path_def lock_handles_def CacheKernel_new_def)
  have i: "inv_namespace ?i = ''n''" "validate_invalidation ?i = Ok ()" "inv_kind ?i = invalidation_wire_value Inv_Rename"
    by code_simp+
  from rename_handles_in_step [OF r h k i, of False] show ?thesis .
qed

end
